(* ===== verification/Prelude.thy ===== *)
theory Prelude
  imports Main "HOL-Library.Word"
begin

text \<open>
  Shared vocabulary of the development.

  The kernel is built in Cargo's dev profile (the README's \<open>cargo build\<close> and \<open>cargo run\<close>), so
  an overflowing \<open>+\<close>, \<open>-\<close> or \<open>*\<close>, an index or slice range out of bounds, a failed \<open>assert!\<close>,
  \<open>unwrap\<close> or \<open>expect\<close> and an explicit \<open>panic!\<close> all end in the kernel's panic handler.
  A computation that can panic has the type \<open>'a res\<close>: it is \<open>Ok v\<close> or \<open>Panic\<close> with the reason.
  Rust's own \<open>Result<T, E>\<close> is a value and is the sum \<open>'e + 't\<close> (\<open>Inl\<close> is \<open>Err\<close>); \<open>Option\<close> is
  \<open>option\<close>.

  A \<open>usize\<close> or \<open>u64\<close> used as a size, address or count is a natural number and every operation of the
  source on it is written with the bound \<open>2 ^ 64\<close> (\<^emph>\<open>uadd\<close>, \<^emph>\<open>usub\<close>, \<^emph>\<open>umul\<close>, \<open>checked_add\<close>,
  \<open>saturating_add\<close>); a register or a value used bitwise is a word of its width.
\<close>

unbundle bit_operations_syntax

section \<open>Collections of rules\<close>

named_theorems res_iff \<open>when a computation returns: rules of the form \<open>m = Ok v \<longleftrightarrow> \<dots>\<close>\<close>
named_theorems ops \<open>definitions of the model's elementary operations\<close>

section \<open>Machine types\<close>

type_synonym u8 = "8 word"
type_synonym u16 = "16 word"
type_synonym u32 = "32 word"
type_synonym u64 = "64 word"
type_synonym usize = nat
type_synonym addr = nat

text \<open>One past the largest \<open>usize\<close> or \<open>u64\<close>, and the largest \<open>isize\<close>.\<close>

abbreviation usize_bound :: nat where
  "usize_bound \<equiv> 18446744073709551616"

abbreviation isize_max :: nat where
  "isize_max \<equiv> 9223372036854775807"

lemma usize_bound_pow: "usize_bound = 2 ^ 64"
  by simp

section \<open>Computations that may panic\<close>

text \<open>
  \<open>UbCheck\<close> is the check that the standard library makes of the arguments of an unsafe function in the dev
  profile, and the check of the alignment of a pointer that is read; \<open>PageFault\<close> is an access to an address that is not mapped, which ends in the handler of the fault
  and not in the panic handler, but stops the kernel in the same way, and \<open>GpFault\<close> is the fault of the processor when a selector does not fit. \<open>Undefined\<close> is no panic: an access outside of the object it is made to,
  from which on the language says nothing about the program. The model stops there, and no statement of the
  development concludes from it that the program does.
\<close>

datatype panic =
    ArithOverflow
  | IndexOutOfBounds
  | SliceOutOfRange
  | AssertFailed
  | ExpectFailed string
  | ExplicitPanic string
  | UbCheck
  | PageFault addr
  | GpFault
  | DivideByZero
  | Undefined

datatype 'a res = Ok 'a | Panic panic

text \<open>A failed allocation ends in the panic of the standard library.\<close>

definition alloc_failed :: panic where
  "alloc_failed = ExplicitPanic ''memory allocation failed''"

definition rbind :: "'a res \<Rightarrow> ('a \<Rightarrow> 'b res) \<Rightarrow> 'b res" where
  "rbind m f = (case m of Ok x \<Rightarrow> f x | Panic e \<Rightarrow> Panic e)"

lemma rbind_simps [simp]:
  "rbind (Ok x) f = f x"
  "rbind (Panic e) f = Panic e"
  by (simp_all add: rbind_def)

lemma rbind_cong [fundef_cong]:
  "m = m' \<Longrightarrow> (\<And>x. m' = Ok x \<Longrightarrow> f x = f' x) \<Longrightarrow> rbind m f = rbind m' f'"
  by (cases m') (simp_all add: rbind_def)

lemma rbind_Ok_iff [res_iff]: "rbind m f = Ok y \<longleftrightarrow> (\<exists>x. m = Ok x \<and> f x = Ok y)"
  by (cases m) simp_all

lemma rbind_assoc: "rbind (rbind m f) g = rbind m (\<lambda>x. rbind (f x) g)"
  by (cases m) simp_all

lemma rbind_split:
  "P (rbind m f) \<longleftrightarrow> (\<forall>x. m = Ok x \<longrightarrow> P (f x)) \<and> (\<forall>e. m = Panic e \<longrightarrow> P (Panic e))"
  by (cases m) simp_all

definition is_ok :: "'a res \<Rightarrow> bool" where
  "is_ok m = (case m of Ok _ \<Rightarrow> True | Panic _ \<Rightarrow> False)"

lemma is_ok_simps [simp]: "is_ok (Ok x)" "\<not> is_ok (Panic e)"
  by (simp_all add: is_ok_def)

lemma is_ok_iff: "is_ok m \<longleftrightarrow> (\<exists>x. m = Ok x)"
  by (cases m) simp_all

definition expect :: "string \<Rightarrow> 'a option \<Rightarrow> 'a res" where
  "expect msg m = (case m of Some x \<Rightarrow> Ok x | None \<Rightarrow> Panic (ExpectFailed msg))"

lemma expect_simps [simp]:
  "expect msg (Some x) = Ok x"
  "expect msg None = Panic (ExpectFailed msg)"
  by (simp_all add: expect_def)

lemma expect_Ok_iff [res_iff]: "expect msg m = Ok x \<longleftrightarrow> m = Some x"
  by (cases m) simp_all

definition assert :: "bool \<Rightarrow> unit res" where
  "assert b = (if b then Ok () else Panic AssertFailed)"

lemma assert_Ok_iff [res_iff]: "assert b = Ok u \<longleftrightarrow> b"
  by (simp add: assert_def)

lemma assert_True [simp]: "b \<Longrightarrow> assert b = Ok ()"
  by (simp add: assert_def)

section \<open>Arithmetic on \<open>usize\<close> and \<open>u64\<close>\<close>

definition uadd :: "usize \<Rightarrow> usize \<Rightarrow> usize res" where
  "uadd a b = (if a + b < usize_bound then Ok (a + b) else Panic ArithOverflow)"

definition usub :: "usize \<Rightarrow> usize \<Rightarrow> usize res" where
  "usub a b = (if b \<le> a then Ok (a - b) else Panic ArithOverflow)"

definition umul :: "usize \<Rightarrow> usize \<Rightarrow> usize res" where
  "umul a b = (if a * b < usize_bound then Ok (a * b) else Panic ArithOverflow)"

definition checked_add :: "usize \<Rightarrow> usize \<Rightarrow> usize option" where
  "checked_add a b = (if a + b < usize_bound then Some (a + b) else None)"

definition checked_mul :: "usize \<Rightarrow> usize \<Rightarrow> usize option" where
  "checked_mul a b = (if a * b < usize_bound then Some (a * b) else None)"

definition saturating_add :: "usize \<Rightarrow> usize \<Rightarrow> usize" where
  "saturating_add a b = min (a + b) (usize_bound - 1)"

definition saturating_mul :: "usize \<Rightarrow> usize \<Rightarrow> usize" where
  "saturating_mul a b = min (a * b) (usize_bound - 1)"

text \<open>\<open>div_ceil\<close> does not overflow: the standard library divides and adds one on a remainder.\<close>

definition div_ceil :: "usize \<Rightarrow> usize \<Rightarrow> usize" where
  "div_ceil a b = (if a mod b = 0 then a div b else a div b + 1)"

definition usize_and :: "usize \<Rightarrow> usize \<Rightarrow> usize" where
  "usize_and a b = unat ((of_nat a :: u64) AND of_nat b)"

definition usize_not :: "usize \<Rightarrow> usize" where
  "usize_not a = unat (NOT (of_nat a :: u64))"

lemma uadd_Ok_iff [res_iff]: "uadd a b = Ok c \<longleftrightarrow> c = a + b \<and> a + b < usize_bound"
  by (auto simp: uadd_def)

lemma usub_Ok_iff [res_iff]: "usub a b = Ok c \<longleftrightarrow> c = a - b \<and> b \<le> a"
  by (auto simp: usub_def)

lemma umul_Ok_iff [res_iff]: "umul a b = Ok c \<longleftrightarrow> c = a * b \<and> a * b < usize_bound"
  by (auto simp: umul_def)

lemma uadd_ok [simp]: "a + b < usize_bound \<Longrightarrow> uadd a b = Ok (a + b)"
  by (simp add: uadd_def)

lemma usub_ok [simp]: "b \<le> a \<Longrightarrow> usub a b = Ok (a - b)"
  by (simp add: usub_def)

lemma umul_ok [simp]: "a * b < usize_bound \<Longrightarrow> umul a b = Ok (a * b)"
  by (simp add: umul_def)

lemma checked_add_Some_iff [res_iff]:
  "checked_add a b = Some c \<longleftrightarrow> c = a + b \<and> a + b < usize_bound"
  by (auto simp: checked_add_def)

lemma checked_add_None_iff [res_iff]: "checked_add a b = None \<longleftrightarrow> usize_bound \<le> a + b"
  by (auto simp: checked_add_def)

lemma checked_mul_Some_iff [res_iff]:
  "checked_mul a b = Some c \<longleftrightarrow> c = a * b \<and> a * b < usize_bound"
  by (auto simp: checked_mul_def)

lemma div_ceil_mult:
  "div_ceil a b * b = (if a mod b = 0 then a div b * b else a div b * b + b)"
  by (simp add: div_ceil_def)

lemma div_ceil_le_mult: "0 < b \<Longrightarrow> a \<le> div_ceil a b * b"
  using div_mult_mod_eq [of a b] mod_less_divisor [of b a]
  unfolding div_ceil_mult by (split if_split, intro conjI impI; linarith)

lemma div_ceil_mult_less: "0 < b \<Longrightarrow> div_ceil a b * b < a + b"
  using div_mult_mod_eq [of a b] unfolding div_ceil_mult
  by (split if_split, intro conjI impI; linarith)

lemma div_ceil_pos: "0 < a \<Longrightarrow> 0 < b \<Longrightarrow> 0 < div_ceil a b"
  using div_ceil_le_mult [of b a] by (cases "div_ceil a b") auto

section \<open>Indexing and slicing\<close>

definition index :: "'a list \<Rightarrow> usize \<Rightarrow> 'a res" where
  "index xs i = (if i < length xs then Ok (xs ! i) else Panic IndexOutOfBounds)"

definition store :: "'a list \<Rightarrow> usize \<Rightarrow> 'a \<Rightarrow> 'a list res" where
  "store xs i v = (if i < length xs then Ok (xs[i := v]) else Panic IndexOutOfBounds)"

definition sub_list :: "'a list \<Rightarrow> usize \<Rightarrow> usize \<Rightarrow> 'a list" where
  "sub_list xs a b = take (b - a) (drop a xs)"

definition slice_of :: "'a list \<Rightarrow> usize \<Rightarrow> usize \<Rightarrow> 'a list res" where
  "slice_of xs a b =
     (if a \<le> b \<and> b \<le> length xs then Ok (sub_list xs a b) else Panic SliceOutOfRange)"

definition slice_get :: "'a list \<Rightarrow> usize \<Rightarrow> usize \<Rightarrow> 'a list option" where
  "slice_get xs a b = (if a \<le> b \<and> b \<le> length xs then Some (sub_list xs a b) else None)"

lemma index_Ok_iff [res_iff]: "index xs i = Ok v \<longleftrightarrow> i < length xs \<and> v = xs ! i"
  by (auto simp: index_def)

lemma index_ok [simp]: "i < length xs \<Longrightarrow> index xs i = Ok (xs ! i)"
  by (simp add: index_def)

lemma store_Ok_iff [res_iff]: "store xs i v = Ok ys \<longleftrightarrow> i < length xs \<and> ys = xs[i := v]"
  by (auto simp: store_def)

lemma store_ok [simp]: "i < length xs \<Longrightarrow> store xs i v = Ok (xs[i := v])"
  by (simp add: store_def)

lemma slice_of_Ok_iff [res_iff]:
  "slice_of xs a b = Ok ys \<longleftrightarrow> a \<le> b \<and> b \<le> length xs \<and> ys = sub_list xs a b"
  by (auto simp: slice_of_def)

lemma slice_of_ok [simp]: "a \<le> b \<Longrightarrow> b \<le> length xs \<Longrightarrow> slice_of xs a b = Ok (sub_list xs a b)"
  by (simp add: slice_of_def)

lemma length_sub_list: "b \<le> length xs \<Longrightarrow> length (sub_list xs a b) = b - a"
  by (simp add: sub_list_def)

lemma sub_list_append_right: "length xs \<le> a \<Longrightarrow>
  sub_list (xs @ ys) a b = sub_list ys (a - length xs) (b - length xs)"
  by (auto simp: sub_list_def)

lemma sub_list_append_left: "b \<le> length xs \<Longrightarrow> sub_list (xs @ ys) a b = sub_list xs a b"
  by (auto simp: sub_list_def)

section \<open>Loops\<close>

text \<open>A \<open>for\<close> loop over a list of values, with the state threaded through; a panic ends it.\<close>

primrec rfold :: "('a \<Rightarrow> 's \<Rightarrow> 's res) \<Rightarrow> 'a list \<Rightarrow> 's \<Rightarrow> 's res" where
  "rfold f [] s = Ok s"
| "rfold f (x # xs) s = rbind (f x s) (rfold f xs)"

lemma rfold_cong [fundef_cong]:
  "xs = ys \<Longrightarrow> s = t \<Longrightarrow> (\<And>x s. x \<in> set ys \<Longrightarrow> f x s = g x s) \<Longrightarrow> rfold f xs s = rfold g ys t"
proof (induction ys arbitrary: xs s t)
  case Nil
  then show ?case by simp
next
  case (Cons y ys)
  have "rfold f ys = rfold g ys"
    using Cons.IH [OF refl refl] Cons.prems(3) by (intro ext) auto
  with Cons.prems show ?case by simp
qed

lemma rfold_append: "rfold f (xs @ ys) s = rbind (rfold f xs s) (rfold f ys)"
  by (induction xs arbitrary: s) (auto simp: rbind_def split: res.splits)

lemma rbind_rfold_Nil: "rbind m (rfold f []) = m"
  by (cases m) simp_all

lemma rfold_concat_map: "rfold f (concat (map g xs)) s = rfold (\<lambda>x. rfold f (g x)) xs s"
proof (induction xs arbitrary: s)
  case (Cons x xs)
  then show ?case by (cases "rfold f (g x) s") (simp_all add: rfold_append)
qed simp

lemma rfold_map: "rfold f (map g xs) = rfold (\<lambda>x. f (g x)) xs"
  by (induction xs) (auto simp: fun_eq_iff rbind_def split: res.splits)

lemma rfold_filter: "rfold f (filter P xs) s = rfold (\<lambda>x s. if P x then f x s else Ok s) xs s"
  by (induction xs arbitrary: s) (auto simp: rbind_def split: res.splits)

lemma rfold_invariant:
  assumes "\<And>x s. x \<in> set xs \<Longrightarrow> I s \<Longrightarrow> \<exists>s'. f x s = Ok s' \<and> I s'" and "I s"
  shows "\<exists>s'. rfold f xs s = Ok s' \<and> I s'"
  using assms
proof (induction xs arbitrary: s)
  case (Cons x xs)
  from Cons.prems obtain s1 where s1: "f x s = Ok s1" "I s1" by fastforce
  from Cons.IH [OF _ s1(2)] Cons.prems(1) s1(1) show ?case by simp
qed simp

text \<open>Running a loop on a part of a larger state.\<close>

lemma rfold_lift:
  assumes "\<And>x s. x \<in> set xs \<Longrightarrow> I s \<Longrightarrow> g x (h s) = rbind (f x s) (\<lambda>s'. Ok (h s'))"
    and "\<And>x s s'. x \<in> set xs \<Longrightarrow> I s \<Longrightarrow> f x s = Ok s' \<Longrightarrow> I s'" and "I s"
  shows "rfold g xs (h s) = rbind (rfold f xs s) (\<lambda>s'. Ok (h s'))"
  using assms
proof (induction xs arbitrary: s)
  case (Cons x xs)
  show ?case
  proof (cases "f x s")
    case (Ok s1)
    with Cons.prems have "I s1" by (metis list.set_intros(1))
    from Cons.IH [OF _ _ this] Cons.prems(1,2) have
      "rfold g xs (h s1) = rbind (rfold f xs s1) (\<lambda>s'. Ok (h s'))" by (meson list.set_intros(2))
    with Ok Cons.prems(1) [OF _ Cons.prems(3)] show ?thesis by simp
  next
    case (Panic e)
    with Cons.prems(1) [OF _ Cons.prems(3)] show ?thesis by simp
  qed
qed simp

section \<open>Arithmetic on bytes\<close>

lemma unat_u8_less: "unat (b :: u8) < 256"
  using unsigned_less [of b, where 'a = nat] by simp

definition u8add :: "u8 \<Rightarrow> u8 \<Rightarrow> u8 res" where
  "u8add a b = (if unat a + unat b < 256 then Ok (a + b) else Panic ArithOverflow)"

section \<open>Checked arithmetic on words\<close>

definition wadd :: "'a::len word \<Rightarrow> 'a word \<Rightarrow> 'a word res" where
  "wadd a b = (if unat a + unat b < 2 ^ LENGTH('a) then Ok (a + b) else Panic ArithOverflow)"

definition wsub :: "'a::len word \<Rightarrow> 'a word \<Rightarrow> 'a word res" where
  "wsub a b = (if unat b \<le> unat a then Ok (a - b) else Panic ArithOverflow)"

definition wmul :: "'a::len word \<Rightarrow> 'a word \<Rightarrow> 'a word res" where
  "wmul a b = (if unat a * unat b < 2 ^ LENGTH('a) then Ok (a * b) else Panic ArithOverflow)"

text \<open>\<open><<\<close> checks that the distance is below the width.\<close>

definition wshl :: "'a::len word \<Rightarrow> nat \<Rightarrow> 'a word res" where
  "wshl a n = (if n < LENGTH('a) then Ok (push_bit n a) else Panic ArithOverflow)"

definition wdiv :: "'a::len word \<Rightarrow> 'a word \<Rightarrow> 'a word res" where
  "wdiv a b = (if b = 0 then Panic DivideByZero else Ok (a div b))"

lemma wadd_unat:
  fixes a b :: "'a::len word"
  assumes "unat a + unat b < 2 ^ LENGTH('a)"
  shows "wadd a b = Ok (a + b)" "unat (a + b) = unat a + unat b"
  using assms by (simp_all add: wadd_def unat_word_ariths)

lemma wsub_unat:
  fixes a b :: "'a::len word"
  assumes "unat b \<le> unat a"
  shows "wsub a b = Ok (a - b)" "unat (a - b) = unat a - unat b"
  using assms by (simp_all add: wsub_def unat_sub word_le_nat_alt)

lemma unat_ucast_mod: "unat (ucast (x :: 'a::len word) :: 'b::len word) = unat x mod 2 ^ LENGTH('b)"
  by (simp add: unsigned_ucast_eq take_bit_eq_mod)

lemma unat_drop_bit: "unat (drop_bit n (w :: 'a::len word)) = unat w div 2 ^ n"
  unfolding unsigned_drop_bit_eq by (simp add: drop_bit_eq_div take_bit_nat_eq_self unsigned_less)

section \<open>Bits\<close>

lemma not_bit_of_less:
  fixes w :: "'a::len word"
  assumes "unat w < 2 ^ k" and "k \<le> n"
  shows "\<not> bit w n"
proof -
  have "unat w < 2 ^ n" using assms(1) power_increasing [OF assms(2), of "2 :: nat"] by linarith
  then have "\<not> bit (unat w) n" by (simp add: bit_iff_odd)
  then show ?thesis by (simp add: bit_unsigned_iff)
qed

text \<open>Words are equal if they agree on every bit; with the length known, the bits are listed.\<close>

lemma word_eq_bits: "(a :: 'a::len word) = b \<longleftrightarrow> (\<forall>n < LENGTH('a). bit a n \<longleftrightarrow> bit b n)"
  by (auto intro: bit_word_eqI)

lemma all_less_numeral: "(\<forall>n < numeral k. P n) \<longleftrightarrow> P (pred_numeral k) \<and> (\<forall>n < pred_numeral k. P n)"
  by (simp add: numeral_eq_Suc less_Suc_eq) blast

lemma not_bit_beyond: "LENGTH('a) \<le> n \<Longrightarrow> \<not> bit (w :: 'a::len word) n"
  by (auto dest: bit_imp_le_length)

lemma Suc_numerals: "Suc (Suc 0) = 2" "Suc (Suc (Suc 0)) = 3"
  by simp_all

lemmas bits_listed = word_eq_bits all_less_numeral not_bit_beyond Suc_numerals

text \<open>Adding words that share no bit never overflows and is the same as joining them.\<close>

lemma wadd_disjoint:
  assumes "a AND b = 0"
  shows "wadd a b = Ok (a OR b)"
proof -
  have "unat a AND unat b = 0" using assms by (metis unsigned_0 unsigned_and_eq)
  then have "unat a + unat b = unat (a OR b)" by (simp add: disjunctive_add_eq_or unsigned_or_eq)
  then show ?thesis
    using unsigned_less [of "a OR b", where 'a = nat] by (simp add: wadd_def disjunctive_add_eq_or [OF assms])
qed

end
