(* ===== verification/Global_Alloc.thy ===== *)
theory Global_Alloc
  imports Prelude
begin

text \<open>
  What every allocator of \<open>kernel/src/allocator\<close> shares: \<open>align_up\<close> and \<open>Layout\<close>, and the
  contract of \<open>GlobalAlloc\<close> as a locale. A client's history is a list of requests; the lemmas inside
  the locale say what holds of the live blocks after any history, and they are proved once for every
  allocator that keeps the contract.
\<close>

unbundle bit_operations_syntax

section \<open>The kernel heap\<close>

definition HEAP_START :: usize where
  "HEAP_START = 75059993772032"

definition HEAP_SIZE :: usize where
  "HEAP_SIZE = 15 * 1024 * 1024"

section \<open>Rounding up to an alignment\<close>

definition align_up :: "usize \<Rightarrow> usize \<Rightarrow> usize res" where
  "align_up addr align =
     rbind (uadd addr align) (\<lambda>s. rbind (usub s 1) (\<lambda>t. rbind (usub align 1) (\<lambda>m.
       Ok (usize_and t (usize_not m)))))"

text \<open>Clearing the low bits of a word, read as a number, rounds down to a multiple.\<close>

lemma and_not_low_bits:
  assumes "t < usize_bound" and "k < 64"
  shows "usize_and t (usize_not (2 ^ k - 1)) = t - t mod 2 ^ k"
proof -
  have m: "(of_nat (2 ^ k - 1) :: u64) = mask k"
    by (simp add: mask_eq_exp_minus_1 of_nat_diff)
  let ?t = "of_nat t :: u64"
  have t: "unat ?t = t"
    using assms(1) by (simp add: unat_of_nat take_bit_nat_eq_self)
  have "?t = (?t AND mask k) + (?t AND NOT (mask k))"
    by (subst disjunctive_add) (auto simp: bit_simps intro!: bit_eqI)
  then have "?t AND NOT (mask k) = ?t - (?t AND mask k)"
    by (metis add_diff_cancel_left')
  moreover have "unat (?t AND mask k) = t mod 2 ^ k"
    using unsigned_take_bit_eq [of k ?t, where 'a = nat]
    by (simp only: take_bit_eq_mask [symmetric] t take_bit_nat_def)
  ultimately have "unat (?t AND NOT (mask k)) = t - t mod 2 ^ k"
    by (metis mod_less_eq_dividend t unat_sub word_le_nat_alt)
  then show ?thesis
    unfolding usize_and_def usize_not_def m by simp
qed

lemma round_down_bounds:
  fixes a n :: nat
  assumes "0 < n"
  defines "r \<equiv> (a + n - 1) - (a + n - 1) mod n"
  shows "a \<le> r" and "n dvd r" and "r < a + n"
proof -
  have "(a + n - 1) mod n < n"
    using assms(1) by simp
  then show "a \<le> r" and "r < a + n"
    using assms(1) unfolding r_def by linarith+
  show "n dvd r"
    unfolding r_def by (rule dvd_minus_mod)
qed

lemma align_up_pow2:
  assumes "k < 64" and "addr + 2 ^ k < usize_bound"
  shows "align_up addr (2 ^ k) = Ok ((addr + 2 ^ k - 1) - (addr + 2 ^ k - 1) mod 2 ^ k)"
proof -
  have "(1::nat) \<le> 2 ^ k" by simp
  then have "usub (addr + 2 ^ k) 1 = Ok (addr + 2 ^ k - 1)" and "usub (2 ^ k) 1 = Ok (2 ^ k - 1)"
    by (metis le_add2 order_trans usub_ok) (metis \<open>1 \<le> 2 ^ k\<close> usub_ok)
  moreover have "usize_and (addr + 2 ^ k - 1) (usize_not (2 ^ k - 1))
      = (addr + 2 ^ k - 1) - (addr + 2 ^ k - 1) mod 2 ^ k"
    using assms by (intro and_not_low_bits) simp_all
  ultimately show ?thesis
    using assms(2) by (simp add: align_up_def)
qed

lemma least_multiple:
  fixes n r m :: nat
  assumes "n dvd r" and "r < a + n" and "n dvd m" and "a \<le> m"
  shows "r \<le> m"
proof (rule ccontr)
  assume "\<not> r \<le> m"
  then have "0 < r - m" and "n dvd r - m"
    using assms(1,3) by (auto intro: dvd_diff_nat)
  then have "n \<le> r - m"
    by (simp add: dvd_imp_le)
  with assms(2,4) \<open>0 < r - m\<close> show False by linarith
qed

section \<open>Layouts\<close>

text \<open>
  \<open>Layout\<close> guarantees that its alignment is a power of two and that the size, rounded up to it, does
  not exceed \<open>isize::MAX\<close> (\<open>from_size_align\<close> refuses a size above \<open>isize::MAX + 1 - align\<close>);
  \<open>GlobalAlloc\<close> demands a size that is not zero.
\<close>

record layout =
  l_size :: usize
  l_align :: usize

definition pow2 :: "nat \<Rightarrow> bool" where
  "pow2 n \<longleftrightarrow> (\<exists>k<64. n = 2 ^ k)"

definition layout_ok :: "layout \<Rightarrow> bool" where
  "layout_ok l \<longleftrightarrow>
     pow2 (l_align l) \<and> 0 < l_size l \<and> l_size l + l_align l \<le> isize_max + 1"

lemma pow2_pos: "pow2 n \<Longrightarrow> 0 < n"
  by (auto simp: pow2_def)

lemma pow2_le: "pow2 n \<Longrightarrow> n \<le> 9223372036854775808"
proof -
  assume "pow2 n"
  then obtain k where "k < 64" "n = 2 ^ k" by (auto simp: pow2_def)
  then have "n \<le> 2 ^ 63"
    using power_increasing [of k 63 "2::nat"] by simp
  then show ?thesis by simp
qed

lemma align_up_ok:
  assumes "pow2 al" and "addr + al < usize_bound"
  obtains r where "align_up addr al = Ok r" "al dvd r" "addr \<le> r" "r < addr + al"
proof -
  from assms(1) obtain k where k: "k < 64" "al = 2 ^ k" by (auto simp: pow2_def)
  have "align_up addr al = Ok ((addr + al - 1) - (addr + al - 1) mod al)"
    unfolding k(2) by (rule align_up_pow2) (use k assms(2) in simp_all)
  with round_down_bounds [OF pow2_pos [OF assms(1)], of addr] show ?thesis
    using that by blast
qed

lemma align_up_OkD:
  assumes "pow2 al" and "align_up addr al = Ok r"
  shows "al dvd r" and "addr \<le> r" and "r < addr + al"
proof -
  from assms(2) have "addr + al < usize_bound"
    by (auto simp: align_up_def res_iff)
  from align_up_ok [OF assms(1) this]
  obtain r' where "align_up addr al = Ok r'" "al dvd r'" "addr \<le> r'" "r' < addr + al" .
  with assms(2) show "al dvd r" and "addr \<le> r" and "r < addr + al"
    by simp_all
qed

lemma align_up_id:
  assumes "pow2 al" and "al dvd addr" and "addr + al < usize_bound"
  shows "align_up addr al = Ok addr"
proof -
  from align_up_ok [OF assms(1,3)]
  obtain r where r: "align_up addr al = Ok r" "al dvd r" "addr \<le> r" "r < addr + al" .
  have "al dvd r - addr" and "r - addr < al"
    using r assms(2) by (auto intro: dvd_diff_nat)
  then have "r = addr"
    using r(3) by (metis diff_is_0_eq dvd_imp_le le_antisym linorder_not_le not_gr_zero)
  with r(1) show ?thesis by simp
qed

text \<open>
  \<open>align_up\<close> returns, for a power-of-two alignment and without overflow, the least multiple of the
  alignment that is not below the address.
\<close>

theorem align_up_least_multiple:
  assumes "k < 64" and "addr + 2 ^ k < usize_bound"
  shows "\<exists>r. align_up addr (2 ^ k) = Ok r \<and> 2 ^ k dvd r \<and> addr \<le> r \<and>
           (\<forall>m. 2 ^ k dvd m \<longrightarrow> addr \<le> m \<longrightarrow> r \<le> m)"
proof -
  have "pow2 (2 ^ k)"
    using assms(1) by (auto simp: pow2_def)
  from align_up_ok [OF this assms(2)] obtain r where
    r: "align_up addr (2 ^ k) = Ok r" "2 ^ k dvd r" "addr \<le> r" "r < addr + 2 ^ k" .
  have "r \<le> m" if "2 ^ k dvd m" "addr \<le> m" for m
    by (rule least_multiple [OF r(2,4) that])
  with r show ?thesis by blast
qed

theorem align_up_least_multiple_witness:
  "\<exists>r. align_up 4097 (2 ^ 12) = Ok r \<and> 2 ^ 12 dvd r \<and> 4097 \<le> r \<and>
     (\<forall>m. 2 ^ 12 dvd m \<longrightarrow> 4097 \<le> m \<longrightarrow> r \<le> m)"
  by (rule align_up_least_multiple) simp_all

section \<open>Blocks handed out\<close>

type_synonym block = "addr \<times> layout"

definition span :: "block \<Rightarrow> addr set" where
  "span b = {fst b ..< fst b + l_size (snd b)}"

text \<open>What a client may rely on: live blocks are aligned, not null and pairwise disjoint.\<close>

definition blocks_ok :: "block set \<Rightarrow> bool" where
  "blocks_ok L \<longleftrightarrow> finite L \<and>
     (\<forall>b\<in>L. fst b \<noteq> 0 \<and> l_align (snd b) dvd fst b) \<and>
     (\<forall>b\<in>L. \<forall>c\<in>L. b \<noteq> c \<longrightarrow> span b \<inter> span c = {})"

lemma blocks_ok_subset: "blocks_ok L \<Longrightarrow> M \<subseteq> L \<Longrightarrow> blocks_ok M"
  unfolding blocks_ok_def by (blast intro: finite_subset)

text \<open>
  The states a client can bring an allocator to, with the blocks that are then live. \<open>scrib\<close> relates
  two states when the second differs from the first by writes of the client inside one live block;
  \<open>adm\<close> says which layouts the client asks for.
\<close>

inductive client_reach ::
  "(layout \<Rightarrow> bool) \<Rightarrow> ('s \<Rightarrow> layout \<Rightarrow> ('s \<times> addr) res option) \<Rightarrow>
   ('s \<Rightarrow> addr \<Rightarrow> layout \<Rightarrow> 's res) \<Rightarrow> (block \<Rightarrow> 's \<Rightarrow> 's \<Rightarrow> bool) \<Rightarrow> 's \<Rightarrow> 's \<Rightarrow> block set \<Rightarrow> bool"
  for adm :: "layout \<Rightarrow> bool"
    and al :: "'s \<Rightarrow> layout \<Rightarrow> ('s \<times> addr) res option"
    and de :: "'s \<Rightarrow> addr \<Rightarrow> layout \<Rightarrow> 's res"
    and scrib :: "block \<Rightarrow> 's \<Rightarrow> 's \<Rightarrow> bool"
    and s0 :: 's
where
  cr_start: "client_reach adm al de scrib s0 s0 {}"
| cr_alloc: "client_reach adm al de scrib s0 s L \<Longrightarrow> adm l \<Longrightarrow>
    al s l = Some (Ok (s', p)) \<Longrightarrow> p \<noteq> 0 \<Longrightarrow> client_reach adm al de scrib s0 s' (insert (p, l) L)"
| cr_null: "client_reach adm al de scrib s0 s L \<Longrightarrow> adm l \<Longrightarrow>
    al s l = Some (Ok (s', 0)) \<Longrightarrow> client_reach adm al de scrib s0 s' L"
| cr_dealloc: "client_reach adm al de scrib s0 s L \<Longrightarrow> (p, l) \<in> L \<Longrightarrow>
    de s p l = Ok s' \<Longrightarrow> client_reach adm al de scrib s0 s' (L - {(p, l)})"
| cr_write: "client_reach adm al de scrib s0 s L \<Longrightarrow> b \<in> L \<Longrightarrow>
    scrib b s s' \<Longrightarrow> client_reach adm al de scrib s0 s' L"

section \<open>The contract of an allocator\<close>

locale global_alloc =
  fixes adm :: "layout \<Rightarrow> bool"
    and al :: "'s \<Rightarrow> layout \<Rightarrow> ('s \<times> addr) res option"
    and de :: "'s \<Rightarrow> addr \<Rightarrow> layout \<Rightarrow> 's res"
    and scrib :: "block \<Rightarrow> 's \<Rightarrow> 's \<Rightarrow> bool"
    and invar :: "'s \<Rightarrow> block set \<Rightarrow> bool"
  assumes invar_blocks: "invar s L \<Longrightarrow> blocks_ok L"
    and alloc_total: "invar s L \<Longrightarrow> adm l \<Longrightarrow> \<exists>s' p. al s l = Some (Ok (s', p))"
    and alloc_block: "invar s L \<Longrightarrow> adm l \<Longrightarrow> al s l = Some (Ok (s', p)) \<Longrightarrow> p \<noteq> 0 \<Longrightarrow>
      (p, l) \<notin> L \<and> invar s' (insert (p, l) L)"
    and alloc_null: "invar s L \<Longrightarrow> adm l \<Longrightarrow> al s l = Some (Ok (s', 0)) \<Longrightarrow> invar s' L"
    and dealloc_live: "invar s L \<Longrightarrow> (p, l) \<in> L \<Longrightarrow>
      \<exists>s'. de s p l = Ok s' \<and> invar s' (L - {(p, l)})"
    and write_live: "invar s L \<Longrightarrow> b \<in> L \<Longrightarrow> scrib b s s' \<Longrightarrow> invar s' L"
begin

lemma reach_invar:
  assumes "client_reach adm al de scrib s0 s L" and "invar s0 {}"
  shows "invar s L"
  using assms(1)
proof (induction rule: client_reach.induct)
  case cr_start
  show ?case by (rule assms(2))
next
  case (cr_alloc s L l s' p)
  then show ?case using alloc_block by blast
next
  case (cr_null s L l s')
  then show ?case using alloc_null by blast
next
  case (cr_dealloc s L p l s')
  then show ?case using dealloc_live by fastforce
next
  case (cr_write s L b s')
  then show ?case using write_live by blast
qed

lemma reach_blocks_ok:
  "client_reach adm al de scrib s0 s L \<Longrightarrow> invar s0 {} \<Longrightarrow> blocks_ok L"
  using reach_invar invar_blocks by blast

lemma reach_no_panic:
  assumes "client_reach adm al de scrib s0 s L" and "invar s0 {}"
  shows "(\<forall>l. adm l \<longrightarrow> (\<exists>s' p. al s l = Some (Ok (s', p)))) \<and>
         (\<forall>(p, l)\<in>L. \<exists>s'. de s p l = Ok s')"
  using reach_invar [OF assms] alloc_total dealloc_live by fast

end

end
