(* ===== verification/Bump.thy ===== *)
theory Bump
  imports Global_Alloc
begin

text \<open>
  The bump allocator (\<open>kernel/src/allocator/bump.rs\<close>), the kernel's \<open>#[global_allocator]\<close>: its record,
  \<open>new\<close>, \<open>init\<close>, \<open>alloc\<close> and \<open>dealloc\<close>, its invariant, and its interpretation of the allocator
  contract.
\<close>

section \<open>Model\<close>

record bump =
  heap_start :: usize
  heap_end :: usize
  bump_next :: usize
  allocations :: usize

definition bump_new :: bump where
  "bump_new = \<lparr>heap_start = 0, heap_end = 0, bump_next = 0, allocations = 0\<rparr>"

definition bump_init :: "bump \<Rightarrow> usize \<Rightarrow> usize \<Rightarrow> bump" where
  "bump_init b start sz =
     b\<lparr>heap_start := start, heap_end := saturating_add start sz, bump_next := start\<rparr>"

text \<open>A null pointer is the address 0.\<close>

definition bump_alloc :: "bump \<Rightarrow> layout \<Rightarrow> (bump \<times> addr) res" where
  "bump_alloc b l =
     rbind (align_up (bump_next b) (l_align l)) (\<lambda>alloc_start.
       case checked_add alloc_start (l_size l) of
         None \<Rightarrow> Ok (b, 0)
       | Some alloc_end \<Rightarrow>
           if alloc_end > heap_end b then Ok (b, 0)
           else rbind (uadd (allocations b) 1) (\<lambda>n.
             Ok (b\<lparr>bump_next := alloc_end, allocations := n\<rparr>, alloc_start)))"

definition bump_dealloc :: "bump \<Rightarrow> addr \<Rightarrow> layout \<Rightarrow> bump res" where
  "bump_dealloc b p l =
     rbind (usub (allocations b) 1) (\<lambda>n.
       let b' = b\<lparr>allocations := n\<rparr>
       in Ok (if n = 0 then b'\<lparr>bump_next := heap_start b'\<rparr> else b'))"

text \<open>The static \<open>ALLOCATOR\<close> after \<open>init_heap\<close> has initialised it.\<close>

definition kernel_bump :: bump where
  "kernel_bump = bump_init bump_new HEAP_START HEAP_SIZE"

section \<open>Invariant\<close>

definition bump_inv :: "bump \<Rightarrow> block set \<Rightarrow> bool" where
  "bump_inv b L \<longleftrightarrow>
     0 < heap_start b \<and> heap_start b \<le> bump_next b \<and> bump_next b \<le> heap_end b \<and>
     heap_end b \<le> isize_max \<and> blocks_ok L \<and>
     (\<forall>(p, l)\<in>L. heap_start b \<le> p \<and> p + l_size l \<le> bump_next b) \<and>
     allocations b = card L \<and> card L \<le> bump_next b - heap_start b"

text \<open>Every branch of \<open>alloc\<close> at once: where the next block would start, and whether it fits.\<close>

lemma bump_alloc_cases:
  assumes "bump_inv b L" and "layout_ok l"
  obtains st where "align_up (bump_next b) (l_align l) = Ok st" "l_align l dvd st" "bump_next b \<le> st"
    and "bump_alloc b l =
      (if st + l_size l > heap_end b then Ok (b, 0)
       else Ok (b\<lparr>bump_next := st + l_size l, allocations := Suc (card L)\<rparr>, st))"
proof -
  have pw: "pow2 (l_align l)"
    using assms(2) by (simp add: layout_ok_def)
  have nx: "bump_next b \<le> isize_max" and card: "card L \<le> isize_max" "allocations b = card L"
    using assms(1) by (auto simp: bump_inv_def)
  then have "bump_next b + l_align l < usize_bound"
    using pow2_le [OF pw] by linarith
  from align_up_ok [OF pw this] obtain st where
    st: "align_up (bump_next b) (l_align l) = Ok st" "l_align l dvd st" "bump_next b \<le> st"
    by metis
  have "heap_end b \<le> isize_max"
    using assms(1) by (simp add: bump_inv_def)
  then have "bump_alloc b l =
      (if st + l_size l > heap_end b then Ok (b, 0)
       else Ok (b\<lparr>bump_next := st + l_size l, allocations := Suc (card L)\<rparr>, st))"
    using card by (simp add: bump_alloc_def st(1) checked_add_def uadd_def)
  with st that show ?thesis by blast
qed

lemma bump_alloc_inv:
  assumes inv: "bump_inv b L" and "layout_ok l" and "bump_alloc b l = Ok (b', p)" and "p \<noteq> 0"
  shows "(p, l) \<notin> L \<and> bump_inv b' (insert (p, l) L)"
proof -
  from assms(1,2) obtain st where st: "l_align l dvd st" "bump_next b \<le> st"
    and eq: "bump_alloc b l =
      (if st + l_size l > heap_end b then Ok (b, 0)
       else Ok (b\<lparr>bump_next := st + l_size l, allocations := Suc (card L)\<rparr>, st))"
    by (rule bump_alloc_cases)
  with assms(3,4) have fits: "st + l_size l \<le> heap_end b" and p: "p = st"
    and b': "b' = b\<lparr>bump_next := st + l_size l, allocations := Suc (card L)\<rparr>"
    by (auto split: if_splits)
  have sz: "0 < l_size l"
    using assms(2) by (simp add: layout_ok_def)
  have below: "\<forall>(q, k)\<in>L. q + l_size k \<le> st" and fin: "finite L"
    using inv st(2) by (fastforce simp: bump_inv_def blocks_ok_def)+
  with sz have new: "(p, l) \<notin> L"
    unfolding p by fastforce
  have "span (st, l) \<inter> span c = {}" if "c \<in> L" for c
    using below that by (cases c) (fastforce simp: span_def)
  then have "blocks_ok (insert (st, l) L)"
    using inv st assms(4) p by (auto simp: blocks_ok_def bump_inv_def)
  then have "bump_inv b' (insert (p, l) L)"
    using inv st fits new fin sz unfolding b' p by (fastforce simp: bump_inv_def)
  with new show ?thesis by blast
qed

lemma bump_dealloc_inv:
  assumes inv: "bump_inv b L" and "(p, l) \<in> L"
  shows "\<exists>b'. bump_dealloc b p l = Ok b' \<and> bump_inv b' (L - {(p, l)})"
proof -
  have fin: "finite L" and al: "allocations b = card L"
    using inv by (auto simp: bump_inv_def blocks_ok_def)
  with assms(2) have pos: "1 \<le> card L" and c: "card (L - {(p, l)}) = card L - 1"
    by (auto simp: card_gt_0_iff Suc_le_eq)
  have ok: "blocks_ok (L - {(p, l)})"
    using inv blocks_ok_subset by (fastforce simp: bump_inv_def)
  show ?thesis
  proof (cases "card L - 1 = 0")
    case True
    with c fin have "L - {(p, l)} = {}" by simp
    with True inv pos al show ?thesis
      by (auto simp: bump_dealloc_def bump_inv_def blocks_ok_def Let_def)
  next
    case False
    with inv pos al ok c show ?thesis
      by (auto simp: bump_dealloc_def bump_inv_def Let_def)
  qed
qed

interpretation bump: global_alloc layout_ok "\<lambda>b l. Some (bump_alloc b l)" bump_dealloc "\<lambda>_. (=)" bump_inv
proof (standard, goal_cases)
  case (1 s L)
  then show ?case by (simp add: bump_inv_def)
next
  case (2 s L l)
  then show ?case by (metis bump_alloc_cases)
next
  case (3 s L l s' p)
  then show ?case using bump_alloc_inv by blast
next
  case (4 s L l s')
  then obtain st where "bump_next s \<le> st" and
    eq: "bump_alloc s l = (if st + l_size l > heap_end s then Ok (s, 0)
       else Ok (s\<lparr>bump_next := st + l_size l, allocations := Suc (card L)\<rparr>, st))"
    using bump_alloc_cases by metis
  moreover have "0 < bump_next s"
    using 4(1) by (auto simp: bump_inv_def)
  ultimately show ?case using 4 by (auto split: if_splits)
next
  case (5 s L p l)
  then show ?case by (rule bump_dealloc_inv)
next
  case (6 s L b s')
  then show ?case by simp
qed

lemma kernel_bump_sel [simp]:
  "heap_start kernel_bump = HEAP_START"
  "heap_end kernel_bump = HEAP_START + HEAP_SIZE"
  "bump_next kernel_bump = HEAP_START"
  "allocations kernel_bump = 0"
  by (simp_all add: kernel_bump_def bump_init_def bump_new_def saturating_add_def HEAP_START_def
      HEAP_SIZE_def)

lemma kernel_bump_inv: "bump_inv kernel_bump {}"
  by (simp add: bump_inv_def blocks_ok_def) (simp add: HEAP_START_def HEAP_SIZE_def)

section \<open>Properties\<close>

lemma bump_reach_bounds:
  assumes "client_reach layout_ok (\<lambda>b l. Some (bump_alloc b l)) bump_dealloc (\<lambda>_. (=)) b0 b L"
  shows "heap_start b = heap_start b0 \<and> heap_end b = heap_end b0"
  using assms
  by (induction rule: client_reach.induct)
    (auto simp: bump_alloc_def bump_dealloc_def res_iff Let_def split: option.splits if_splits)

text \<open>
  C4. Whatever sequence of allocations, deallocations and writes the kernel makes on its global
  allocator, the live blocks are aligned, not null, pairwise disjoint and inside the heap that
  \<open>init_heap\<close> mapped; no further allocation and no deallocation of a live block panics.
\<close>

theorem bump_client_safe:
  assumes "client_reach layout_ok (\<lambda>b l. Some (bump_alloc b l)) bump_dealloc (\<lambda>_. (=)) kernel_bump b L"
  shows "blocks_ok L \<and> (\<forall>blk\<in>L. span blk \<subseteq> {HEAP_START ..< HEAP_START + HEAP_SIZE}) \<and>
    (\<forall>l. layout_ok l \<longrightarrow> is_ok (bump_alloc b l)) \<and> (\<forall>(p, l)\<in>L. is_ok (bump_dealloc b p l))"
proof -
  note inv = bump.reach_invar [OF assms kernel_bump_inv]
  have hs: "heap_start b = HEAP_START" and he: "heap_end b = HEAP_START + HEAP_SIZE"
    using bump_reach_bounds [OF assms] by simp_all
  have "span blk \<subseteq> {HEAP_START ..< HEAP_START + HEAP_SIZE}" if "blk \<in> L" for blk
  proof -
    obtain p l where blk: "blk = (p, l)" by (cases blk)
    with inv that have "HEAP_START \<le> p" and "p + l_size l \<le> HEAP_START + HEAP_SIZE"
      unfolding hs [symmetric] he [symmetric, unfolded hs [symmetric]]
      by (fastforce simp: bump_inv_def)+
    then show ?thesis by (auto simp: span_def blk)
  qed
  with bump.reach_no_panic [OF assms kernel_bump_inv] bump.reach_blocks_ok [OF assms kernel_bump_inv]
  show ?thesis by (fastforce simp: is_ok_iff)
qed

lemma kernel_bump_first:
  "bump_alloc kernel_bump \<lparr>l_size = 24, l_align = 8\<rparr> =
     Ok (kernel_bump\<lparr>bump_next := HEAP_START + 24, allocations := 1\<rparr>, HEAP_START)"
proof -
  have "align_up HEAP_START 8 = Ok HEAP_START"
    by (rule align_up_id) (auto simp: pow2_def HEAP_START_def intro: exI [of _ 3])
  then show ?thesis
    by (simp add: bump_alloc_def checked_add_def) (simp add: HEAP_START_def HEAP_SIZE_def)
qed

lemma layout_ok_24_8: "layout_ok \<lparr>l_size = 24, l_align = 8\<rparr>"
  by (auto simp: layout_ok_def pow2_def intro: exI [of _ 3])

theorem bump_client_safe_witness:
  "blocks_ok {(HEAP_START, \<lparr>l_size = 24, l_align = 8\<rparr>)} \<and>
   span (HEAP_START, \<lparr>l_size = 24, l_align = 8\<rparr>) \<subseteq> {HEAP_START ..< HEAP_START + HEAP_SIZE}"
proof -
  have "client_reach layout_ok (\<lambda>b l. Some (bump_alloc b l)) bump_dealloc (\<lambda>_. (=)) kernel_bump
      (kernel_bump\<lparr>bump_next := HEAP_START + 24, allocations := 1\<rparr>)
      (insert (HEAP_START, \<lparr>l_size = 24, l_align = 8\<rparr>) {})"
    by (rule cr_alloc [OF cr_start])
      (simp_all add: kernel_bump_first layout_ok_24_8, simp add: HEAP_START_def)
  from bump_client_safe [OF this] show ?thesis by simp
qed

text \<open>
  The functional behaviour of \<open>alloc\<close> on every branch: the candidate is the least aligned address
  from \<open>next\<close> on; it is handed out, and \<open>next\<close> moves just past it, exactly when the block ends inside
  the heap, and otherwise the result is null and the state is unchanged.
\<close>

theorem bump_alloc_exact:
  assumes "bump_inv b L" and "layout_ok l"
  shows "\<exists>st. l_align l dvd st \<and> bump_next b \<le> st \<and>
    (\<forall>m. l_align l dvd m \<longrightarrow> bump_next b \<le> m \<longrightarrow> st \<le> m) \<and>
    bump_alloc b l =
      (if st + l_size l \<le> heap_end b
       then Ok (b\<lparr>bump_next := st + l_size l, allocations := allocations b + 1\<rparr>, st)
       else Ok (b, 0))"
proof -
  from assms obtain st where st: "align_up (bump_next b) (l_align l) = Ok st"
    and eq: "bump_alloc b l = (if st + l_size l > heap_end b then Ok (b, 0)
       else Ok (b\<lparr>bump_next := st + l_size l, allocations := Suc (card L)\<rparr>, st))"
    by (rule bump_alloc_cases)
  have "pow2 (l_align l)"
    using assms(2) by (simp add: layout_ok_def)
  note st_props = align_up_OkD [OF this st]
  have "st \<le> m" if "l_align l dvd m" "bump_next b \<le> m" for m
    by (rule least_multiple [OF st_props(1,3) that])
  with st_props eq assms(1) show ?thesis
    by (intro exI [of _ st]) (auto simp: bump_inv_def)
qed

theorem bump_alloc_exact_witness:
  "\<exists>st. l_align \<lparr>l_size = 24, l_align = 8\<rparr> dvd st \<and> bump_next kernel_bump \<le> st \<and>
    (\<forall>m. l_align \<lparr>l_size = 24, l_align = 8\<rparr> dvd m \<longrightarrow> bump_next kernel_bump \<le> m \<longrightarrow> st \<le> m) \<and>
    bump_alloc kernel_bump \<lparr>l_size = 24, l_align = 8\<rparr> =
      (if st + l_size \<lparr>l_size = 24, l_align = 8\<rparr> \<le> heap_end kernel_bump
       then Ok (kernel_bump\<lparr>bump_next := st + l_size \<lparr>l_size = 24, l_align = 8\<rparr>,
                  allocations := allocations kernel_bump + 1\<rparr>, st)
       else Ok (kernel_bump, 0))"
  by (rule bump_alloc_exact [OF kernel_bump_inv layout_ok_24_8])

text \<open>
  Memory is reclaimed only when the last live block is freed: then \<open>next\<close> returns to the start of
  the heap, so every later allocation sees the whole heap again; freeing any other block moves nothing.
\<close>

theorem bump_dealloc_reclaims:
  assumes "bump_inv b L" and "(p, l) \<in> L"
  shows "\<exists>b'. bump_dealloc b p l = Ok b' \<and> heap_start b' = heap_start b \<and> heap_end b' = heap_end b \<and>
    bump_next b' = (if L = {(p, l)} then heap_start b else bump_next b) \<and>
    allocations b' = card (L - {(p, l)})"
proof -
  have fin: "finite L" and al: "allocations b = card L"
    using assms(1) by (auto simp: bump_inv_def blocks_ok_def)
  have c: "card (L - {(p, l)}) = card L - 1" "1 \<le> card L"
    using fin assms(2) by (auto simp: card_gt_0_iff Suc_le_eq)
  have "L = {(p, l)} \<longleftrightarrow> L - {(p, l)} = {}"
    using assms(2) by blast
  also have "\<dots> \<longleftrightarrow> card L - 1 = 0"
    unfolding c(1) [symmetric] using fin by (metis card_0_eq finite_Diff)
  finally have "L = {(p, l)} \<longleftrightarrow> card L - 1 = 0" .
  with c al show ?thesis
    by (simp add: bump_dealloc_def Let_def)
qed

theorem bump_dealloc_reclaims_witness:
  "\<exists>b'. bump_dealloc (kernel_bump\<lparr>bump_next := HEAP_START + 24, allocations := 1\<rparr>) HEAP_START
      \<lparr>l_size = 24, l_align = 8\<rparr> = Ok b' \<and> bump_next b' = HEAP_START"
proof -
  let ?l = "\<lparr>l_size = 24, l_align = 8\<rparr>"
  let ?b = "kernel_bump\<lparr>bump_next := HEAP_START + 24, allocations := 1\<rparr>"
  have "bump_inv ?b {(HEAP_START, ?l)}"
    using bump_alloc_inv [OF kernel_bump_inv layout_ok_24_8 kernel_bump_first]
    by (simp add: HEAP_START_def)
  from bump_dealloc_reclaims [OF this, of HEAP_START ?l] show ?thesis
    by auto
qed

end
