(* ===== verification/Linked_List.thy ===== *)
theory Linked_List
  imports Global_Alloc
begin

text \<open>
  The linked-list allocator (\<open>kernel/src/allocator/linked_list.rs\<close>). Its free regions are linked
  through nodes written into the free memory itself, so the model has an explicit store from addresses
  to nodes; a reference to the current node is \<open>None\<close> for the head in the allocator's struct and
  \<open>Some a\<close> for the node at address \<open>a\<close>. The traversal of \<open>find_region\<close> may follow any pointers and is
  a partial function; it is proved to return on every well-formed list. The pointer operations refine
  a first-fit search on the list of free regions, and the allocator keeps the contract of
  \<^theory_text>\<open>global_alloc\<close>, also against clients that overwrite the blocks they own.
\<close>

section \<open>Model\<close>

record list_node =
  n_size :: usize
  n_next :: "addr option"

record ll_alloc =
  ll_head :: list_node
  ll_mem :: "addr \<rightharpoonup> list_node"

text \<open>\<open>mem::size_of\<close> and \<open>mem::align_of\<close> of \<open>ListNode\<close> on x86-64: a \<open>usize\<close> and a nullable reference.\<close>

definition node_size :: usize where
  "node_size = 16"

definition node_align :: usize where
  "node_align = 8"

definition list_node_new :: "usize \<Rightarrow> list_node" where
  "list_node_new sz = \<lparr>n_size = sz, n_next = None\<rparr>"

definition end_addr :: "addr \<Rightarrow> usize \<Rightarrow> usize res" where
  "end_addr a sz = uadd a sz"

definition ll_new :: "(addr \<rightharpoonup> list_node) \<Rightarrow> ll_alloc" where
  "ll_new m = \<lparr>ll_head = list_node_new 0, ll_mem = m\<rparr>"

definition add_free_region :: "ll_alloc \<Rightarrow> addr \<Rightarrow> usize \<Rightarrow> ll_alloc res" where
  "add_free_region s a sz =
     rbind (align_up a node_align) (\<lambda>r.
     rbind (assert (r = a)) (\<lambda>_.
     rbind (assert (sz \<ge> node_size)) (\<lambda>_.
       let node = (list_node_new sz)\<lparr>n_next := n_next (ll_head s)\<rparr>
       in Ok (s\<lparr>ll_mem := (ll_mem s)(a \<mapsto> node), ll_head := (ll_head s)\<lparr>n_next := Some a\<rparr>\<rparr>))))"

definition ll_init :: "ll_alloc \<Rightarrow> usize \<Rightarrow> usize \<Rightarrow> ll_alloc res" where
  "ll_init s start sz = add_free_region s start sz"

text \<open>\<open>Result<usize, ()>\<close>: \<open>Inl\<close> when the region is not suitable.\<close>

definition alloc_from_region :: "addr \<Rightarrow> usize \<Rightarrow> usize \<Rightarrow> usize \<Rightarrow> (unit + usize) res" where
  "alloc_from_region a n sz align =
     rbind (align_up a align) (\<lambda>alloc_start.
       case checked_add alloc_start sz of
         None \<Rightarrow> Ok (Inl ())
       | Some alloc_end \<Rightarrow>
           rbind (end_addr a n) (\<lambda>e.
             if alloc_end > e then Ok (Inl ())
             else rbind (usub e alloc_end) (\<lambda>excess.
               if excess > 0 \<and> excess < node_size then Ok (Inl ()) else Ok (Inr alloc_start))))"

definition node_at :: "ll_alloc \<Rightarrow> addr option \<Rightarrow> list_node option" where
  "node_at s cur = (case cur of None \<Rightarrow> Some (ll_head s) | Some a \<Rightarrow> ll_mem s a)"

definition set_next :: "ll_alloc \<Rightarrow> addr option \<Rightarrow> addr option \<Rightarrow> ll_alloc" where
  "set_next s cur nx =
     (case cur of
        None \<Rightarrow> s\<lparr>ll_head := (ll_head s)\<lparr>n_next := nx\<rparr>\<rparr>
      | Some a \<Rightarrow> s\<lparr>ll_mem := (ll_mem s)(a := map_option (\<lambda>n. n\<lparr>n_next := nx\<rparr>) (ll_mem s a))\<rparr>)"

text \<open>
  The \<open>while let\<close> loop of \<open>find_region\<close>, from the current node on. \<open>None\<close>: the loop does not return
  (or follows a reference to memory that holds no node). The region found is returned with its size.
\<close>

partial_function (option) find_region_from ::
  "ll_alloc \<Rightarrow> addr option \<Rightarrow> usize \<Rightarrow> usize \<Rightarrow> (ll_alloc \<times> (addr \<times> usize \<times> usize) option) res option"
where
  "find_region_from s cur sz align =
     (case node_at s cur of
        None \<Rightarrow> None
      | Some current \<Rightarrow>
          (case n_next current of
             None \<Rightarrow> Some (Ok (s, None))
           | Some r \<Rightarrow>
               (case ll_mem s r of
                  None \<Rightarrow> None
                | Some region \<Rightarrow>
                    (case alloc_from_region r (n_size region) sz align of
                       Panic e \<Rightarrow> Some (Panic e)
                     | Ok (Inr alloc_start) \<Rightarrow>
                         Some (Ok (set_next (set_next s (Some r) None) cur (n_next region),
                           Some (r, n_size region, alloc_start)))
                     | Ok (Inl _) \<Rightarrow> find_region_from s (Some r) sz align))))"

definition find_region ::
  "ll_alloc \<Rightarrow> usize \<Rightarrow> usize \<Rightarrow> (ll_alloc \<times> (addr \<times> usize \<times> usize) option) res option" where
  "find_region s sz align = find_region_from s None sz align"

text \<open>
  \<open>Layout::align_to\<close> raises the alignment and fails when the size no longer fits \<open>isize\<close>;
  \<open>pad_to_align\<close> rounds the size up to the alignment.
\<close>

definition size_align :: "layout \<Rightarrow> (usize \<times> usize) res" where
  "size_align l =
     (let al = max (l_align l) node_align
      in if l_size l + al \<le> isize_max + 1
         then Ok (max (div_ceil (l_size l) al * al) node_size, al)
         else Panic (ExpectFailed ''adjusting alignment failed''))"

definition ll_alloc_op :: "ll_alloc \<Rightarrow> layout \<Rightarrow> (ll_alloc \<times> addr) res option" where
  "ll_alloc_op s l =
     (case size_align l of
        Panic e \<Rightarrow> Some (Panic e)
      | Ok (sz, align) \<Rightarrow>
          (case find_region s sz align of
             None \<Rightarrow> None
           | Some (Panic e) \<Rightarrow> Some (Panic e)
           | Some (Ok (s', None)) \<Rightarrow> Some (Ok (s', 0))
           | Some (Ok (s', Some (r, n, alloc_start))) \<Rightarrow>
               Some (rbind (expect ''overflow'' (checked_add alloc_start sz)) (\<lambda>alloc_end.
                 rbind (end_addr r n) (\<lambda>e.
                 rbind (usub e alloc_end) (\<lambda>excess.
                   if excess > 0
                   then rbind (add_free_region s' alloc_end excess) (\<lambda>s''. Ok (s'', alloc_start))
                   else Ok (s', alloc_start)))))))"

definition ll_dealloc :: "ll_alloc \<Rightarrow> addr \<Rightarrow> layout \<Rightarrow> ll_alloc res" where
  "ll_dealloc s p l = rbind (size_align l) (\<lambda>(sz, _). add_free_region s p sz)"

section \<open>The free list as a list of regions\<close>

primrec chain :: "(addr \<rightharpoonup> list_node) \<Rightarrow> addr option \<Rightarrow> (addr \<times> usize) list \<Rightarrow> bool" where
  "chain m p [] = (p = None)"
| "chain m p (r # rs) =
     (p = Some (fst r) \<and> (\<exists>nx. m (fst r) = Some \<lparr>n_size = snd r, n_next = nx\<rparr> \<and> chain m nx rs))"

text \<open>First fit on the list: the region taken, the start of the allocation, the regions left.\<close>

fun first_fit ::
  "(addr \<times> usize) list \<Rightarrow> usize \<Rightarrow> usize \<Rightarrow> ((addr \<times> usize) \<times> usize \<times> (addr \<times> usize) list) option res"
where
  "first_fit [] sz align = Ok None"
| "first_fit (r # rs) sz align =
     rbind (alloc_from_region (fst r) (snd r) sz align) (\<lambda>v.
       case v of
         Inr st \<Rightarrow> Ok (Some (r, st, rs))
       | Inl _ \<Rightarrow> rbind (first_fit rs sz align) (\<lambda>o'.
           Ok (map_option (\<lambda>(q, st, rest). (q, st, r # rest)) o')))"

lemma chain_cong:
  "(\<And>a. a \<in> fst ` set rs \<Longrightarrow> m' a = m a) \<Longrightarrow> chain m' p rs = chain m p rs"
  by (induction rs arbitrary: p) simp_all

lemma set_next_head [simp]:
  "ll_mem (set_next s None nx) = ll_mem s"
  "ll_head (set_next s None nx) = (ll_head s)\<lparr>n_next := nx\<rparr>"
  by (simp_all add: set_next_def)

lemma set_next_node [simp]:
  "ll_head (set_next s (Some a) nx) = ll_head s"
  "ll_mem (set_next s (Some a) nx) b =
     (if b = a then map_option (\<lambda>n. n\<lparr>n_next := nx\<rparr>) (ll_mem s a) else ll_mem s b)"
  by (simp_all add: set_next_def)

lemma node_at_simps [simp]:
  "node_at s None = Some (ll_head s)"
  "node_at s (Some a) = ll_mem s a"
  by (simp_all add: node_at_def)

text \<open>What the loop leaves behind when it has taken a region out of the list that hangs off \<open>cur\<close>.\<close>

definition unlinked :: "ll_alloc \<Rightarrow> addr option \<Rightarrow> list_node \<Rightarrow> (addr \<times> usize) list \<Rightarrow>
    (addr \<times> usize) list \<Rightarrow> ll_alloc \<Rightarrow> bool" where
  "unlinked s cur nd fs rest s' \<longleftrightarrow>
     (\<exists>p'. node_at s' cur = Some (nd\<lparr>n_next := p'\<rparr>) \<and> chain (ll_mem s') p' rest) \<and>
     (\<forall>a. Some a \<noteq> cur \<longrightarrow> a \<notin> fst ` set fs \<longrightarrow> ll_mem s' a = ll_mem s a) \<and>
     (cur \<noteq> None \<longrightarrow> ll_head s' = ll_head s)"

lemma unlinked_first:
  assumes "node_at s cur = Some nd" and "ll_mem s a = Some \<lparr>n_size = n, n_next = nx\<rparr>"
    and "chain (ll_mem s) nx rs" and "a \<notin> fst ` set rs" and "cur \<notin> Some ` fst ` set ((a, n) # rs)"
  shows "unlinked s cur nd ((a, n) # rs) rs (set_next (set_next s (Some a) None) cur nx)"
proof -
  have "chain (ll_mem (set_next (set_next s (Some a) None) cur nx)) nx rs"
    using assms(3-5) by (subst chain_cong [of rs _ "ll_mem s"]; cases cur) auto
  then show ?thesis
    using assms(1,5) by (cases cur) (auto simp: unlinked_def)
qed

lemma unlinked_later:
  assumes "node_at s cur = Some nd" and "n_next nd = Some a"
    and "ll_mem s a = Some \<lparr>n_size = n, n_next = nx\<rparr>"
    and "cur \<notin> Some ` fst ` set ((a, n) # rs)"
    and "unlinked s (Some a) \<lparr>n_size = n, n_next = nx\<rparr> rs rest s'"
  shows "unlinked s cur nd ((a, n) # rs) ((a, n) # rest) s'"
proof -
  have "nd\<lparr>n_next := Some a\<rparr> = nd"
    using assms(2) by (cases nd) simp
  moreover have "node_at s' cur = node_at s cur"
    using assms(4,5) by (cases cur) (auto simp: unlinked_def image_iff)
  ultimately have "node_at s' cur = Some (nd\<lparr>n_next := Some a\<rparr>)"
    using assms(1) by simp
  then show ?thesis
    using assms(5) by (auto simp: unlinked_def)
qed

text \<open>The pointer loop refines \<open>first_fit\<close>, and it returns.\<close>

lemma find_region_refines:
  assumes "node_at s cur = Some nd" and "chain (ll_mem s) (n_next nd) fs"
    and "distinct (map fst fs)" and "cur \<notin> Some ` fst ` set fs"
  shows "case first_fit fs sz align of
      Panic e \<Rightarrow> find_region_from s cur sz align = Some (Panic e)
    | Ok None \<Rightarrow> find_region_from s cur sz align = Some (Ok (s, None))
    | Ok (Some ((r, n), st, rest)) \<Rightarrow>
        (\<exists>s'. find_region_from s cur sz align = Some (Ok (s', Some (r, n, st))) \<and>
           unlinked s cur nd fs rest s')"
  using assms
proof (induction fs arbitrary: cur nd)
  case Nil
  then show ?case by (simp add: find_region_from.simps)
next
  case (Cons f fs)
  obtain a n where f: "f = (a, n)" by (cases f)
  from Cons.prems(2) obtain nx where a: "n_next nd = Some a"
    and ma: "ll_mem s a = Some \<lparr>n_size = n, n_next = nx\<rparr>" and ch: "chain (ll_mem s) nx fs"
    by (auto simp: f)
  have dist: "a \<notin> fst ` set fs" "distinct (map fst fs)"
    using Cons.prems(3) by (auto simp: f)
  note unfold = find_region_from.simps [of s cur] Cons.prems(1) a ma
  consider (bad) e where "alloc_from_region a n sz align = Panic e"
    | (fits) st where "alloc_from_region a n sz align = Ok (Inr st)"
    | (skip) "alloc_from_region a n sz align = Ok (Inl ())"
  proof (cases "alloc_from_region a n sz align")
    case (Ok v)
    then show thesis using fits skip by (cases v) auto
  next
    case (Panic e)
    then show thesis by (rule bad)
  qed
  then show ?case
  proof cases
    case bad
    then show ?thesis by (simp add: f unfold)
  next
    case fits
    then show ?thesis
      using unlinked_first [OF Cons.prems(1) ma ch dist(1)] Cons.prems(4) by (simp add: f unfold)
  next
    case skip
    have step: "find_region_from s cur sz align = find_region_from s (Some a) sz align"
      by (simp add: unfold skip)
    have IH: "case first_fit fs sz align of
        Panic e \<Rightarrow> find_region_from s (Some a) sz align = Some (Panic e)
      | Ok None \<Rightarrow> find_region_from s (Some a) sz align = Some (Ok (s, None))
      | Ok (Some ((r, k), st, rest)) \<Rightarrow>
          (\<exists>s'. find_region_from s (Some a) sz align = Some (Ok (s', Some (r, k, st))) \<and>
             unlinked s (Some a) \<lparr>n_size = n, n_next = nx\<rparr> fs rest s')"
      by (rule Cons.IH) (use ma ch dist in auto)
    show ?thesis
      using IH unlinked_later [OF Cons.prems(1) a ma, of fs] Cons.prems(4)
      by (fastforce simp: f skip step split: res.splits option.splits prod.splits)
  qed
qed

section \<open>Invariant\<close>

definition ivl :: "addr \<times> usize \<Rightarrow> addr set" where
  "ivl r = {fst r ..< fst r + snd r}"

text \<open>The bytes a live block takes: its size adjusted by \<open>size_align\<close>.\<close>

definition padded :: "layout \<Rightarrow> usize" where
  "padded l = (let al = max (l_align l) node_align
               in max (div_ceil (l_size l) al * al) node_size)"

text \<open>
  The layouts that \<open>size_align\<close> accepts. Every other valid layout (an alignment below that of a node and a size above
  \<open>isize::MAX - 7\<close>) makes \<open>alloc\<close> panic.
\<close>

definition ll_admits :: "layout \<Rightarrow> bool" where
  "ll_admits l \<longleftrightarrow> layout_ok l \<and> l_size l + node_align \<le> isize_max + 1"

definition region_ok :: "addr \<Rightarrow> addr \<Rightarrow> addr \<times> usize \<Rightarrow> bool" where
  "region_ok lo hi r \<longleftrightarrow> node_align dvd fst r \<and> node_size \<le> snd r \<and> lo \<le> fst r \<and> fst r + snd r \<le> hi"

definition live_ok :: "addr \<Rightarrow> addr \<Rightarrow> block \<Rightarrow> bool" where
  "live_ok lo hi b \<longleftrightarrow> ll_admits (snd b) \<and> max (l_align (snd b)) node_align dvd fst b \<and>
     lo \<le> fst b \<and> fst b + padded (snd b) \<le> hi"

definition disjoint_regions :: "(addr \<times> usize) list \<Rightarrow> bool" where
  "disjoint_regions fs = sorted_wrt (\<lambda>x y. ivl x \<inter> ivl y = {}) fs"

definition taken :: "block \<Rightarrow> addr set" where
  "taken b = ivl (fst b, padded (snd b))"

definition ll_inv :: "addr \<Rightarrow> addr \<Rightarrow> ll_alloc \<Rightarrow> block set \<Rightarrow> bool" where
  "ll_inv lo hi s L \<longleftrightarrow> 0 < lo \<and> hi \<le> isize_max \<and> finite L \<and>
     (\<forall>b\<in>L. live_ok lo hi b) \<and> (\<forall>b\<in>L. \<forall>c\<in>L. b \<noteq> c \<longrightarrow> taken b \<inter> taken c = {}) \<and>
     (\<exists>fs. chain (ll_mem s) (n_next (ll_head s)) fs \<and> (\<forall>r\<in>set fs. region_ok lo hi r) \<and>
        disjoint_regions fs \<and> (\<forall>r\<in>set fs. \<forall>b\<in>L. ivl r \<inter> taken b = {}))"

text \<open>A client that owns \<open>b\<close> may overwrite any node that overlaps its bytes, and no other.\<close>

definition ll_scribble :: "block \<Rightarrow> ll_alloc \<Rightarrow> ll_alloc \<Rightarrow> bool" where
  "ll_scribble b s s' \<longleftrightarrow> ll_head s' = ll_head s \<and>
     (\<forall>a. {a ..< a + node_size} \<inter> span b = {} \<longrightarrow> ll_mem s' a = ll_mem s a)"

lemma pow2_node_align: "pow2 node_align"
  by (auto simp: pow2_def node_align_def intro: exI [of _ 3])

lemma pow2_max: "pow2 a \<Longrightarrow> pow2 b \<Longrightarrow> pow2 (max a b)"
  by (auto simp: max_def)

lemma pow2_dvd_max:
  assumes "pow2 a"
  shows "a dvd max a node_align"
proof -
  from assms obtain k where k: "a = 2 ^ k" by (auto simp: pow2_def)
  show ?thesis
  proof (cases "a \<le> node_align")
    case True
    then have "(2::nat) ^ k \<le> 2 ^ 3" by (simp add: k node_align_def)
    then have "k \<le> 3" by (simp only: power_increasing_iff)
    then have "(2::nat) ^ k dvd 2 ^ 3" by (rule le_imp_power_dvd)
    with True show ?thesis by (simp add: k node_align_def max_def)
  next
    case False
    then show ?thesis by (simp add: max_def)
  qed
qed

lemma size_align_ok:
  "ll_admits l \<Longrightarrow> size_align l = Ok (padded l, max (l_align l) node_align)"
  by (auto simp: size_align_def padded_def ll_admits_def layout_ok_def Let_def max_def)

lemma padded_ge: "l_size l \<le> padded l" "node_size \<le> padded l"
  using div_ceil_le_mult [of "max (l_align l) node_align" "l_size l"]
  by (simp_all add: padded_def Let_def node_align_def le_max_iff_disj less_max_iff_disj)

lemma node_align_dvd_padded:
  assumes "ll_admits l"
  shows "node_align dvd padded l" and "node_align dvd max (l_align l) node_align"
proof -
  from assms obtain k where k: "l_align l = 2 ^ k"
    by (auto simp: ll_admits_def layout_ok_def pow2_def)
  show dvd: "node_align dvd max (l_align l) node_align"
  proof (cases "k \<ge> 3")
    case True
    then have "(2::nat) ^ 3 dvd 2 ^ k" by (rule le_imp_power_dvd)
    then show ?thesis by (auto simp: k node_align_def max_def)
  next
    case False
    then have "(2::nat) ^ k \<le> 2 ^ 3" by (intro power_increasing) simp_all
    then show ?thesis by (auto simp: k node_align_def max_def)
  qed
  have "node_align dvd node_size"
    by (simp add: node_align_def node_size_def)
  then show "node_align dvd padded l"
    using dvd by (auto simp: padded_def Let_def max_def [of "_ * _"] intro: dvd_mult)
qed

lemma span_subset_taken: "span b \<subseteq> taken b"
  using padded_ge(1) [of "snd b"] by (auto simp: span_def taken_def ivl_def)

lemma disjoint_regions_distinct:
  assumes "disjoint_regions fs" and "\<forall>r\<in>set fs. region_ok lo hi r"
  shows "distinct (map fst fs)"
  using assms
proof (induction fs)
  case Nil
  then show ?case by simp
next
  case (Cons r fs)
  have "fst r \<noteq> fst q" if "q \<in> set fs" for q
  proof
    assume "fst r = fst q"
    then have "fst r \<in> ivl r \<inter> ivl q"
      using Cons.prems(2) that by (fastforce simp: ivl_def region_ok_def node_size_def)
    then show False
      using Cons.prems(1) that by (auto simp: disjoint_regions_def)
  qed
  then show ?case
    using Cons by (auto simp: disjoint_regions_def)
qed

section \<open>Each operation keeps the invariant\<close>

text \<open>A region is good for a request at \<open>st\<close>: aligned, inside, and the rest is empty or holds a node.\<close>

definition good_fit :: "addr \<times> usize \<Rightarrow> usize \<Rightarrow> usize \<Rightarrow> usize \<Rightarrow> bool" where
  "good_fit r st sz align \<longleftrightarrow> align dvd st \<and> fst r \<le> st \<and> st + sz \<le> fst r + snd r \<and>
     (st + sz = fst r + snd r \<or> st + sz + node_size \<le> fst r + snd r)"

lemma alloc_from_region_ok:
  assumes "region_ok lo hi r" and "hi \<le> isize_max" and "pow2 align"
  shows "\<exists>v. alloc_from_region (fst r) (snd r) sz align = Ok v \<and>
    (\<forall>st. v = Inr st \<longrightarrow> good_fit r st sz align)"
proof -
  have le: "fst r + snd r \<le> isize_max"
    using assms(1,2) by (simp add: region_ok_def)
  then have "fst r + align < usize_bound"
    using pow2_le [OF assms(3)] by linarith
  from align_up_ok [OF assms(3) this] obtain st where
    "align_up (fst r) align = Ok st" "align dvd st" "fst r \<le> st"
    by metis
  with le show ?thesis
    by (auto simp: alloc_from_region_def end_addr_def good_fit_def checked_add_def)
qed

lemma first_fit_ok:
  assumes "\<forall>r\<in>set fs. region_ok lo hi r" and "hi \<le> isize_max" and "pow2 align"
  shows "\<exists>v. first_fit fs sz align = Ok v \<and>
    (\<forall>r st rest. v = Some (r, st, rest) \<longrightarrow>
       good_fit r st sz align \<and> (\<exists>xs ys. fs = xs @ r # ys \<and> rest = xs @ ys))"
  using assms(1)
proof (induction fs)
  case Nil
  then show ?case by simp
next
  case (Cons f fs)
  then obtain w where w: "first_fit fs sz align = Ok w"
    "\<forall>r st rest. w = Some (r, st, rest) \<longrightarrow>
       good_fit r st sz align \<and> (\<exists>xs ys. fs = xs @ r # ys \<and> rest = xs @ ys)"
    by auto
  obtain v where v: "alloc_from_region (fst f) (snd f) sz align = Ok v"
    "\<forall>st. v = Inr st \<longrightarrow> good_fit f st sz align"
    using alloc_from_region_ok [OF _ assms(2,3)] Cons.prems by (metis list.set_intros(1))
  show ?case
  proof (cases v)
    case (Inl u)
    with v w show ?thesis
      by (fastforce simp: split: option.splits intro: exI [of _ "f # _"])
  next
    case (Inr st)
    with v show ?thesis
      by (fastforce intro: exI [of _ "[]"])
  qed
qed

text \<open>What the invariant says of the free list and the live blocks, without the store.\<close>

definition space_inv :: "addr \<Rightarrow> addr \<Rightarrow> (addr \<times> usize) list \<Rightarrow> block set \<Rightarrow> bool" where
  "space_inv lo hi fs L \<longleftrightarrow> 0 < lo \<and> hi \<le> isize_max \<and> finite L \<and>
     (\<forall>b\<in>L. live_ok lo hi b) \<and> (\<forall>b\<in>L. \<forall>c\<in>L. b \<noteq> c \<longrightarrow> taken b \<inter> taken c = {}) \<and>
     (\<forall>r\<in>set fs. region_ok lo hi r) \<and> disjoint_regions fs \<and>
     (\<forall>r\<in>set fs. \<forall>b\<in>L. ivl r \<inter> taken b = {})"

lemma ll_inv_alt:
  "ll_inv lo hi s L \<longleftrightarrow>
     (\<exists>fs. chain (ll_mem s) (n_next (ll_head s)) fs \<and> space_inv lo hi fs L)"
  by (auto simp: ll_inv_def space_inv_def)

lemma space_inv_take:
  assumes inv: "space_inv lo hi (xs @ r # ys) L" and "ll_admits l"
    and fit: "good_fit r st (padded l) (max (l_align l) node_align)"
  shows "(st, l) \<notin> L" and "space_inv lo hi (xs @ ys) (insert (st, l) L)"
    and "st + padded l < fst r + snd r \<Longrightarrow>
      space_inv lo hi ((st + padded l, fst r + snd r - (st + padded l)) # xs @ ys) (insert (st, l) L)"
proof -
  have sub: "taken (st, l) \<subseteq> ivl r"
    using fit by (auto simp: taken_def ivl_def good_fit_def)
  have r: "region_ok lo hi r" and rb: "\<And>b. b \<in> L \<Longrightarrow> ivl r \<inter> taken b = {}"
    and rf: "\<And>q. q \<in> set (xs @ ys) \<Longrightarrow> ivl r \<inter> ivl q = {}"
    using inv by (auto simp: space_inv_def disjoint_regions_def sorted_wrt_append)
  have ne: "taken (st, l) \<noteq> {}"
    using padded_ge(2) [of l] by (auto simp: taken_def ivl_def node_size_def)
  with rb sub show new: "(st, l) \<notin> L" by blast
  have live: "live_ok lo hi (st, l)"
    using fit r assms(2) by (auto simp: live_ok_def good_fit_def region_ok_def)
  show s1: "space_inv lo hi (xs @ ys) (insert (st, l) L)"
    using inv live sub rb rf unfolding space_inv_def disjoint_regions_def
    by (auto simp: sorted_wrt_append) blast+
  assume less: "st + padded l < fst r + snd r"
  let ?q = "(st + padded l, fst r + snd r - (st + padded l))"
  have q: "ivl ?q \<subseteq> ivl r" and qt: "ivl ?q \<inter> taken (st, l) = {}"
    using fit by (auto simp: ivl_def taken_def good_fit_def)
  have "node_align dvd st"
    using node_align_dvd_padded(2) [OF assms(2)] fit by (auto simp: good_fit_def intro: dvd_trans)
  then have "region_ok lo hi ?q"
    using r fit less node_align_dvd_padded(1) [OF assms(2)] by (auto simp: region_ok_def good_fit_def)
  with s1 q qt rb rf show "space_inv lo hi (?q # xs @ ys) (insert (st, l) L)"
    unfolding space_inv_def disjoint_regions_def by (auto simp: sorted_wrt_append) blast+
qed

lemma add_free_region_ok:
  assumes "chain (ll_mem s) (n_next (ll_head s)) fs" and "region_ok lo hi (a, n)"
    and "hi \<le> isize_max" and "a \<notin> fst ` set fs"
  shows "\<exists>s'. add_free_region s a n = Ok s' \<and>
    chain (ll_mem s') (n_next (ll_head s')) ((a, n) # fs)"
proof -
  have "align_up a node_align = Ok a"
    using assms(2,3) by (intro align_up_id pow2_node_align) (auto simp: region_ok_def node_align_def)
  moreover have "node_size \<le> n"
    using assms(2) by (simp add: region_ok_def)
  moreover have "chain ((ll_mem s)(a \<mapsto> x)) (n_next (ll_head s)) fs" for x
    using assms(1,4) by (subst chain_cong [of fs _ "ll_mem s"]) auto
  ultimately show ?thesis
    by (simp add: add_free_region_def list_node_new_def Let_def)
qed

lemma space_inv_distinct: "space_inv lo hi fs L \<Longrightarrow> distinct (map fst fs)"
  unfolding space_inv_def using disjoint_regions_distinct by blast

lemma find_region_ok:
  assumes "chain (ll_mem s) (n_next (ll_head s)) fs" and "space_inv lo hi fs L" and "pow2 align"
  obtains (none) "find_region s sz align = Some (Ok (s, None))"
    | (some) s' r st xs ys where
      "find_region s sz align = Some (Ok (s', Some (fst r, snd r, st)))" "good_fit r st sz align"
      "fs = xs @ r # ys" "chain (ll_mem s') (n_next (ll_head s')) (xs @ ys)"
proof -
  have dist: "distinct (map fst fs)" and "hi \<le> isize_max" "\<forall>r\<in>set fs. region_ok lo hi r"
    using assms(2) space_inv_distinct by (auto simp: space_inv_def)
  then obtain v where v: "first_fit fs sz align = Ok v"
    "\<forall>r st rest. v = Some (r, st, rest) \<longrightarrow>
       good_fit r st sz align \<and> (\<exists>xs ys. fs = xs @ r # ys \<and> rest = xs @ ys)"
    using first_fit_ok assms(3) by meson
  have ref: "case first_fit fs sz align of
      Panic e \<Rightarrow> find_region_from s None sz align = Some (Panic e)
    | Ok None \<Rightarrow> find_region_from s None sz align = Some (Ok (s, None))
    | Ok (Some ((r, n), st, rest)) \<Rightarrow>
        (\<exists>s'. find_region_from s None sz align = Some (Ok (s', Some (r, n, st))) \<and>
           unlinked s None (ll_head s) fs rest s')"
    by (rule find_region_refines) (use assms(1) dist in auto)
  show ?thesis
  proof (cases v)
    case None
    with ref v(1) show ?thesis
      by (intro none) (simp add: find_region_def)
  next
    case (Some q)
    obtain r st rest where q: "q = (r, st, rest)" by (cases q)
    with v Some obtain xs ys where "good_fit r st sz align" "fs = xs @ r # ys" "rest = xs @ ys"
      by blast
    moreover obtain a n where "r = (a, n)" by (cases r)
    moreover from this ref v(1) Some q obtain s' where
      "find_region s sz align = Some (Ok (s', Some (a, n, st)))"
      "unlinked s None (ll_head s) fs rest s'"
      by (auto simp: find_region_def)
    ultimately show ?thesis
      by (intro some [of s' r st xs ys]) (auto simp: unlinked_def)
  qed
qed

lemma ll_alloc_ok:
  assumes "ll_inv lo hi s L" and adm: "ll_admits l"
  shows "\<exists>s' p. ll_alloc_op s l = Some (Ok (s', p)) \<and>
    (if p = 0 then s' = s else (p, l) \<notin> L \<and> ll_inv lo hi s' (insert (p, l) L))"
proof -
  let ?al = "max (l_align l) node_align"
  from assms(1) obtain fs where ch: "chain (ll_mem s) (n_next (ll_head s)) fs"
    and inv: "space_inv lo hi fs L"
    by (auto simp: ll_inv_alt)
  have "pow2 ?al"
    using adm pow2_node_align by (auto simp: ll_admits_def layout_ok_def intro: pow2_max)
  with ch inv show ?thesis
  proof (cases rule: find_region_ok [where sz = "padded l"])
    case none
    then show ?thesis by (simp add: ll_alloc_op_def size_align_ok [OF adm])
  next
    case (some s' r st xs ys)
    note take = space_inv_take [OF inv [unfolded some(3)] adm some(2)]
    have bounds: "st + padded l \<le> fst r + snd r" "fst r + snd r < usize_bound" "0 < st"
      using some(2,3) inv by (auto simp: good_fit_def space_inv_def region_ok_def)
    let ?en = "st + padded l" and ?ex = "fst r + snd r - (st + padded l)"
    have op: "ll_alloc_op s l = Some (if 0 < ?ex
        then rbind (add_free_region s' ?en ?ex) (\<lambda>s''. Ok (s'', st)) else Ok (s', st))"
      using bounds some(1)
      by (simp add: ll_alloc_op_def size_align_ok [OF adm] checked_add_def end_addr_def)
    show ?thesis
    proof (cases "0 < ?ex")
      case False
      with op take(1,2) some(4) bounds show ?thesis
        by (auto simp: ll_inv_alt)
    next
      case True
      then have sp: "space_inv lo hi ((?en, ?ex) # xs @ ys) (insert (st, l) L)"
        by (intro take(3)) simp
      then have "region_ok lo hi (?en, ?ex)" "hi \<le> isize_max" "?en \<notin> fst ` set (xs @ ys)"
        using space_inv_distinct [OF sp] by (auto simp: space_inv_def)
      from add_free_region_ok [OF some(4) this] obtain s'' where
        s'': "add_free_region s' ?en ?ex = Ok s''"
        "chain (ll_mem s'') (n_next (ll_head s'')) ((?en, ?ex) # xs @ ys)" by blast
      with sp have "ll_inv lo hi s'' (insert (st, l) L)"
        unfolding ll_inv_alt by blast
      with op True take(1) s''(1) bounds show ?thesis by simp
    qed
  qed
qed

lemma ll_dealloc_ok:
  assumes "ll_inv lo hi s L" and "(p, l) \<in> L"
  shows "\<exists>s'. ll_dealloc s p l = Ok s' \<and> ll_inv lo hi s' (L - {(p, l)})"
proof -
  from assms(1) obtain fs where ch: "chain (ll_mem s) (n_next (ll_head s)) fs"
    and inv: "space_inv lo hi fs L"
    by (auto simp: ll_inv_alt)
  have live: "live_ok lo hi (p, l)" and free: "\<forall>r\<in>set fs. ivl r \<inter> taken (p, l) = {}"
    using inv assms(2) by (auto simp: space_inv_def)
  then have adm: "ll_admits l" by (simp add: live_ok_def)
  have reg: "region_ok lo hi (p, padded l)"
    using live node_align_dvd_padded(2) [OF adm] padded_ge(2) [of l]
    by (auto simp: live_ok_def region_ok_def intro: dvd_trans)
  have "p \<notin> fst ` set fs"
  proof
    assume "p \<in> fst ` set fs"
    then obtain r where r: "r \<in> set fs" "fst r = p" by auto
    then have "region_ok lo hi r" using inv unfolding space_inv_def by blast
    with r(2) reg have "p \<in> ivl r \<inter> taken (p, l)"
      by (simp add: region_ok_def ivl_def taken_def node_size_def)
    with free r(1) show False by blast
  qed
  from add_free_region_ok [OF ch reg _ this] obtain s' where
    s': "add_free_region s p (padded l) = Ok s'"
    "chain (ll_mem s') (n_next (ll_head s')) ((p, padded l) # fs)"
    using inv by (auto simp: space_inv_def)
  have cross: "ivl (p, padded l) \<inter> taken b = {}" if "b \<in> L - {(p, l)}" for b
  proof -
    have "taken (p, l) \<inter> taken b = {}"
      using inv assms(2) that unfolding space_inv_def by blast
    then show ?thesis by (simp add: taken_def)
  qed
  have "ivl (p, padded l) \<inter> ivl r = {}" if "r \<in> set fs" for r
    using free that by (auto simp: taken_def)
  with inv reg cross have "space_inv lo hi ((p, padded l) # fs) (L - {(p, l)})"
    unfolding space_inv_def disjoint_regions_def by simp
  with s'(2) have "ll_inv lo hi s' (L - {(p, l)})"
    unfolding ll_inv_alt by blast
  with s'(1) show ?thesis
    by (simp add: ll_dealloc_def size_align_ok [OF adm])
qed

lemma ll_scribble_ok:
  assumes "ll_inv lo hi s L" and "b \<in> L" and "ll_scribble b s s'"
  shows "ll_inv lo hi s' L"
proof -
  from assms(1) obtain fs where ch: "chain (ll_mem s) (n_next (ll_head s)) fs"
    and inv: "space_inv lo hi fs L"
    by (auto simp: ll_inv_alt)
  have "ll_mem s' a = ll_mem s a" if "a \<in> fst ` set fs" for a
  proof -
    from that obtain r where r: "r \<in> set fs" "a = fst r" by auto
    with inv have "{a ..< a + node_size} \<subseteq> ivl r"
      by (fastforce simp: space_inv_def region_ok_def ivl_def)
    moreover have "ivl r \<inter> span b = {}"
      using inv r(1) assms(2) span_subset_taken [of b] by (fastforce simp: space_inv_def)
    ultimately have "{a ..< a + node_size} \<inter> span b = {}" by blast
    then show ?thesis
      using assms(3) by (simp add: ll_scribble_def)
  qed
  then have "chain (ll_mem s') (n_next (ll_head s')) fs"
    using ch assms(3) chain_cong [of fs "ll_mem s'" "ll_mem s"] by (simp add: ll_scribble_def)
  with inv show ?thesis by (auto simp: ll_inv_alt)
qed

lemma ll_inv_blocks_ok:
  assumes "ll_inv lo hi s L"
  shows "blocks_ok L"
  unfolding blocks_ok_def
proof (intro conjI ballI impI)
  show "finite L" using assms by (simp add: ll_inv_def)
next
  fix b assume "b \<in> L"
  then have "live_ok lo hi b" and "0 < lo" using assms by (auto simp: ll_inv_def)
  then show "fst b \<noteq> 0" by (auto simp: live_ok_def)
  have "l_align (snd b) dvd max (l_align (snd b)) node_align"
    using \<open>live_ok lo hi b\<close> pow2_dvd_max by (auto simp: live_ok_def ll_admits_def layout_ok_def)
  then show "l_align (snd b) dvd fst b"
    using \<open>live_ok lo hi b\<close> by (auto simp: live_ok_def intro: dvd_trans)
next
  fix b c assume "b \<in> L" "c \<in> L" "b \<noteq> c"
  then have "taken b \<inter> taken c = {}" using assms by (auto simp: ll_inv_def)
  then show "span b \<inter> span c = {}" using span_subset_taken by blast
qed

interpretation ll: global_alloc ll_admits ll_alloc_op ll_dealloc ll_scribble "ll_inv lo hi" for lo hi
proof (standard, goal_cases)
  case (1 s L)
  then show ?case by (rule ll_inv_blocks_ok)
next
  case (2 s L l)
  then show ?case using ll_alloc_ok by blast
next
  case (3 s L l s' p)
  then show ?case using ll_alloc_ok [OF 3(1,2)] by fastforce
next
  case (4 s L l s')
  then show ?case using ll_alloc_ok [OF 4(1,2)] by fastforce
next
  case (5 s L p l)
  then show ?case by (rule ll_dealloc_ok)
next
  case (6 s L b s')
  then show ?case by (rule ll_scribble_ok)
qed

section \<open>Properties\<close>

text \<open>A successful \<open>init\<close> on usable bounds gives the invariant with no live block.\<close>

lemma ll_init_inv:
  assumes "ll_init (ll_new m) lo n = Ok s" and "0 < lo" and "lo + n \<le> isize_max"
  shows "ll_inv lo (lo + n) s {}"
proof -
  from assms(1) have al: "align_up lo node_align = Ok lo" and sz: "node_size \<le> n"
    and s: "s = \<lparr>ll_head = \<lparr>n_size = 0, n_next = Some lo\<rparr>,
      ll_mem = m(lo \<mapsto> \<lparr>n_size = n, n_next = None\<rparr>)\<rparr>"
    by (auto simp: ll_init_def add_free_region_def ll_new_def list_node_new_def Let_def res_iff)
  have "node_align dvd lo"
    using align_up_OkD(1) [OF pow2_node_align al] .
  with assms(2,3) sz have "space_inv lo (lo + n) [(lo, n)] {}"
    by (simp add: space_inv_def region_ok_def disjoint_regions_def)
  moreover have "chain (ll_mem s) (n_next (ll_head s)) [(lo, n)]"
    by (simp add: s)
  ultimately show ?thesis unfolding ll_inv_alt by blast
qed

lemma ll_alloc_refused:
  assumes "layout_ok l" "\<not> ll_admits l"
  shows "ll_alloc_op s l = Some (Panic (ExpectFailed ''adjusting alignment failed''))"
  using assms by (auto simp: ll_admits_def ll_alloc_op_def size_align_def Let_def max_def split: if_splits)

text \<open>A client that goes on has only made allocations of admitted layouts.\<close>

lemma reach_admitted:
  assumes "client_reach layout_ok ll_alloc_op ll_dealloc ll_scribble s0 s L"
  shows "client_reach ll_admits ll_alloc_op ll_dealloc ll_scribble s0 s L"
  using assms
proof (induction rule: client_reach.induct)
  case (cr_alloc s L l s' p)
  then have "ll_admits l" using ll_alloc_refused by fastforce
  with cr_alloc show ?case by (blast intro: client_reach.cr_alloc)
next
  case (cr_null s L l s')
  then have "ll_admits l" using ll_alloc_refused by fastforce
  with cr_null show ?case by (blast intro: client_reach.cr_null)
qed (blast intro: client_reach.intros)+

text \<open>
  C5. Once \<open>init\<close> has accepted the bounds of the heap, any sequence of allocations of valid layouts, deallocations and
  client writes into live blocks leaves the live blocks aligned, not null, pairwise disjoint and
  inside the heap. Every further \<open>alloc\<close> returns (the pointer loop of \<open>find_region\<close> ends) without a
  panic, unless it is of a layout of at least \<open>isize::MAX - 6\<close> bytes with an alignment below that of a node: then, and
  only then, the \<open>expect\<close> of \<open>size_align\<close> panics, where the contract of an allocator asks for a null pointer. Every
  \<open>dealloc\<close> of a live block succeeds. In particular no write of a client into its own
  blocks can damage the free-list nodes, which live in the same memory.
\<close>

theorem ll_client_safe:
  assumes "ll_init (ll_new m) lo n = Ok s0" and "0 < lo" and "lo + n \<le> isize_max"
    and "client_reach layout_ok ll_alloc_op ll_dealloc ll_scribble s0 s L"
  shows "blocks_ok L \<and> (\<forall>b\<in>L. span b \<subseteq> {lo ..< lo + n}) \<and>
    (\<forall>l. layout_ok l \<longrightarrow>
      (if l_size l + max (l_align l) node_align \<le> isize_max + 1 then \<exists>s' p. ll_alloc_op s l = Some (Ok (s', p))
       else ll_alloc_op s l = Some (Panic (ExpectFailed ''adjusting alignment failed'')))) \<and>
    (\<forall>(p, l)\<in>L. is_ok (ll_dealloc s p l))"
proof -
  note init = ll_init_inv [OF assms(1-3)] and reach = reach_admitted [OF assms(4)]
  have "span b \<subseteq> {lo ..< lo + n}" if "b \<in> L" for b
  proof -
    have "live_ok lo (lo + n) b"
      using ll.reach_invar [OF reach init] that by (simp add: ll_inv_def)
    then have "taken b \<subseteq> {lo ..< lo + n}"
      by (auto simp: live_ok_def taken_def ivl_def)
    then show ?thesis using span_subset_taken by blast
  qed
  moreover have "if l_size l + max (l_align l) node_align \<le> isize_max + 1 then \<exists>s' p. ll_alloc_op s l = Some (Ok (s', p))
       else ll_alloc_op s l = Some (Panic (ExpectFailed ''adjusting alignment failed''))" if "layout_ok l" for l
  proof -
    have "ll_admits l \<longleftrightarrow> l_size l + max (l_align l) node_align \<le> isize_max + 1"
      using that by (auto simp: ll_admits_def layout_ok_def max_def)
    then show ?thesis using ll.reach_no_panic [OF reach init] ll_alloc_refused [OF that] by (simp split: if_splits)
  qed
  ultimately show ?thesis using ll.reach_no_panic [OF reach init] ll.reach_blocks_ok [OF reach init]
    by (fastforce simp: is_ok_iff)
qed

definition ll_demo :: ll_alloc where
  "ll_demo = \<lparr>ll_head = \<lparr>n_size = 0, n_next = Some 4096\<rparr>,
     ll_mem = [4096 \<mapsto> \<lparr>n_size = 256, n_next = None\<rparr>]\<rparr>"

lemma ll_demo_init: "ll_init (ll_new Map.empty) 4096 256 = Ok ll_demo"
proof -
  have "align_up 4096 node_align = Ok 4096"
    by (rule align_up_id [OF pow2_node_align]) (simp_all add: node_align_def)
  then show ?thesis
    by (simp add: ll_init_def add_free_region_def ll_new_def list_node_new_def Let_def ll_demo_def
        node_size_def)
qed

theorem ll_client_safe_witness:
  "(\<exists>s' p. ll_alloc_op ll_demo \<lparr>l_size = 24, l_align = 8\<rparr> = Some (Ok (s', p))) \<and>
   ll_alloc_op ll_demo \<lparr>l_size = isize_max, l_align = 1\<rparr> = Some (Panic (ExpectFailed ''adjusting alignment failed''))"
proof -
  have "layout_ok \<lparr>l_size = 24, l_align = 8\<rparr>" by (auto simp: layout_ok_def pow2_def intro: exI [of _ 3])
  moreover have "layout_ok \<lparr>l_size = isize_max, l_align = 1\<rparr>" by (auto simp: layout_ok_def pow2_def intro: exI [of _ 0])
  ultimately show ?thesis
    using ll_client_safe [OF ll_demo_init _ _ cr_start] by (simp add: node_align_def)
qed

text \<open>
  C6. On a well-formed free list the pointer loop of \<open>find_region\<close> returns and computes first fit: it
  skips exactly the regions that do not fit, unlinks the first one that does, reports where the
  allocation starts in it, and leaves all other regions linked in their order; with no fitting region
  the state is unchanged.
\<close>

theorem find_region_first_fit:
  assumes "chain (ll_mem s) (n_next (ll_head s)) fs" and "distinct (map fst fs)"
  shows "case first_fit fs sz align of
      Panic e \<Rightarrow> find_region s sz align = Some (Panic e)
    | Ok None \<Rightarrow> find_region s sz align = Some (Ok (s, None))
    | Ok (Some ((r, n), st, rest)) \<Rightarrow>
        (\<exists>s'. find_region s sz align = Some (Ok (s', Some (r, n, st))) \<and>
           chain (ll_mem s') (n_next (ll_head s')) rest)"
proof -
  have "case first_fit fs sz align of
      Panic e \<Rightarrow> find_region_from s None sz align = Some (Panic e)
    | Ok None \<Rightarrow> find_region_from s None sz align = Some (Ok (s, None))
    | Ok (Some ((r, n), st, rest)) \<Rightarrow>
        (\<exists>s'. find_region_from s None sz align = Some (Ok (s', Some (r, n, st))) \<and>
           unlinked s None (ll_head s) fs rest s')"
    by (rule find_region_refines) (use assms in auto)
  then show ?thesis
    by (force simp: find_region_def unlinked_def split: res.splits option.splits prod.splits)
qed

theorem find_region_first_fit_witness:
  "\<exists>s'. find_region ll_demo 32 8 = Some (Ok (s', Some (4096, 256, 4096))) \<and>
     chain (ll_mem s') (n_next (ll_head s')) []"
proof -
  have "align_up 4096 8 = Ok 4096"
    by (rule align_up_id) (auto simp: pow2_def intro: exI [of _ 3])
  then have "first_fit [(4096, 256)] 32 8 = Ok (Some ((4096, 256), 4096, []))"
    by (simp add: alloc_from_region_def checked_add_def end_addr_def node_size_def)
  with find_region_first_fit [of ll_demo "[(4096, 256)]" 32 8] show ?thesis
    by (simp add: ll_demo_def)
qed

end
