(* ===== verification/Fixed_Block.thy ===== *)
theory Fixed_Block
  imports Linked_List
begin

text \<open>
  The fixed-size block allocator (\<open>kernel/src/allocator/fixed_size_block.rs\<close>): ten free lists, one per
  block size, in front of a fallback heap. The fallback is \<open>linked_list_allocator::Heap\<close>, a crate that
  is not part of the repository: its state is a type variable and its two operations are arguments of
  the definitions. What the allocator needs of it is the contract \<^theory_text>\<open>global_alloc\<close>; the locale
  \<^theory_text>\<open>fixed_on_heap\<close> shows that the contract of the fallback gives the contract of the block allocator,
  and it is interpreted with the repository's own linked-list allocator as the fallback.
\<close>

section \<open>Model\<close>

definition BLOCK_SIZES :: "usize list" where
  "BLOCK_SIZES = [8, 16, 32, 64, 128, 256, 512, 1024, 2048, 4098]"

fun position :: "('a \<Rightarrow> bool) \<Rightarrow> 'a list \<Rightarrow> usize option" where
  "position P [] = None"
| "position P (x # xs) = (if P x then Some 0 else map_option Suc (position P xs))"

definition list_index :: "layout \<Rightarrow> usize option" where
  "list_index l = position (\<lambda>s. s \<ge> max (l_size l) (l_align l)) BLOCK_SIZES"

text \<open>
  The list heads, the nodes written into freed blocks (a node holds only its \<open>next\<close> pointer) and the
  state of the fallback heap, which is its own metadata.
\<close>

record 'h fixed_alloc =
  list_heads :: "addr option list"
  f_nodes :: "addr \<rightharpoonup> addr option"
  fallback_allocator :: 'h

text \<open>\<open>mem::size_of\<close> and \<open>mem::align_of\<close> of a node: one nullable reference.\<close>

definition f_node_size :: usize where
  "f_node_size = 8"

definition f_node_align :: usize where
  "f_node_align = 8"

definition fixed_new :: "'h \<Rightarrow> (addr \<rightharpoonup> addr option) \<Rightarrow> 'h fixed_alloc" where
  "fixed_new heap_empty m =
     \<lparr>list_heads = replicate (length BLOCK_SIZES) None, f_nodes = m, fallback_allocator = heap_empty\<rparr>"

definition fixed_init ::
  "('h \<Rightarrow> addr \<Rightarrow> usize \<Rightarrow> 'h) \<Rightarrow> 'h fixed_alloc \<Rightarrow> usize \<Rightarrow> usize \<Rightarrow> 'h fixed_alloc" where
  "fixed_init heap_init s start sz =
     s\<lparr>fallback_allocator := heap_init (fallback_allocator s) start sz\<rparr>"

text \<open>\<open>allocate_first_fit\<close> gives the heap and the block, \<open>None\<close> for its \<open>Err\<close>.\<close>

definition fallback_alloc ::
  "('h \<Rightarrow> layout \<Rightarrow> 'h \<times> addr option) \<Rightarrow> 'h fixed_alloc \<Rightarrow> layout \<Rightarrow> 'h fixed_alloc \<times> addr" where
  "fallback_alloc aff s l =
     (case aff (fallback_allocator s) l of
        (h, Some p) \<Rightarrow> (s\<lparr>fallback_allocator := h\<rparr>, p)
      | (h, None) \<Rightarrow> (s\<lparr>fallback_allocator := h\<rparr>, 0))"

text \<open>\<open>Layout::from_size_align\<close>; the power-of-two test is written over the 64 possible exponents.\<close>

definition is_power_of_two :: "usize \<Rightarrow> bool" where
  "is_power_of_two n = list_ex (\<lambda>k. n = 2 ^ k) [0..<64]"

definition from_size_align :: "usize \<Rightarrow> usize \<Rightarrow> layout option" where
  "from_size_align sz align =
     (if is_power_of_two align \<and> sz + align \<le> isize_max + 1
      then Some \<lparr>l_size = sz, l_align = align\<rparr> else None)"

text \<open>\<open>None\<close>: the head of the list points at memory that holds no node.\<close>

definition fixed_alloc_op ::
  "('h \<Rightarrow> layout \<Rightarrow> 'h \<times> addr option) \<Rightarrow> 'h fixed_alloc \<Rightarrow> layout \<Rightarrow> ('h fixed_alloc \<times> addr) res option"
where
  "fixed_alloc_op aff s l =
     (case list_index l of
        Some i \<Rightarrow>
          (case list_heads s ! i of
             Some node \<Rightarrow>
               (case f_nodes s node of
                  None \<Rightarrow> None
                | Some nx \<Rightarrow>
                    Some (Ok (s\<lparr>list_heads := (list_heads s)[i := nx],
                                f_nodes := (f_nodes s)(node \<mapsto> None)\<rparr>, node)))
           | None \<Rightarrow>
               Some (rbind (expect ''called `Result::unwrap()` on an `Err` value''
                       (from_size_align (BLOCK_SIZES ! i) (BLOCK_SIZES ! i)))
                 (\<lambda>l'. Ok (fallback_alloc aff s l'))))
      | None \<Rightarrow> Some (Ok (fallback_alloc aff s l)))"

definition fixed_dealloc ::
  "('h \<Rightarrow> addr \<Rightarrow> layout \<Rightarrow> 'h res) \<Rightarrow> 'h fixed_alloc \<Rightarrow> addr \<Rightarrow> layout \<Rightarrow> 'h fixed_alloc res"
where
  "fixed_dealloc de s p l =
     (case list_index l of
        Some i \<Rightarrow>
          rbind (assert (f_node_size \<le> BLOCK_SIZES ! i)) (\<lambda>_.
          rbind (assert (f_node_align \<le> BLOCK_SIZES ! i)) (\<lambda>_.
            Ok (s\<lparr>f_nodes := (f_nodes s)(p \<mapsto> list_heads s ! i),
                  list_heads := (list_heads s)[i := Some p]\<rparr>)))
      | None \<Rightarrow>
          if p = 0 then Panic (ExpectFailed ''called `Option::unwrap()` on a `None` value'')
          else rbind (de (fallback_allocator s) p l) (\<lambda>h. Ok (s\<lparr>fallback_allocator := h\<rparr>)))"

section \<open>Size classes\<close>

lemma position_Some_iff:
  "position P xs = Some i \<longleftrightarrow> i < length xs \<and> P (xs ! i) \<and> (\<forall>j<i. \<not> P (xs ! j))"
  by (induction xs arbitrary: i) (auto simp: less_Suc_eq_0_disj nth_Cons split: nat.splits)

lemma position_None_iff: "position P xs = None \<longleftrightarrow> (\<forall>x\<in>set xs. \<not> P x)"
  by (induction xs) auto

lemma length_BLOCK_SIZES [simp]: "length BLOCK_SIZES = 10"
  by (simp add: BLOCK_SIZES_def)

lemma BLOCK_SIZES_pow2: "i < 9 \<Longrightarrow> BLOCK_SIZES ! i = 2 ^ (i + 3)"
  by (auto simp: BLOCK_SIZES_def less_Suc_eq numeral_eq_Suc)

lemma BLOCK_SIZES_9: "BLOCK_SIZES ! 9 = 4098"
  by (simp add: BLOCK_SIZES_def)

definition class_layout :: "usize \<Rightarrow> layout" where
  "class_layout i = \<lparr>l_size = BLOCK_SIZES ! i, l_align = BLOCK_SIZES ! i\<rparr>"

text \<open>The block that is taken from the fallback heap to serve a request.\<close>

definition inner :: "layout \<Rightarrow> layout" where
  "inner l = (case list_index l of Some i \<Rightarrow> class_layout i | None \<Rightarrow> l)"

text \<open>The requests that the last, ill-formed size class does not catch.\<close>

definition fixed_admits :: "layout \<Rightarrow> bool" where
  "fixed_admits l \<longleftrightarrow> layout_ok l \<and> list_index l \<noteq> Some 9"

lemma is_power_of_two_iff: "is_power_of_two n \<longleftrightarrow> pow2 n"
  by (auto simp: is_power_of_two_def pow2_def list_ex_iff)

lemma class_pow2: "i < 9 \<Longrightarrow> pow2 (BLOCK_SIZES ! i)"
  using BLOCK_SIZES_pow2 [of i] by (auto simp: pow2_def intro: exI [of _ "i + 3"])

lemma class_le: "i < 9 \<Longrightarrow> BLOCK_SIZES ! i \<le> 2048"
  by (auto simp: BLOCK_SIZES_def less_Suc_eq numeral_eq_Suc)

lemma class_layout_ok: "i < 9 \<Longrightarrow> layout_ok (class_layout i)"
  using class_pow2 [of i] class_le [of i] pow2_pos by (force simp: layout_ok_def class_layout_def)

lemma from_size_align_class:
  "i < 9 \<Longrightarrow> from_size_align (BLOCK_SIZES ! i) (BLOCK_SIZES ! i) = Some (class_layout i)"
  using class_pow2 [of i] class_le [of i]
  by (simp add: from_size_align_def class_layout_def is_power_of_two_iff)

lemma list_index_class:
  assumes "list_index l = Some i" and "i \<noteq> 9"
  shows "i < 9" and "l_size l \<le> BLOCK_SIZES ! i" and "l_align l \<le> BLOCK_SIZES ! i"
  using assms by (auto simp: list_index_def position_Some_iff)

lemma pow2_dvd_le:
  assumes "pow2 a" and "pow2 b" and "a \<le> b"
  shows "a dvd b"
proof -
  from assms(1,2) obtain j k where "a = 2 ^ j" "b = 2 ^ k" by (auto simp: pow2_def)
  moreover from this assms(3) have "j \<le> k" by (simp only: power_increasing_iff)
  ultimately show ?thesis by (simp add: le_imp_power_dvd)
qed

lemma inner_ok:
  assumes "fixed_admits l"
  shows "layout_ok (inner l)" and "l_size l \<le> l_size (inner l)" and "l_align l dvd l_align (inner l)"
proof -
  have pw: "pow2 (l_align l)" and ok: "layout_ok l"
    using assms by (auto simp: fixed_admits_def layout_ok_def)
  have "layout_ok (inner l) \<and> l_size l \<le> l_size (inner l) \<and> l_align l dvd l_align (inner l)"
  proof (cases "list_index l")
    case None
    with ok show ?thesis by (simp add: inner_def)
  next
    case (Some i)
    with assms have "i < 9" "l_size l \<le> BLOCK_SIZES ! i" "l_align l \<le> BLOCK_SIZES ! i"
      using list_index_class [of l i] by (auto simp: fixed_admits_def)
    with Some pw class_pow2 show ?thesis
      by (auto simp: inner_def class_layout_ok pow2_dvd_le) (simp_all add: class_layout_def pow2_dvd_le)
  qed
  then show "layout_ok (inner l)" and "l_size l \<le> l_size (inner l)"
    and "l_align l dvd l_align (inner l)" by simp_all
qed

section \<open>Invariant\<close>

primrec f_chain :: "(addr \<rightharpoonup> addr option) \<Rightarrow> addr option \<Rightarrow> addr list \<Rightarrow> bool" where
  "f_chain m p [] = (p = None)"
| "f_chain m p (a # as) = (p = Some a \<and> (\<exists>nx. m a = Some nx \<and> f_chain m nx as))"

lemma f_chain_cong: "(\<And>a. a \<in> set as \<Longrightarrow> m' a = m a) \<Longrightarrow> f_chain m' p as = f_chain m p as"
  by (induction as arbitrary: p) simp_all

text \<open>The free blocks of all classes, given the free addresses \<open>F i\<close> of each class.\<close>

definition free_blocks :: "(usize \<Rightarrow> addr list) \<Rightarrow> block set" where
  "free_blocks F = (\<Union>i\<in>{..<9}. (\<lambda>a. (a, class_layout i)) ` set (F i))"

lemma free_blocksI: "i < 9 \<Longrightarrow> a \<in> set (F i) \<Longrightarrow> (a, class_layout i) \<in> free_blocks F"
  unfolding free_blocks_def by blast

lemma free_blocks_Cons:
  assumes "i < 9" and "set (G i) = insert a (set (F i))" and "\<And>j. j \<noteq> i \<Longrightarrow> G j = F j"
  shows "free_blocks G = insert (a, class_layout i) (free_blocks F)"
proof -
  have "free_blocks H = (\<lambda>a. (a, class_layout i)) ` set (H i) \<union>
      (\<Union>j\<in>{..<9} - {i}. (\<lambda>a. (a, class_layout j)) ` set (H j))" for H
  proof -
    have "(\<Union>j\<in>{..<9}. f j) = f i \<union> (\<Union>j\<in>{..<9} - {i}. f j)" for f :: "nat \<Rightarrow> block set"
      using assms(1) by blast
    then show ?thesis unfolding free_blocks_def .
  qed
  moreover have "(\<Union>j\<in>{..<9} - {i}. (\<lambda>a. (a, class_layout j)) ` set (G j)) =
      (\<Union>j\<in>{..<9} - {i}. (\<lambda>a. (a, class_layout j)) ` set (F j))"
    using assms(3) by (intro SUP_cong) auto
  ultimately show ?thesis by (simp add: assms(2))
qed

definition outer :: "block \<Rightarrow> block" where
  "outer b = (fst b, inner (snd b))"

text \<open>
  The fallback's live blocks are the free blocks of the lists and the blocks behind the live ones; no
  address is in two lists, twice in one, or both free and live.
\<close>

definition lists_ok :: "'h fixed_alloc \<Rightarrow> (usize \<Rightarrow> addr list) \<Rightarrow> block set \<Rightarrow> bool" where
  "lists_ok s F L \<longleftrightarrow> length (list_heads s) = 10 \<and> F 9 = [] \<and>
     (\<forall>i<10. f_chain (f_nodes s) (list_heads s ! i) (F i) \<and> distinct (F i)) \<and>
     (\<forall>i<10. \<forall>j<10. i \<noteq> j \<longrightarrow> set (F i) \<inter> set (F j) = {}) \<and>
     (\<forall>i<10. \<forall>b\<in>L. fst b \<notin> set (F i)) \<and> inj_on fst L \<and> (\<forall>b\<in>L. fixed_admits (snd b))"

definition fixed_inv ::
  "('h \<Rightarrow> block set \<Rightarrow> bool) \<Rightarrow> 'h fixed_alloc \<Rightarrow> block set \<Rightarrow> bool" where
  "fixed_inv hinv s L \<longleftrightarrow>
     (\<exists>F. lists_ok s F L \<and> hinv (fallback_allocator s) (free_blocks F \<union> outer ` L))"

definition fixed_scribble :: "block \<Rightarrow> 'h fixed_alloc \<Rightarrow> 'h fixed_alloc \<Rightarrow> bool" where
  "fixed_scribble b s s' \<longleftrightarrow> list_heads s' = list_heads s \<and>
     fallback_allocator s' = fallback_allocator s \<and>
     (\<forall>a. {a ..< a + f_node_size} \<inter> span b = {} \<longrightarrow> f_nodes s' a = f_nodes s a)"

lemma span_outer: "fixed_admits (snd b) \<Longrightarrow> span b \<subseteq> span (outer b)"
  using inner_ok(2) [of "snd b"] by (auto simp: span_def outer_def)

lemma free_blocks_pos: "b \<in> free_blocks F \<Longrightarrow> fst b \<in> span b \<and> {fst b ..< fst b + f_node_size} \<subseteq> span b"
proof -
  assume "b \<in> free_blocks F"
  then obtain a i where b: "b = (a, class_layout i)" "i < 9" by (auto simp: free_blocks_def)
  have "(2::nat) ^ 3 \<le> 2 ^ (i + 3)" by (rule power_increasing) simp_all
  with b show ?thesis by (simp add: span_def class_layout_def BLOCK_SIZES_pow2 f_node_size_def)
qed

lemma outer_pos: "fixed_admits (snd b) \<Longrightarrow> fst b \<in> span b \<and> fst b \<in> span (outer b)"
  using inner_ok(1) [of "snd b"] by (auto simp: span_def outer_def layout_ok_def fixed_admits_def)

lemma blocks_ok_disjoint:
  "blocks_ok B \<Longrightarrow> b \<in> B \<Longrightarrow> c \<in> B \<Longrightarrow> b \<noteq> c \<Longrightarrow> span b \<inter> span c = {}"
  unfolding blocks_ok_def by blast

lemma blocks_ok_not_null: "blocks_ok B \<Longrightarrow> b \<in> B \<Longrightarrow> fst b \<noteq> 0"
  unfolding blocks_ok_def by blast

lemma fixed_blocks_ok:
  assumes "lists_ok s F L" and "blocks_ok (free_blocks F \<union> outer ` L)"
  shows "blocks_ok L"
proof -
  have inj: "inj_on fst L" and adm: "\<And>b. b \<in> L \<Longrightarrow> fixed_admits (snd b)"
    using assms(1) by (auto simp: lists_ok_def)
  have inj_o: "inj_on outer L"
    using inj by (auto simp: inj_on_def outer_def)
  have "blocks_ok (outer ` L)"
    using assms(2) by (rule blocks_ok_subset) simp
  then have fin: "finite (outer ` L)"
    and al: "\<And>b. b \<in> L \<Longrightarrow> fst b \<noteq> 0 \<and> l_align (inner (snd b)) dvd fst b"
    and dis: "\<And>b c. b \<in> L \<Longrightarrow> c \<in> L \<Longrightarrow> outer b \<noteq> outer c \<Longrightarrow> span (outer b) \<inter> span (outer c) = {}"
    by (auto simp: blocks_ok_def outer_def)
  show ?thesis
    unfolding blocks_ok_def
  proof (intro conjI ballI impI)
    show "finite L" using fin inj_o by (rule finite_imageD)
  next
    fix b assume "b \<in> L"
    with al show "fst b \<noteq> 0" by blast
    show "l_align (snd b) dvd fst b"
      using al inner_ok(3) [OF adm] \<open>b \<in> L\<close> dvd_trans by blast
  next
    fix b c assume bc: "b \<in> L" "c \<in> L" "b \<noteq> c"
    then have "outer b \<noteq> outer c" using inj_o by (auto simp: inj_on_def)
    with dis bc have "span (outer b) \<inter> span (outer c) = {}" by blast
    with span_outer adm bc(1,2) show "span b \<inter> span c = {}" by blast
  qed
qed

section \<open>The contract of the fallback gives the contract of the block allocator\<close>

definition heap_al :: "('h \<Rightarrow> layout \<Rightarrow> 'h \<times> addr option) \<Rightarrow> 'h \<Rightarrow> layout \<Rightarrow> ('h \<times> addr) res option" where
  "heap_al aff h l =
     (case aff h l of (h', Some p) \<Rightarrow> Some (Ok (h', p)) | (h', None) \<Rightarrow> Some (Ok (h', 0)))"

lemma fallback_alloc_heap:
  assumes "heap_al aff (fallback_allocator s) l = Some (Ok (h, p))"
  shows "fallback_alloc aff s l = (s\<lparr>fallback_allocator := h\<rparr>, p)"
  using assms by (auto simp: heap_al_def fallback_alloc_def split: prod.splits option.splits)

lemma heap_al_total: "\<exists>h' p. heap_al aff h l = Some (Ok (h', p))"
  by (auto simp: heap_al_def split: prod.splits option.splits)

lemma fixed_alloc_cases:
  assumes "lists_ok s F L" and "fixed_admits l"
  obtains (reuse) i a as nx where "list_index l = Some i" "i < 9" "F i = a # as" "f_nodes s a = Some nx"
      "list_heads s ! i = Some a" "f_chain (f_nodes s) nx as"
      "fixed_alloc_op aff s l = Some (Ok (s\<lparr>list_heads := (list_heads s)[i := nx],
         f_nodes := (f_nodes s)(a \<mapsto> None)\<rparr>, a))"
    | (fresh) "fixed_alloc_op aff s l = Some (Ok (fallback_alloc aff s (inner l)))"
proof (cases "list_index l")
  case None
  then show thesis by (intro fresh) (simp add: fixed_alloc_op_def inner_def)
next
  case (Some i)
  with assms(2) have i: "i < 9" using list_index_class by (auto simp: fixed_admits_def)
  show thesis
  proof (cases "F i")
    case Nil
    have ch: "f_chain (f_nodes s) (list_heads s ! i) (F i)"
      using assms(1) i by (simp add: lists_ok_def)
    with Nil have "list_heads s ! i = None" by simp
    with Some i show thesis
      by (intro fresh) (simp add: fixed_alloc_op_def inner_def from_size_align_class)
  next
    case (Cons a as)
    have ch: "f_chain (f_nodes s) (list_heads s ! i) (F i)"
      using assms(1) i by (simp add: lists_ok_def)
    with Cons obtain nx where nx: "list_heads s ! i = Some a" "f_nodes s a = Some nx"
      "f_chain (f_nodes s) nx as" by auto
    with Some Cons i show thesis
      by (intro reuse [of i a as nx]) (simp_all add: fixed_alloc_op_def)
  qed
qed

lemma lists_okD:
  assumes "lists_ok s F L"
  shows "length (list_heads s) = 10" and "F 9 = []"
    and "\<And>i. i < 10 \<Longrightarrow> f_chain (f_nodes s) (list_heads s ! i) (F i)"
    and "\<And>i. i < 10 \<Longrightarrow> distinct (F i)"
    and "\<And>i j. i < 10 \<Longrightarrow> j < 10 \<Longrightarrow> i \<noteq> j \<Longrightarrow> set (F i) \<inter> set (F j) = {}"
    and "\<And>i b. i < 10 \<Longrightarrow> b \<in> L \<Longrightarrow> fst b \<notin> set (F i)"
    and "inj_on fst L" and "\<And>b. b \<in> L \<Longrightarrow> fixed_admits (snd b)"
  using assms by (simp_all add: lists_ok_def)

text \<open>Taking the first block of a list moves it from the free to the live blocks.\<close>

lemma reuse_ok:
  assumes ok: "lists_ok s F L" and adm: "fixed_admits l" and i: "list_index l = Some i" "i < 9"
    and F: "F i = a # as" and nx: "f_chain (f_nodes s) nx as"
  defines "s' \<equiv> s\<lparr>list_heads := (list_heads s)[i := nx], f_nodes := (f_nodes s)(a \<mapsto> None)\<rparr>"
  shows "(a, l) \<notin> L" and "lists_ok s' (F(i := as)) (insert (a, l) L)"
    and "free_blocks (F(i := as)) \<union> outer ` insert (a, l) L = free_blocks F \<union> outer ` L"
proof -
  note D = lists_okD [OF ok]
  have a: "a \<notin> set as" "\<And>j. j < 10 \<Longrightarrow> j \<noteq> i \<Longrightarrow> a \<notin> set (F j)" "a \<notin> fst ` L"
    using D(4) [of i] D(5) [of i] D(6) [of i] i F by auto
  then show "(a, l) \<notin> L" by force
  have ch: "f_chain ((f_nodes s)(a \<mapsto> None)) (list_heads s' ! j) ((F(i := as)) j)" if "j < 10" for j
  proof (cases "j = i")
    case True
    with D(1) i nx a(1) show ?thesis
      by (subst f_chain_cong [where m = "f_nodes s"]) (auto simp: s'_def)
  next
    case False
    with D(3) [OF that] a(2) [OF that] show ?thesis
      by (subst f_chain_cong [where m = "f_nodes s"]) (auto simp: s'_def)
  qed
  have sub: "set ((F(i := as)) j) \<subseteq> set (F j)" for j by (auto simp: F)
  have c5: "set ((F(i := as)) j) \<inter> set ((F(i := as)) k) = {}" if "j < 10" "k < 10" "j \<noteq> k" for j k
    using D(5) [OF that] sub [of j] sub [of k] by blast
  have c4: "distinct ((F(i := as)) j)" if "j < 10" for j
    using D(4) [OF that] F by (cases "j = i") auto
  have c6: "fst b \<notin> set ((F(i := as)) j)" if "j < 10" "b \<in> insert (a, l) L" for b j
    using that D(6) [of j b] sub [of j] a by (cases "j = i") auto
  show "lists_ok s' (F(i := as)) (insert (a, l) L)"
    unfolding lists_ok_def using D(1,2,7,8) i ch c4 c5 c6 a(3) adm by (auto simp: s'_def)
  have "free_blocks F = insert (a, class_layout i) (free_blocks (F(i := as)))"
    using F i(2) by (intro free_blocks_Cons) simp_all
  then show "free_blocks (F(i := as)) \<union> outer ` insert (a, l) L = free_blocks F \<union> outer ` L"
    using i by (simp add: outer_def inner_def)
qed

text \<open>A block that the fallback has just handed out is at an address of its own.\<close>

lemma fresh_ok:
  assumes ok: "lists_ok s F L" and adm: "fixed_admits l"
    and new: "(p, inner l) \<notin> free_blocks F \<union> outer ` L"
    and blocks: "blocks_ok (insert (p, inner l) (free_blocks F \<union> outer ` L))"
  shows "(p, l) \<notin> L" and "lists_ok (s\<lparr>fallback_allocator := h\<rparr>) F (insert (p, l) L)"
proof -
  note D = lists_okD [OF ok]
  have p: "p \<in> span (p, inner l)"
    using outer_pos [of "(p, l)"] adm by (simp add: outer_def)
  have away: "fst b \<noteq> p" if "b \<in> free_blocks F \<union> outer ` L" "fst b \<in> span b" for b
  proof -
    have "b \<noteq> (p, inner l)" using that(1) new by metis
    then have "span (p, inner l) \<inter> span b = {}"
      using that(1) by (intro blocks_ok_disjoint [OF blocks]) auto
    with that(2) p show ?thesis by auto
  qed
  have live: "fst b \<noteq> p" if "b \<in> L" for b
    using away [of "outer b"] that outer_pos [of b] D(8) by (auto simp: outer_def)
  then show "(p, l) \<notin> L" by force
  have "p \<notin> set (F i)" if "i < 10" for i
  proof
    assume "p \<in> set (F i)"
    moreover from this D(2) that have "i < 9" by (cases "i = 9") auto
    ultimately have "(p, class_layout i) \<in> free_blocks F" by (intro free_blocksI)
    with away free_blocks_pos show False by fastforce
  qed
  moreover have "inj_on fst (insert (p, l) L)"
    using D(7) live by (auto simp: inj_on_insert)
  ultimately show "lists_ok (s\<lparr>fallback_allocator := h\<rparr>) F (insert (p, l) L)"
    unfolding lists_ok_def using D(1-6,8) adm by simp
qed

lemma recycle_ok:
  assumes ok: "lists_ok s F L" and mem: "(p, l) \<in> L" and i: "list_index l = Some i"
  defines "s' \<equiv> s\<lparr>f_nodes := (f_nodes s)(p \<mapsto> list_heads s ! i), list_heads := (list_heads s)[i := Some p]\<rparr>"
  shows "fixed_dealloc de s p l = Ok s'"
    and "lists_ok s' (F(i := p # F i)) (L - {(p, l)})"
    and "free_blocks (F(i := p # F i)) \<union> outer ` (L - {(p, l)}) = free_blocks F \<union> outer ` L"
proof -
  note D = lists_okD [OF ok]
  have i9: "i < 9"
    using D(8) [OF mem] i list_index_class [of l i] by (auto simp: fixed_admits_def)
  have p: "\<And>j. j < 10 \<Longrightarrow> p \<notin> set (F j)" and others: "\<And>b. b \<in> L \<Longrightarrow> b \<noteq> (p, l) \<Longrightarrow> fst b \<noteq> p"
    using D(6) [OF _ mem] inj_onD [OF D(7) _ _ mem] by auto
  have "(2::nat) ^ 3 \<le> 2 ^ (i + 3)" by (rule power_increasing) simp_all
  then have "8 \<le> BLOCK_SIZES ! i" by (simp add: BLOCK_SIZES_pow2 [OF i9])
  then show "fixed_dealloc de s p l = Ok s'"
    by (simp add: fixed_dealloc_def i f_node_size_def f_node_align_def s'_def)
  have keep: "f_chain (f_nodes s') (list_heads s ! j) (F j)" if "j < 10" for j
    using D(3) [OF that] p [OF that]
    by (subst f_chain_cong [where m = "f_nodes s"]) (auto simp: s'_def)
  have ch: "f_chain (f_nodes s') (list_heads s' ! j) ((F(i := p # F i)) j)" if "j < 10" for j
    using keep [of j] that D(1) i9 by (cases "j = i") (auto simp: s'_def)
  have c4: "distinct ((F(i := p # F i)) j)" if "j < 10" for j
    using D(4) [OF that] p [OF that] by auto
  have c5: "set ((F(i := p # F i)) j) \<inter> set ((F(i := p # F i)) k) = {}"
    if "j < 10" "k < 10" "j \<noteq> k" for j k
    using D(5) [OF that] p that by (cases "j = i"; cases "k = i") auto
  have c6: "fst b \<notin> set ((F(i := p # F i)) j)" if "j < 10" "b \<in> L - {(p, l)}" for b j
    using D(6) [OF that(1)] others that by (cases "j = i") auto
  show "lists_ok s' (F(i := p # F i)) (L - {(p, l)})"
    unfolding lists_ok_def using D(1,2,8) i9 ch c4 c5 c6 inj_on_subset [OF D(7), of "L - {(p, l)}"]
    by (auto simp: s'_def)
  have "free_blocks (F(i := p # F i)) = insert (p, class_layout i) (free_blocks F)"
    using i9 by (intro free_blocks_Cons) simp_all
  moreover have "outer ` L = insert (p, class_layout i) (outer ` (L - {(p, l)}))"
  proof -
    have "outer (p, l) = (p, class_layout i)" by (simp add: outer_def inner_def i)
    then show ?thesis by (metis image_insert insert_Diff mem)
  qed
  ultimately show "free_blocks (F(i := p # F i)) \<union> outer ` (L - {(p, l)}) = free_blocks F \<union> outer ` L"
    by auto
qed

lemma release_ok:
  assumes ok: "lists_ok s F L" and mem: "(p, l) \<in> L" and i: "list_index l = None"
  shows "(p, l) \<in> free_blocks F \<union> outer ` L"
    and "lists_ok (s\<lparr>fallback_allocator := h\<rparr>) F (L - {(p, l)})"
    and "free_blocks F \<union> outer ` (L - {(p, l)}) = free_blocks F \<union> outer ` L - {(p, l)}"
proof -
  note D = lists_okD [OF ok]
  have o: "outer (p, l) = (p, l)" by (simp add: outer_def inner_def i)
  show "(p, l) \<in> free_blocks F \<union> outer ` L"
    using mem o by (metis UnI2 image_eqI)
  show "lists_ok (s\<lparr>fallback_allocator := h\<rparr>) F (L - {(p, l)})"
    using ok inj_on_subset [OF D(7), of "L - {(p, l)}"] unfolding lists_ok_def by auto
  have free: "(p, l) \<notin> free_blocks F"
    using D(6) [OF _ mem] by (auto simp: free_blocks_def)
  have inj: "outer b \<noteq> (p, l)" if "b \<in> L" "b \<noteq> (p, l)" for b
    using inj_onD [OF D(7) _ that(1) mem] that(2) by (auto simp: outer_def)
  have "outer ` (L - {(p, l)}) = outer ` L - {(p, l)}"
  proof (intro set_eqI iffI)
    fix x assume "x \<in> outer ` L - {(p, l)}"
    then obtain b where "b \<in> L" "x = outer b" "outer b \<noteq> (p, l)" by blast
    with o show "x \<in> outer ` (L - {(p, l)})" by (intro image_eqI [of _ _ b]) auto
  next
    fix x assume "x \<in> outer ` (L - {(p, l)})"
    then obtain b where "b \<in> L" "b \<noteq> (p, l)" "x = outer b" by blast
    with inj show "x \<in> outer ` L - {(p, l)}" by simp
  qed
  with free show "free_blocks F \<union> outer ` (L - {(p, l)}) = free_blocks F \<union> outer ` L - {(p, l)}"
    by blast
qed

locale fixed_on_heap = heap: global_alloc layout_ok "heap_al aff" hde "\<lambda>_. (=)" hinv
  for aff :: "'h \<Rightarrow> layout \<Rightarrow> 'h \<times> addr option"
    and hde :: "'h \<Rightarrow> addr \<Rightarrow> layout \<Rightarrow> 'h res"
    and hinv :: "'h \<Rightarrow> block set \<Rightarrow> bool"
begin

lemma fixed_alloc_ok:
  assumes "fixed_inv hinv s L" and adm: "fixed_admits l"
  shows "\<exists>s' p. fixed_alloc_op aff s l = Some (Ok (s', p)) \<and>
    (if p = 0 then fixed_inv hinv s' L else (p, l) \<notin> L \<and> fixed_inv hinv s' (insert (p, l) L))"
proof -
  from assms(1) obtain F where ok: "lists_ok s F L"
    and h: "hinv (fallback_allocator s) (free_blocks F \<union> outer ` L)"
    by (auto simp: fixed_inv_def)
  from ok adm show ?thesis
  proof (cases rule: fixed_alloc_cases [where aff = aff])
    case (reuse i a as nx)
    note R = reuse_ok [OF ok adm reuse(1-3,6)]
    have "(a, class_layout i) \<in> free_blocks F"
      using reuse(2,3) by (simp add: free_blocksI)
    then have "a \<noteq> 0"
      using blocks_ok_not_null [OF heap.invar_blocks [OF h]] by fastforce
    moreover have "fixed_inv hinv (s\<lparr>list_heads := (list_heads s)[i := nx],
        f_nodes := (f_nodes s)(a \<mapsto> None)\<rparr>) (insert (a, l) L)"
      unfolding fixed_inv_def using R(2,3) h by (intro exI [of _ "F(i := as)"]) simp
    ultimately show ?thesis using reuse(7) R(1) by simp
  next
    case fresh
    obtain h' p where al: "heap_al aff (fallback_allocator s) (inner l) = Some (Ok (h', p))"
      using heap_al_total by metis
    then have eq: "fixed_alloc_op aff s l = Some (Ok (s\<lparr>fallback_allocator := h'\<rparr>, p))"
      using fresh by (simp add: fallback_alloc_heap)
    note in_ok = inner_ok(1) [OF adm]
    show ?thesis
    proof (cases "p = 0")
      case True
      have "lists_ok (s\<lparr>fallback_allocator := h'\<rparr>) F L" using ok by (simp add: lists_ok_def)
      with True eq heap.alloc_null [OF h in_ok] al show ?thesis by (auto simp: fixed_inv_def)
    next
      case False
      from heap.alloc_block [OF h in_ok al False]
      have new: "(p, inner l) \<notin> free_blocks F \<union> outer ` L"
        and h': "hinv h' (insert (p, inner l) (free_blocks F \<union> outer ` L))" by blast+
      note N = fresh_ok [OF ok adm new heap.invar_blocks [OF h']]
      have "fixed_inv hinv (s\<lparr>fallback_allocator := h'\<rparr>) (insert (p, l) L)"
        unfolding fixed_inv_def using N(2) h' by (intro exI [of _ F]) (simp add: outer_def)
      with eq False N(1) show ?thesis by simp
    qed
  qed
qed

lemma fixed_dealloc_ok:
  assumes "fixed_inv hinv s L" and mem: "(p, l) \<in> L"
  shows "\<exists>s'. fixed_dealloc hde s p l = Ok s' \<and> fixed_inv hinv s' (L - {(p, l)})"
proof -
  from assms(1) obtain F where ok: "lists_ok s F L"
    and h: "hinv (fallback_allocator s) (free_blocks F \<union> outer ` L)"
    by (auto simp: fixed_inv_def)
  show ?thesis
  proof (cases "list_index l")
    case None
    note R = release_ok [OF ok mem None]
    have "p \<noteq> 0"
      using blocks_ok_not_null [OF fixed_blocks_ok [OF ok heap.invar_blocks [OF h]] mem] by simp
    moreover from heap.dealloc_live [OF h R(1)] obtain h' where
      "hde (fallback_allocator s) p l = Ok h'" "hinv h' (free_blocks F \<union> outer ` (L - {(p, l)}))"
      unfolding R(3) by blast
    moreover from this R(2) have "fixed_inv hinv (s\<lparr>fallback_allocator := h'\<rparr>) (L - {(p, l)})"
      unfolding fixed_inv_def by (intro exI [of _ F]) simp
    ultimately show ?thesis using None by (simp add: fixed_dealloc_def)
  next
    case (Some i)
    note R = recycle_ok [OF ok mem Some]
    have "fixed_inv hinv (s\<lparr>f_nodes := (f_nodes s)(p \<mapsto> list_heads s ! i),
        list_heads := (list_heads s)[i := Some p]\<rparr>) (L - {(p, l)})"
      unfolding fixed_inv_def using R(2,3) h by (intro exI [of _ "F(i := p # F i)"]) simp
    with R(1) show ?thesis by blast
  qed
qed

lemma fixed_scribble_ok:
  assumes "fixed_inv hinv s L" and mem: "b \<in> L" and scr: "fixed_scribble b s s'"
  shows "fixed_inv hinv s' L"
proof -
  from assms(1) obtain F where ok: "lists_ok s F L"
    and h: "hinv (fallback_allocator s) (free_blocks F \<union> outer ` L)"
    by (auto simp: fixed_inv_def)
  note D = lists_okD [OF ok]
  have keep: "f_nodes s' a = f_nodes s a" if "i < 10" "a \<in> set (F i)" for i a
  proof -
    have "i < 9" using that D(2) by (cases "i = 9") auto
    with that have free: "(a, class_layout i) \<in> free_blocks F" by (intro free_blocksI)
    have "(a, class_layout i) \<noteq> outer b" using D(6) [OF that(1) mem] that(2) by (auto simp: outer_def)
    then have "span (a, class_layout i) \<inter> span (outer b) = {}"
      using free mem by (intro blocks_ok_disjoint [OF heap.invar_blocks [OF h]]) auto
    then have "{a ..< a + f_node_size} \<inter> span b = {}"
      using free_blocks_pos [OF free] span_outer [OF D(8) [OF mem]] by fastforce
    with scr show ?thesis by (simp add: fixed_scribble_def)
  qed
  have "f_chain (f_nodes s') (list_heads s' ! i) (F i)" if "i < 10" for i
    using D(3) [OF that] keep [OF that] scr
    by (subst f_chain_cong [where m = "f_nodes s"]) (auto simp: fixed_scribble_def)
  with D scr have "lists_ok s' F L" unfolding lists_ok_def by (simp add: fixed_scribble_def)
  with h scr show ?thesis by (auto simp: fixed_inv_def fixed_scribble_def)
qed

end

sublocale fixed_on_heap \<subseteq> fixed: global_alloc fixed_admits "fixed_alloc_op aff" "fixed_dealloc hde"
  fixed_scribble "fixed_inv hinv"
proof (unfold_locales, goal_cases)
  case (1 s L)
  then show ?case using fixed_blocks_ok heap.invar_blocks by (fastforce simp: fixed_inv_def)
next
  case (2 s L l)
  then show ?case using fixed_alloc_ok by blast
next
  case (3 s L l s' p)
  then show ?case using fixed_alloc_ok [OF 3(1,2)] by fastforce
next
  case (4 s L l s')
  then show ?case using fixed_alloc_ok [OF 4(1,2)] by fastforce
next
  case (5 s L p l)
  then show ?case by (rule fixed_dealloc_ok)
next
  case (6 s L b s')
  then show ?case by (rule fixed_scribble_ok)
qed

text \<open>The repository's linked-list allocator in the place of the fallback heap.\<close>

definition ll_first_fit :: "ll_alloc \<Rightarrow> layout \<Rightarrow> ll_alloc \<times> addr option" where
  "ll_first_fit s l =
     (case ll_alloc_op s l of
        Some (Ok (s', p)) \<Rightarrow> (s', if p = 0 then None else Some p)
      | _ \<Rightarrow> (s, None))"

lemma heap_al_ll:
  assumes "ll_admits l" and "ll_inv lo hi s L"
  shows "heap_al ll_first_fit s l = ll_alloc_op s l"
  using ll_alloc_ok [OF assms(2,1)] by (auto simp: heap_al_def ll_first_fit_def)

lemma heap_al_ll_refused:
  assumes "layout_ok l" and "\<not> ll_admits l"
  shows "heap_al ll_first_fit s l = Some (Ok (s, 0))"
  using ll_alloc_refused [OF assms] by (simp add: heap_al_def ll_first_fit_def)

interpretation fixed_ll: fixed_on_heap ll_first_fit ll_dealloc "ll_inv lo hi" for lo hi
proof (unfold_locales, goal_cases)
  case (1 s L)
  then show ?case by (rule ll_inv_blocks_ok)
next
  case (2 s L l)
  then show ?case by (simp add: heap_al_total)
next
  case (3 s L l s' p)
  then show ?case
    using ll.alloc_block [of lo hi s L l s' p] heap_al_ll [of l lo hi s L] heap_al_ll_refused [of l s]
    by (cases "ll_admits l") auto
next
  case (4 s L l s')
  then show ?case
    using ll.alloc_null [of lo hi s L l s'] heap_al_ll [of l lo hi s L] heap_al_ll_refused [of l s]
    by (cases "ll_admits l") auto
next
  case (5 s L p l)
  then show ?case by (rule ll_dealloc_ok)
next
  case (6 s L b s')
  then show ?case by simp
qed

context fixed_on_heap
begin

lemma fixed_reach_safe:
  assumes "client_reach fixed_admits (fixed_alloc_op aff) (fixed_dealloc hde) fixed_scribble s0 s L"
    and "fixed_inv hinv s0 {}"
  shows "blocks_ok L \<and>
    (\<forall>l. fixed_admits l \<longrightarrow> (\<exists>s' p. fixed_alloc_op aff s l = Some (Ok (s', p)))) \<and>
    (\<forall>(p, l)\<in>L. \<exists>s'. fixed_dealloc hde s p l = Ok s')"
  using fixed.reach_blocks_ok [OF assms] fixed.reach_no_panic [OF assms] by blast

end

section \<open>Properties\<close>

lemma fixed_new_inv:
  assumes "hinv (heap_init heap_empty lo n) {}"
  shows "fixed_inv hinv (fixed_init heap_init (fixed_new heap_empty m) lo n) {}"
proof -
  have "lists_ok (fixed_init heap_init (fixed_new heap_empty m) lo n) (\<lambda>_. []) {}"
    by (simp add: lists_ok_def fixed_init_def fixed_new_def)
  moreover have "free_blocks (\<lambda>_. []) = {}" by (simp add: free_blocks_def)
  ultimately show ?thesis
    using assms unfolding fixed_inv_def
    by (intro exI [of _ "\<lambda>_. []"]) (simp add: fixed_init_def fixed_new_def)
qed

text \<open>
  C7. If the fallback heap keeps the allocator contract and its \<open>init\<close> gives an empty heap, so does the
  block allocator on top of it, for every layout that does not fall into the last size class: after any
  sequence of allocations, deallocations and client writes the live blocks are aligned, not null and
  disjoint, every further allocation returns without a panic, and every live block can be freed. The
  free-list nodes, written into blocks that clients have freed, are never reached by client writes.
\<close>

theorem fixed_client_safe:
  assumes heap: "global_alloc layout_ok (heap_al aff) hde (\<lambda>_. (=)) hinv"
    and "hinv (heap_init heap_empty lo n) {}"
    and reach: "client_reach fixed_admits (fixed_alloc_op aff) (fixed_dealloc hde) fixed_scribble
      (fixed_init heap_init (fixed_new heap_empty m) lo n) s L"
  shows "blocks_ok L \<and>
    (\<forall>l. fixed_admits l \<longrightarrow> (\<exists>s' p. fixed_alloc_op aff s l = Some (Ok (s', p)))) \<and>
    (\<forall>(p, l)\<in>L. \<exists>s'. fixed_dealloc hde s p l = Ok s')"
proof -
  have on_heap: "fixed_on_heap aff hde hinv"
    using heap by (simp add: fixed_on_heap_def)
  have init: "fixed_inv hinv (fixed_init heap_init (fixed_new heap_empty m) lo n) {}"
    using assms(2) by (rule fixed_new_inv)
  show ?thesis
    by (rule fixed_on_heap.fixed_reach_safe [OF on_heap reach init])
qed

text \<open>The fallback of the witnesses: the linked-list allocator on 256 KiB at 4 KiB.\<close>

definition demo_heap_init :: "ll_alloc \<Rightarrow> addr \<Rightarrow> usize \<Rightarrow> ll_alloc" where
  "demo_heap_init s a n = (case ll_init s a n of Ok s' \<Rightarrow> s' | Panic _ \<Rightarrow> s)"

abbreviation demo_fixed :: "ll_alloc fixed_alloc" where
  "demo_fixed \<equiv> fixed_init demo_heap_init (fixed_new (ll_new Map.empty) Map.empty) 4096 262144"

lemma demo_heap_inv: "ll_inv 4096 (4096 + 262144) (demo_heap_init (ll_new Map.empty) 4096 262144) {}"
proof -
  have "align_up 4096 node_align = Ok 4096"
    by (rule align_up_id [OF pow2_node_align]) (simp_all add: node_align_def)
  then obtain s where s: "ll_init (ll_new Map.empty) 4096 262144 = Ok s"
    by (simp add: ll_init_def add_free_region_def node_size_def Let_def)
  then have "demo_heap_init (ll_new Map.empty) 4096 262144 = s" by (simp add: demo_heap_init_def)
  with ll_init_inv [OF s] show ?thesis by simp
qed

lemma demo_admits: "fixed_admits \<lparr>l_size = 24, l_align = 8\<rparr>"
  by (simp add: fixed_admits_def list_index_def BLOCK_SIZES_def)
    (auto simp: layout_ok_def pow2_def intro: exI [of _ 3])

theorem fixed_client_safe_witness:
  "\<exists>s p. fixed_alloc_op ll_first_fit demo_fixed \<lparr>l_size = 24, l_align = 8\<rparr> = Some (Ok (s, p))"
proof -
  note demo_admits
  with fixed_client_safe [where aff = ll_first_fit and hde = ll_dealloc and m = Map.empty and
      hinv = "ll_inv 4096 (4096 + 262144)" and heap_init = demo_heap_init and
      heap_empty = "ll_new Map.empty" and lo = 4096 and n = 262144, OF fixed_ll.heap.global_alloc_axioms demo_heap_inv cr_start]
  show ?thesis by blast
qed

text \<open>
  Freed blocks are reused last in, first out: an allocation in the size class of the block freed
  last returns that block, and gives back the list as it was before the block was freed.
\<close>

theorem fixed_reuse_lifo:
  assumes "lists_ok s F L" and "(p, l) \<in> L" and "list_index l' = list_index l"
    and "list_index l = Some i"
  shows "\<exists>s1 s2. fixed_dealloc de s p l = Ok s1 \<and> fixed_alloc_op aff s1 l' = Some (Ok (s2, p)) \<and>
    list_heads s2 = list_heads s \<and> fallback_allocator s2 = fallback_allocator s"
proof -
  let ?s1 = "s\<lparr>f_nodes := (f_nodes s)(p \<mapsto> list_heads s ! i), list_heads := (list_heads s)[i := Some p]\<rparr>"
  have de: "fixed_dealloc de s p l = Ok ?s1"
    by (rule recycle_ok(1) [OF assms(1,2,4)])
  have "i < length (list_heads s)"
    using assms(1,4) by (auto simp: lists_ok_def list_index_def position_Some_iff)
  then have "fixed_alloc_op aff ?s1 l' =
      Some (Ok (?s1\<lparr>list_heads := (list_heads ?s1)[i := list_heads s ! i],
        f_nodes := (f_nodes ?s1)(p \<mapsto> None)\<rparr>, p))"
    by (simp add: fixed_alloc_op_def assms(3,4))
  with de \<open>i < length (list_heads s)\<close> show ?thesis by simp
qed

theorem fixed_reuse_lifo_witness:
  "\<exists>s1 s2. fixed_dealloc ll_dealloc demo_fixed 8192 \<lparr>l_size = 24, l_align = 8\<rparr> = Ok s1 \<and>
     fixed_alloc_op ll_first_fit s1 \<lparr>l_size = 17, l_align = 1\<rparr> = Some (Ok (s2, 8192)) \<and>
     list_heads s2 = list_heads demo_fixed \<and> fallback_allocator s2 = fallback_allocator demo_fixed"
proof (rule fixed_reuse_lifo [where i = 2 and F = "\<lambda>_. []" and L = "{(8192, \<lparr>l_size = 24, l_align = 8\<rparr>)}"])
  show "lists_ok demo_fixed (\<lambda>_. []) {(8192, \<lparr>l_size = 24, l_align = 8\<rparr>)}"
    by (simp add: lists_ok_def fixed_init_def fixed_new_def demo_admits)
qed (simp_all add: list_index_def BLOCK_SIZES_def)

lemma not_pow2_4098: "\<not> pow2 4098"
proof
  assume "pow2 4098"
  then obtain k where k: "(4098::nat) = 2 ^ k" by (auto simp: pow2_def)
  consider "k \<le> 12" | "13 \<le> k" by linarith
  then show False
  proof cases
    case 1
    from power_increasing [OF 1, of "2::nat"] k show ?thesis by simp
  next
    case 2
    from power_increasing [OF 2, of "2::nat"] k show ?thesis by simp
  qed
qed

text \<open>
  The last block size, 4098, is not a power of two, so \<open>Layout::from_size_align\<close> refuses it and the
  \<open>unwrap\<close> panics: from a freshly initialised allocator, every request for more than 2048 and up to 4098
  bytes (or bytes of alignment), a page among them, panics instead of returning memory or null.
\<close>

theorem fixed_page_panics:
  assumes "2048 < max (l_size l) (l_align l)" and "max (l_size l) (l_align l) \<le> 4098"
  shows "fixed_alloc_op aff (fixed_init heap_init (fixed_new heap_empty m) lo n) l =
    Some (Panic (ExpectFailed ''called `Result::unwrap()` on an `Err` value''))"
proof -
  have idx: "list_index l = Some 9"
  proof -
    have "BLOCK_SIZES ! j < max (l_size l) (l_align l)" if "j < 9" for j
      using class_le [OF that] assms(1) by linarith
    with assms(2) show ?thesis
      unfolding list_index_def position_Some_iff by (simp add: BLOCK_SIZES_9 not_le less_max_iff_disj)
  qed
  have "from_size_align 4098 4098 = None"
    by (simp add: from_size_align_def is_power_of_two_iff not_pow2_4098)
  then show ?thesis
    by (simp add: fixed_alloc_op_def idx fixed_init_def fixed_new_def BLOCK_SIZES_9)
qed

theorem fixed_page_panics_witness:
  "fixed_alloc_op ll_first_fit demo_fixed \<lparr>l_size = 4096, l_align = 4096\<rparr> =
    Some (Panic (ExpectFailed ''called `Result::unwrap()` on an `Err` value''))"
  by (rule fixed_page_panics) simp_all

end
