(* ===== verification/Paging.thy ===== *)
theory Paging
  imports Bump
begin

text \<open>
  Physical frames and virtual pages (\<open>kernel/src/memory.rs\<close> and the paging half of
  \<open>kernel/src/allocator/mod.rs\<close>). The page tables themselves belong to the crate \<open>x86_64\<close>: its
  \<open>Mapper\<close> and address types are a record of operations, and what its documentation promises is the
  predicate \<open>mapper_ok\<close>, over an abstract translation of pages to frames. The interface between the
  kernel's frame allocators and their users is the locale \<^theory_text>\<open>frame_source\<close>.
\<close>

section \<open>Frames from the boot memory map\<close>

text \<open>The kinds of the crate \<open>bootloader_api\<close>; the kernel only asks whether a region is usable.\<close>

datatype region_kind = Usable | OtherKind nat

record memory_region =
  mr_start :: addr
  mr_end :: addr
  mr_kind :: region_kind

record boot_frames =
  memory_map :: "memory_region list"
  bf_next :: usize

definition boot_frames_init :: "memory_region list \<Rightarrow> boot_frames" where
  "boot_frames_init mm = \<lparr>memory_map = mm, bf_next = 0\<rparr>"

text \<open>\<open>(start..end).step_by(4096)\<close>.\<close>

function step_range :: "addr \<Rightarrow> addr \<Rightarrow> addr list" where
  "step_range a b = (if a < b then a # step_range (a + 4096) b else [])"
  by pat_completeness auto
termination by (relation "measure (\<lambda>(a, b). b - a)") auto

declare step_range.simps [simp del]

definition frame_addresses :: "memory_region list \<Rightarrow> addr list" where
  "frame_addresses mm =
     concat (map (\<lambda>r. step_range (mr_start r) (mr_end r)) (filter (\<lambda>r. mr_kind r = Usable) mm))"

text \<open>
  \<open>nth\<close> on the mapped iterator: the conversion of an address to a frame, \<open>fr\<close>, is applied to every
  element on the way (\<open>PhysAddr::new\<close> may panic).
\<close>

fun nth_frame :: "(addr \<Rightarrow> addr res) \<Rightarrow> addr list \<Rightarrow> usize \<Rightarrow> addr option res" where
  "nth_frame fr [] n = Ok None"
| "nth_frame fr (a # as) n =
     rbind (fr a) (\<lambda>f. case n of 0 \<Rightarrow> Ok (Some f) | Suc k \<Rightarrow> nth_frame fr as k)"

definition allocate_frame ::
  "(addr \<Rightarrow> addr res) \<Rightarrow> boot_frames \<Rightarrow> (boot_frames \<times> addr option) res" where
  "allocate_frame fr s =
     rbind (nth_frame fr (frame_addresses (memory_map s)) (bf_next s)) (\<lambda>frame.
     rbind (uadd (bf_next s) 1) (\<lambda>n. Ok (s\<lparr>bf_next := n\<rparr>, frame)))"

definition empty_allocate_frame :: "unit \<Rightarrow> (unit \<times> addr option) res" where
  "empty_allocate_frame s = Ok (s, None)"

text \<open>
  A memory map as the bootloader hands it over: usable regions are frame aligned, below the 52 bits of
  a physical address, and do not overlap.
\<close>

definition usable_regions :: "memory_region list \<Rightarrow> memory_region list" where
  "usable_regions mm = filter (\<lambda>r. mr_kind r = Usable) mm"

definition memory_map_ok :: "memory_region list \<Rightarrow> bool" where
  "memory_map_ok mm \<longleftrightarrow>
     (\<forall>r\<in>set (usable_regions mm). 4096 dvd mr_start r \<and> mr_end r \<le> 2 ^ 52) \<and>
     sorted_wrt (\<lambda>r q. {mr_start r ..< mr_end r} \<inter> {mr_start q ..< mr_end q} = {}) (usable_regions mm)"

text \<open>What \<open>PhysFrame::containing_address(PhysAddr::new(a))\<close> promises on an aligned physical address.\<close>

definition frame_of_ok :: "(addr \<Rightarrow> addr res) \<Rightarrow> bool" where
  "frame_of_ok fr \<longleftrightarrow> (\<forall>a < 2 ^ 52. 4096 dvd a \<longrightarrow> fr a = Ok a)"

lemma set_step_range: "set (step_range a b) = {x. a \<le> x \<and> x < b \<and> 4096 dvd x - a}"
proof (induction a b rule: step_range.induct)
  case (1 a b)
  show ?case
  proof (cases "a < b")
    case True
    have "x = a \<or> (a + 4096 \<le> x \<and> 4096 dvd x - (a + 4096))"
      if x: "a \<le> x" "4096 dvd x - a" for x
    proof (cases "x = a")
      case False
      with x have "0 < x - a" by simp
      with x have "4096 \<le> x - a" by (simp add: dvd_imp_le)
      moreover have "4096 dvd (x - a) - 4096" using x(2) by (rule dvd_diff_nat) simp
      ultimately show ?thesis using x(1) by (simp add: diff_diff_left) linarith
    qed simp
    moreover have "4096 dvd x - a" if "a + 4096 \<le> x" "4096 dvd x - (a + 4096)" for x
    proof -
      have "x - a = (x - (a + 4096)) + 4096" using that(1) by simp
      with that(2) show ?thesis by (metis dvd_add dvd_refl)
    qed
    ultimately show ?thesis
      using True 1 [OF True] by (subst step_range.simps) auto
  next
    case False
    then show ?thesis by (subst step_range.simps) auto
  qed
qed

lemma distinct_step_range: "distinct (step_range a b)"
proof (induction a b rule: step_range.induct)
  case (1 a b)
  then show ?case
    by (subst step_range.simps) (simp add: set_step_range)
qed

lemma nth_frame_eq:
  assumes "\<And>a. a \<in> set as \<Longrightarrow> fr a = Ok a"
  shows "nth_frame fr as n = Ok (if n < length as then Some (as ! n) else None)"
  using assms by (induction as arbitrary: n) (auto split: nat.splits simp: less_Suc_eq_0_disj)

lemma frame_addresses_alt:
  "frame_addresses mm = concat (map (\<lambda>r. step_range (mr_start r) (mr_end r)) (usable_regions mm))"
  by (simp add: frame_addresses_def usable_regions_def)

lemma frame_address_ok:
  assumes "memory_map_ok mm" and "a \<in> set (frame_addresses mm)"
  shows "4096 dvd a" and "a < 2 ^ 52"
    and "\<exists>r\<in>set mm. mr_kind r = Usable \<and> mr_start r \<le> a \<and> a < mr_end r"
proof -
  from assms(2) obtain r where r: "r \<in> set (usable_regions mm)" "a \<in> set (step_range (mr_start r) (mr_end r))"
    by (auto simp: frame_addresses_alt)
  then have a: "mr_start r \<le> a" "a < mr_end r" "4096 dvd a - mr_start r"
    by (auto simp: set_step_range)
  have "4096 dvd mr_start r" "mr_end r \<le> 2 ^ 52"
    using assms(1) r(1) by (auto simp: memory_map_ok_def)
  with a show "4096 dvd a" and "a < 2 ^ 52"
    by (metis dvd_diffD, linarith)
  from r(1) a show "\<exists>r\<in>set mm. mr_kind r = Usable \<and> mr_start r \<le> a \<and> a < mr_end r"
    by (auto simp: usable_regions_def)
qed

lemma distinct_frame_addresses:
  assumes "memory_map_ok mm"
  shows "distinct (frame_addresses mm)"
proof -
  have "distinct (concat (map (\<lambda>r. step_range (mr_start r) (mr_end r)) rs))"
    if "sorted_wrt (\<lambda>r q. {mr_start r ..< mr_end r} \<inter> {mr_start q ..< mr_end q} = {}) rs" for rs
    using that by (induction rs) (fastforce simp: distinct_step_range set_step_range)+
  with assms show ?thesis unfolding frame_addresses_alt memory_map_ok_def by blast
qed

section \<open>The interface of a frame allocator\<close>

text \<open>
  What a user of \<open>FrameAllocator\<close> relies on: each call hands out the next frame of a pool and takes it
  out of the pool, and gives \<open>None\<close> when the pool is empty.
\<close>

locale frame_source =
  fixes alloc :: "'f \<Rightarrow> ('f \<times> addr option) res"
    and ready :: "'f \<Rightarrow> bool"
    and pool :: "'f \<Rightarrow> addr list"
  assumes alloc_law: "ready f \<Longrightarrow> \<exists>f'. alloc f =
      Ok (f', case pool f of [] \<Rightarrow> None | a # _ \<Rightarrow> Some a) \<and> pool f' = tl (pool f) \<and> (pool f \<noteq> [] \<longrightarrow> ready f')"
begin

lemma alloc_next:
  assumes "ready f" and "pool f = a # as"
  obtains f' where "alloc f = Ok (f', Some a)" "ready f'" "pool f' = as"
  using alloc_law [OF assms(1)] assms(2) by auto

lemma alloc_empty:
  assumes "ready f" and "pool f = []"
  shows "\<exists>f'. alloc f = Ok (f', None) \<and> pool f' = []"
  using alloc_law [OF assms(1)] assms(2) by auto

end

definition boot_pool :: "boot_frames \<Rightarrow> addr list" where
  "boot_pool s = drop (bf_next s) (frame_addresses (memory_map s))"

definition boot_ready :: "(addr \<Rightarrow> addr res) \<Rightarrow> boot_frames \<Rightarrow> bool" where
  "boot_ready fr s \<longleftrightarrow> frame_of_ok fr \<and> memory_map_ok (memory_map s) \<and> bf_next s + 1 < usize_bound \<and>
     bf_next s \<le> length (frame_addresses (memory_map s)) \<and>
     length (frame_addresses (memory_map s)) + 1 < usize_bound"

lemma allocate_frame_eq:
  assumes "frame_of_ok fr" and "memory_map_ok (memory_map s)" and "bf_next s + 1 < usize_bound"
  shows "allocate_frame fr s = Ok (s\<lparr>bf_next := bf_next s + 1\<rparr>,
    if bf_next s < length (frame_addresses (memory_map s))
    then Some (frame_addresses (memory_map s) ! bf_next s) else None)"
proof -
  have "fr a = Ok a" if "a \<in> set (frame_addresses (memory_map s))" for a
    using assms(1) frame_address_ok [OF assms(2) that] by (simp add: frame_of_ok_def)
  then show ?thesis
    using assms(3) by (simp add: allocate_frame_def nth_frame_eq)
qed

interpretation boot: frame_source "allocate_frame fr" "boot_ready fr" boot_pool for fr
proof
  fix f
  assume f: "boot_ready fr f"
  let ?F = "frame_addresses (memory_map f)"
  have eq: "allocate_frame fr f = Ok (f\<lparr>bf_next := bf_next f + 1\<rparr>,
      if bf_next f < length ?F then Some (?F ! bf_next f) else None)"
    using f by (intro allocate_frame_eq) (auto simp: boot_ready_def)
  show "\<exists>f'. allocate_frame fr f =
      Ok (f', case boot_pool f of [] \<Rightarrow> None | a # _ \<Rightarrow> Some a) \<and>
      boot_pool f' = tl (boot_pool f) \<and> (boot_pool f \<noteq> [] \<longrightarrow> boot_ready fr f')"
  proof (cases "bf_next f < length ?F")
    case True
    then have "boot_pool f = ?F ! bf_next f # drop (Suc (bf_next f)) ?F"
      by (simp add: boot_pool_def Cons_nth_drop_Suc)
    with f eq True show ?thesis
      by (intro exI [of _ "f\<lparr>bf_next := bf_next f + 1\<rparr>"]) (simp add: boot_pool_def boot_ready_def)
  next
    case False
    with eq show ?thesis
      by (intro exI [of _ "f\<lparr>bf_next := bf_next f + 1\<rparr>"]) (simp add: boot_pool_def)
  qed
qed

interpretation no_frames: frame_source empty_allocate_frame "\<lambda>_. True" "\<lambda>_. []"
  by unfold_locales (simp add: empty_allocate_frame_def)

section \<open>Mapping pages\<close>

datatype page_flag = PRESENT | WRITABLE | USER_ACCESSIBLE

text \<open>
  Errors of the crate's \<open>Mapper\<close>; the kernel itself makes \<open>FrameAllocationFailed\<close> and looks for
  \<open>PageAlreadyMapped\<close>.
\<close>

datatype map_to_error = FrameAllocationFailed | PageAlreadyMapped addr | OtherMapError nat
datatype unmap_error = OtherUnmapError nat

text \<open>
  The operations of the crate \<open>x86_64\<close> that the kernel calls: \<open>VirtAddr::new\<close>, \<open>+\<close> and \<open>-\<close> on it (all
  panic on an address that is not canonical), \<open>Page::containing_address\<close>, and \<open>map_to\<close> and \<open>unmap\<close> of
  a mapper with state \<open>'m\<close>, where \<open>map_to\<close> may take frames for page tables from the allocator \<open>'f\<close>.
\<close>

record ('m, 'f) mapper =
  virt_new :: "addr \<Rightarrow> addr res"
  virt_add :: "addr \<Rightarrow> usize \<Rightarrow> addr res"
  virt_sub :: "addr \<Rightarrow> usize \<Rightarrow> addr res"
  page_of :: "addr \<Rightarrow> addr"
  map_to :: "'m \<Rightarrow> addr \<Rightarrow> addr \<Rightarrow> page_flag set \<Rightarrow> 'f \<Rightarrow> (map_to_error + unit) \<times> 'm \<times> 'f"
  unmap :: "'m \<Rightarrow> addr \<Rightarrow> (unmap_error + addr) \<times> 'm"

text \<open>The mapper, the frame allocator, and the two \<open>static mut NEXT_VIRT\<close>.\<close>

record ('m, 'f) vm =
  vm_mapper :: 'm
  vm_frames :: 'f
  next_virt :: addr
  next_virt_user :: addr

fun map_pages :: "('m, 'f) mapper \<Rightarrow> ('f \<Rightarrow> ('f \<times> addr option) res) \<Rightarrow> page_flag set \<Rightarrow> addr \<Rightarrow>
    usize \<Rightarrow> usize \<Rightarrow> 'm \<Rightarrow> 'f \<Rightarrow> ('m \<times> 'f) res" where
  "map_pages ops alloc flags base i 0 m f = Ok (m, f)"
| "map_pages ops alloc flags base i (Suc n) m f =
     rbind (umul i 4096) (\<lambda>off.
     rbind (uadd base off) (\<lambda>a.
     rbind (virt_new ops a) (\<lambda>virt.
     rbind (alloc f) (\<lambda>(f1, fo).
     rbind (expect ''(ALLOCATOR) Unable to allocate a frame!'' fo) (\<lambda>phys.
       case map_to ops m (page_of ops virt) phys flags f1 of
         (Inl _, _, _) \<Rightarrow> Panic (ExpectFailed ''(ALLOCATOR) Unable to map a page!'')
       | (Inr _, m', f') \<Rightarrow> map_pages ops alloc flags base (i + 1) n m' f')))))"

definition alloc_pages :: "('m, 'f) mapper \<Rightarrow> ('f \<Rightarrow> ('f \<times> addr option) res) \<Rightarrow> ('m, 'f) vm \<Rightarrow>
    usize \<Rightarrow> (('m, 'f) vm \<times> addr option) res" where
  "alloc_pages ops alloc s num_pages =
     (let base = next_virt s
      in rbind (umul num_pages 4096) (\<lambda>sz.
         rbind (uadd base sz) (\<lambda>nv.
         rbind (map_pages ops alloc {PRESENT, WRITABLE} base 0 num_pages (vm_mapper s) (vm_frames s)) (\<lambda>(m, f).
         rbind (virt_new ops base) (\<lambda>v.
           Ok (s\<lparr>next_virt := nv, vm_mapper := m, vm_frames := f\<rparr>, Some v))))))"

definition alloc_pages_user :: "('m, 'f) mapper \<Rightarrow> ('f \<Rightarrow> ('f \<times> addr option) res) \<Rightarrow> ('m, 'f) vm \<Rightarrow>
    usize \<Rightarrow> (('m, 'f) vm \<times> addr option) res" where
  "alloc_pages_user ops alloc s num_pages =
     (let base = next_virt_user s
      in rbind (umul num_pages 4096) (\<lambda>sz.
         rbind (uadd base sz) (\<lambda>nv.
         rbind (map_pages ops alloc {PRESENT, WRITABLE, USER_ACCESSIBLE} base 0 num_pages
                  (vm_mapper s) (vm_frames s)) (\<lambda>(m, f).
         rbind (virt_new ops base) (\<lambda>v.
           Ok (s\<lparr>next_virt_user := nv, vm_mapper := m, vm_frames := f\<rparr>, Some v))))))"

definition page_alloc :: "('m, 'f) mapper \<Rightarrow> ('f \<Rightarrow> ('f \<times> addr option) res) \<Rightarrow> ('m, 'f) vm \<Rightarrow>
    usize \<Rightarrow> (('m, 'f) vm \<times> addr option) res" where
  "page_alloc ops alloc s num_bytes =
     (if num_bytes = 0 then Ok (s, None)
      else alloc_pages ops alloc s (max (div_ceil num_bytes 4096) 2))"

definition page_alloc_user :: "('m, 'f) mapper \<Rightarrow> ('f \<Rightarrow> ('f \<times> addr option) res) \<Rightarrow> ('m, 'f) vm \<Rightarrow>
    usize \<Rightarrow> (('m, 'f) vm \<times> addr option) res" where
  "page_alloc_user ops alloc s num_bytes =
     (if num_bytes = 0 then Ok (s, None)
      else alloc_pages_user ops alloc s (max (div_ceil num_bytes 4096) 2))"

text \<open>\<open>map_page\<close> maps with the allocator that has no frames: \<open>'f\<close> is \<open>unit\<close>.\<close>

definition map_page :: "('m, unit) mapper \<Rightarrow> (addr \<Rightarrow> addr res) \<Rightarrow> 'm \<Rightarrow> addr \<Rightarrow> addr \<Rightarrow>
    page_flag set \<Rightarrow> ((map_to_error + unit) \<times> 'm) res" where
  "map_page ops fr m virt_addr phys_addr flags =
     rbind (virt_new ops virt_addr) (\<lambda>v.
     rbind (fr phys_addr) (\<lambda>frame.
       case map_to ops m (page_of ops v) frame flags () of (r, m', _) \<Rightarrow> Ok (r, m')))"

definition unmap_page :: "('m, 'f) mapper \<Rightarrow> 'm \<Rightarrow> addr \<Rightarrow> ((unmap_error + unit) \<times> 'm) res" where
  "unmap_page ops m virt_addr =
     rbind (virt_new ops virt_addr) (\<lambda>v.
       case unmap ops m (page_of ops v) of
         (Inl e, m') \<Rightarrow> Ok (Inl e, m')
       | (Inr _, m') \<Rightarrow> Ok (Inr (), m'))"

fun free_pages :: "('m, 'f) mapper \<Rightarrow> addr \<Rightarrow> usize \<Rightarrow> usize \<Rightarrow> 'm \<Rightarrow> ((unmap_error + unit) \<times> 'm) res" where
  "free_pages ops virt_addr i 0 m = Ok (Inr (), m)"
| "free_pages ops virt_addr i (Suc n) m =
     rbind (umul i 4096) (\<lambda>off.
     rbind (virt_add ops virt_addr off) (\<lambda>virt.
       case unmap ops m (page_of ops virt) of
         (Inl e, m') \<Rightarrow> Ok (Inl e, m')
       | (Inr _, m') \<Rightarrow> free_pages ops virt_addr (i + 1) n m'))"

definition page_free :: "('m, 'f) mapper \<Rightarrow> 'm \<Rightarrow> addr \<Rightarrow> usize \<Rightarrow> ((unmap_error + unit) \<times> 'm) res" where
  "page_free ops m virt_addr num_bytes =
     (if virt_addr = 0 \<or> num_bytes = 0 then Ok (Inr (), m)
      else free_pages ops virt_addr 0 (div_ceil num_bytes 4096) m)"

section \<open>The kernel heap\<close>

text \<open>The pages of \<open>Page::range_inclusive\<close>.\<close>

definition page_range :: "addr \<Rightarrow> addr \<Rightarrow> addr list" where
  "page_range a b = step_range a (b + 1)"

fun map_heap :: "('m, 'f) mapper \<Rightarrow> ('f \<Rightarrow> ('f \<times> addr option) res) \<Rightarrow> page_flag set \<Rightarrow> addr list \<Rightarrow> 'm \<Rightarrow> 'f \<Rightarrow>
    ((map_to_error + unit) \<times> 'm \<times> 'f) res" where
  "map_heap ops alloc flags [] m f = Ok (Inr (), m, f)"
| "map_heap ops alloc flags (page # pages) m f =
     rbind (alloc f) (\<lambda>(f1, fo).
       case fo of
         None \<Rightarrow> Ok (Inl FrameAllocationFailed, m, f1)
       | Some frame \<Rightarrow>
           (case map_to ops m page frame flags f1 of
              (Inl e, m', f') \<Rightarrow> Ok (Inl e, m', f')
            | (Inr _, m', f') \<Rightarrow> map_heap ops alloc flags pages m' f'))"

definition init_heap :: "('m, 'f) mapper \<Rightarrow> ('f \<Rightarrow> ('f \<times> addr option) res) \<Rightarrow> bump \<Rightarrow> 'm \<Rightarrow> 'f \<Rightarrow>
    ((map_to_error + unit) \<times> bump \<times> 'm \<times> 'f) res" where
  "init_heap ops alloc allocator m f =
     rbind (virt_new ops HEAP_START) (\<lambda>heap_start.
     rbind (virt_add ops heap_start HEAP_SIZE) (\<lambda>e.
     rbind (virt_sub ops e 1) (\<lambda>heap_end.
     rbind (map_heap ops alloc {PRESENT, WRITABLE}
              (page_range (page_of ops heap_start) (page_of ops heap_end)) m f)
       (\<lambda>(r, m', f').
         case r of
           Inl err \<Rightarrow> Ok (Inl err, allocator, m', f')
         | Inr _ \<Rightarrow> Ok (Inr (), bump_init allocator HEAP_START HEAP_SIZE, m', f')))))"

section \<open>What the crate promises\<close>

definition canonical :: "addr \<Rightarrow> bool" where
  "canonical a \<longleftrightarrow> a < 2 ^ 47 \<or> (2 ^ 64 - 2 ^ 47 \<le> a \<and> a < 2 ^ 64)"

definition addresses_ok :: "('m, 'f) mapper \<Rightarrow> bool" where
  "addresses_ok ops \<longleftrightarrow> (\<forall>a. canonical a \<longrightarrow> virt_new ops a = Ok a) \<and>
     (\<forall>a n. canonical (a + n) \<longrightarrow> virt_add ops a n = Ok (a + n)) \<and>
     (\<forall>a n. n \<le> a \<longrightarrow> canonical (a - n) \<longrightarrow> virt_sub ops a n = Ok (a - n)) \<and>
     (\<forall>a. page_of ops a = a - a mod 4096)"

text \<open>
  \<open>tr\<close> is the translation that the page tables of a mapper state stand for; \<open>plain m p\<close> says that no
  huge page lies above \<open>p\<close>. Mapping a free page succeeds when the allocator can supply the up to three
  frames for missing page tables.
\<close>

definition map_to_ok :: "('m, 'f) mapper \<Rightarrow> ('m \<Rightarrow> addr \<rightharpoonup> addr \<times> page_flag set) \<Rightarrow> ('m \<Rightarrow> addr \<Rightarrow> bool) \<Rightarrow>
    ('f \<Rightarrow> bool) \<Rightarrow> ('f \<Rightarrow> addr list) \<Rightarrow> bool" where
  "map_to_ok ops tr plain ready pool \<longleftrightarrow> (\<forall>m p frame flags f r m' f'. ready f \<longrightarrow>
     map_to ops m p frame flags f = (r, m', f') \<longrightarrow>
       (tr m p = None \<longrightarrow> plain m p \<longrightarrow> 3 \<le> length (pool f) \<longrightarrow> r = Inr ()) \<and>
       (r = Inr () \<longrightarrow> tr m p = None \<and> tr m' = (tr m)(p \<mapsto> (frame, flags)) \<and> ready f') \<and>
       (\<forall>q. plain m q \<longrightarrow> plain m' q) \<and> (\<exists>k\<le>3. pool f' = drop k (pool f)))"

definition unmap_ok :: "('m, 'f) mapper \<Rightarrow> ('m \<Rightarrow> addr \<rightharpoonup> addr \<times> page_flag set) \<Rightarrow> ('m \<Rightarrow> addr \<Rightarrow> bool) \<Rightarrow> bool" where
  "unmap_ok ops tr plain \<longleftrightarrow> (\<forall>m p frame flags. tr m p = Some (frame, flags) \<longrightarrow> plain m p \<longrightarrow>
     (\<exists>m'. unmap ops m p = (Inr frame, m') \<and> tr m' = (tr m)(p := None) \<and> (\<forall>q. plain m q \<longrightarrow> plain m' q)))"

lemma map_to_okD:
  assumes "map_to_ok ops tr plain ready pool" and "ready f" and "tr m p = None" and "plain m p"
    and "3 \<le> length (pool f)"
  obtains m' f' k where "map_to ops m p frame flags f = (Inr (), m', f')"
    "tr m' = (tr m)(p \<mapsto> (frame, flags))" "ready f'" "\<And>q. plain m q \<Longrightarrow> plain m' q"
    "k \<le> 3" "pool f' = drop k (pool f)"
proof -
  obtain r m' f' where eq: "map_to ops m p frame flags f = (r, m', f')" by (cases "map_to ops m p frame flags f")
  from assms(1) [unfolded map_to_ok_def, rule_format, OF assms(2) eq] assms(3-5)
  have "r = Inr ()" "tr m' = (tr m)(p \<mapsto> (frame, flags))" "ready f'" "\<And>q. plain m q \<Longrightarrow> plain m' q"
    "\<exists>k\<le>3. pool f' = drop k (pool f)" by blast+
  with eq that show thesis by blast
qed

lemma canonical_low: "a < 140737488355328 \<Longrightarrow> canonical a"
  by (simp add: canonical_def)

lemma canonical_high: "18446603336221196288 \<le> a \<Longrightarrow> a < usize_bound \<Longrightarrow> canonical a"
  by (simp add: canonical_def)

lemma page_of_aligned: "addresses_ok ops \<Longrightarrow> 4096 dvd a \<Longrightarrow> page_of ops a = a"
  by (simp add: addresses_ok_def dvd_eq_mod_eq_0)

section \<open>Mapping a run of pages\<close>

text \<open>The pages of a run, and what a run of fresh mappings does to a translation.\<close>

definition run_pages :: "addr \<Rightarrow> usize \<Rightarrow> addr set" where
  "run_pages base n = (\<lambda>j. base + j * 4096) ` {..<n}"

definition mapped_run :: "(addr \<rightharpoonup> addr \<times> page_flag set) \<Rightarrow> (addr \<rightharpoonup> addr \<times> page_flag set) \<Rightarrow> addr list \<Rightarrow>
    addr list \<Rightarrow> page_flag set \<Rightarrow> bool" where
  "mapped_run t t' pages fs flags \<longleftrightarrow> length fs = length pages \<and> distinct fs \<and>
     (\<forall>j<length pages. t' (pages ! j) = Some (fs ! j, flags)) \<and>
     (\<forall>q. q \<notin> set pages \<longrightarrow> t' q = t q)"

lemma mapped_run_Nil: "mapped_run t t [] [] flags"
  by (simp add: mapped_run_def)

lemma mapped_run_Cons:
  assumes "mapped_run (t(p \<mapsto> (f, flags))) t' pages fs flags" and "p \<notin> set pages" and "f \<notin> set fs"
  shows "mapped_run t t' (p # pages) (f # fs) flags"
  using assms by (auto simp: mapped_run_def nth_Cons split: nat.splits)

lemma map_heap_ConsE:
  assumes "map_heap ops alloc flags (p # ps) m f = Ok (Inr (), m', f')"
  obtains f1 frame m1 f2 where "alloc f = Ok (f1, Some frame)"
    "map_to ops m p frame flags f1 = (Inr (), m1, f2)"
    "map_heap ops alloc flags ps m1 f2 = Ok (Inr (), m', f')"
proof -
  from assms obtain f1 fo where al: "alloc f = Ok (f1, fo)"
    by (auto simp: res_iff)
  with assms obtain frame where fo: "fo = Some frame" by (cases fo) auto
  obtain r m1 f2 where mt: "map_to ops m p frame flags f1 = (r, m1, f2)"
    by (cases "map_to ops m p frame flags f1")
  with assms al fo have "r = Inr ()" by (cases r) auto
  with assms al fo mt show thesis by (intro that) auto
qed

context frame_source
begin

text \<open>The loop of \<open>init_heap\<close> maps every page of its list to a frame of its own.\<close>

lemma map_heap_ok:
  assumes "map_to_ok ops tr plain ready pool" and "ready f" and "distinct (pool f)"
    and "distinct pages" and "\<forall>p\<in>set pages. tr m p = None \<and> plain m p"
    and "4 * length pages \<le> length (pool f)"
  shows "\<exists>m' f' fs. map_heap ops alloc flags pages m f = Ok (Inr (), m', f') \<and>
    mapped_run (tr m) (tr m') pages fs flags \<and> set fs \<subseteq> set (pool f) \<and>
    (\<forall>q. plain m q \<longrightarrow> plain m' q)"
  using assms(2-)
proof (induction pages arbitrary: m f)
  case Nil
  show ?case
    by (intro exI [of _ m] exI [of _ f] exI [of _ "[]"]) (simp add: mapped_run_Nil)
next
  case (Cons p pages)
  from Cons.prems(5) obtain a as where pl: "pool f = a # as" by (cases "pool f") auto
  obtain f1 where f1: "alloc f = Ok (f1, Some a)" "ready f1" "pool f1 = as"
    using alloc_next [OF Cons.prems(1) pl] .
  obtain m' f' k where m': "map_to ops m p a flags f1 = (Inr (), m', f')"
    "tr m' = (tr m)(p \<mapsto> (a, flags))" "ready f'" "\<And>q. plain m q \<Longrightarrow> plain m' q"
    "k \<le> 3" "pool f' = drop k (pool f1)"
    by (rule map_to_okD [OF assms(1) f1(2), of m p])
      (use Cons.prems(4,5) pl f1(3) in auto)
  have "\<exists>m'' f'' fs. map_heap ops alloc flags pages m' f' = Ok (Inr (), m'', f'') \<and>
      mapped_run (tr m') (tr m'') pages fs flags \<and> set fs \<subseteq> set (pool f') \<and>
      (\<forall>q. plain m' q \<longrightarrow> plain m'' q)"
  proof (rule Cons.IH)
    show "\<forall>q\<in>set pages. tr m' q = None \<and> plain m' q"
      using Cons.prems(3,4) m'(2,4) by auto
    show "4 * length pages \<le> length (pool f')"
      using Cons.prems(5) pl f1(3) m'(5,6) by simp
  qed (use Cons.prems pl f1(3) m' in simp_all)
  then obtain m'' f'' fs where IH: "map_heap ops alloc flags pages m' f' = Ok (Inr (), m'', f'')"
    "mapped_run (tr m') (tr m'') pages fs flags" "set fs \<subseteq> set (pool f')"
    "\<forall>q. plain m' q \<longrightarrow> plain m'' q" by blast
  have sub: "set (pool f') \<subseteq> set as" using m'(6) f1(3) set_drop_subset by metis
  have "mapped_run (tr m) (tr m'') (p # pages) (a # fs) flags"
    using IH(2,3) m'(2) Cons.prems(2,3) pl sub by (intro mapped_run_Cons) auto
  moreover have "map_heap ops alloc flags (p # pages) m f = Ok (Inr (), m'', f'')"
    using f1(1) m'(1) IH(1) by simp
  ultimately show ?case
    using IH(3,4) m'(4) sub pl by (intro exI [of _ m''] exI [of _ f''] exI [of _ "a # fs"]) auto
qed

text \<open>The loop of \<open>alloc_pages\<close> does the same on the pages it computes, with panics for errors.\<close>

lemma map_pages_run:
  assumes "addresses_ok ops" and "4096 dvd base"
    and "\<And>j. j < i + n \<Longrightarrow> canonical (base + j * 4096)"
    and "map_heap ops alloc flags (map (\<lambda>j. base + j * 4096) [i..<i + n]) m f = Ok (Inr (), m', f')"
  shows "map_pages ops alloc flags base i n m f = Ok (m', f')"
  using assms(3,4)
proof (induction n arbitrary: i m f)
  case 0
  then show ?case by simp
next
  case (Suc n)
  have can: "canonical (base + i * 4096)" using Suc.prems(1) by simp
  then have "base + i * 4096 < usize_bound" by (auto simp: canonical_def)
  then have pre: "umul i 4096 = Ok (i * 4096)" "uadd base (i * 4096) = Ok (base + i * 4096)"
    "virt_new ops (base + i * 4096) = Ok (base + i * 4096)"
    "page_of ops (base + i * 4096) = base + i * 4096"
    using can assms(1,2) by (simp_all add: addresses_ok_def page_of_aligned)
  have cons: "[i..<i + Suc n] = i # [Suc i..<Suc i + n]" by (simp add: upt_conv_Cons)
  from Suc.prems(2) [unfolded cons] obtain f1 frame m1 f2 where
    st: "alloc f = Ok (f1, Some frame)" "map_to ops m (base + i * 4096) frame flags f1 = (Inr (), m1, f2)"
    and rest: "map_heap ops alloc flags (map (\<lambda>j. base + j * 4096) [Suc i..<Suc i + n]) m1 f2 = Ok (Inr (), m', f')"
    unfolding list.map by (rule map_heap_ConsE)
  have "map_pages ops alloc flags base (i + 1) n m1 f2 = Ok (m', f')"
    using Suc.IH [OF _ rest] Suc.prems(1) by simp
  with st pre show ?case by simp
qed

end

lemma length_step_range: "length (step_range a b) = div_ceil (b - a) 4096"
proof (induction a b rule: step_range.induct)
  case (1 a b)
  show ?case
  proof (cases "a < b")
    case True
    have "div_ceil (b - a) 4096 = Suc (div_ceil (b - (a + 4096)) 4096)"
    proof (cases "b - a < 4096")
      case True
      with \<open>a < b\<close> show ?thesis by (simp add: div_ceil_def)
    next
      case False
      then have "b - a = (b - (a + 4096)) + 4096" by simp
      moreover have "div_ceil (x + 4096) 4096 = Suc (div_ceil x 4096)" for x
        by (simp add: div_ceil_def div_add_self2)
      ultimately show ?thesis by metis
    qed
    with 1 [OF True] True show ?thesis by (subst step_range.simps) simp
  next
    case False
    then show ?thesis by (subst step_range.simps) (simp add: div_ceil_def)
  qed
qed

lemma step_range_run: "step_range a (a + n * 4096) = map (\<lambda>j. a + j * 4096) [0..<n]"
proof (induction n arbitrary: a)
  case 0
  show ?case by (subst step_range.simps) simp
next
  case (Suc n)
  have "step_range a (a + Suc n * 4096) = a # step_range (a + 4096) (a + 4096 + n * 4096)"
    by (subst step_range.simps) (simp add: algebra_simps)
  also have "\<dots> = a # map (\<lambda>j. (a + 4096) + j * 4096) [0..<n]" by (simp only: Suc)
  also have "\<dots> = map (\<lambda>j. a + j * 4096) (0 # map Suc [0..<n])" by simp
  also have "0 # map Suc [0..<n] = [0..<Suc n]" by (metis map_Suc_upt upt_conv_Cons zero_less_Suc)
  finally show ?case .
qed

text \<open>A range that ends in the first byte of a page has that page.\<close>

lemma step_range_last: "step_range a (a + n * 4096 + 1) = step_range a (a + Suc n * 4096)"
proof (induction n arbitrary: a)
  case 0
  show ?case by (subst (1 2) step_range.simps, subst (1 2) step_range.simps) simp
next
  case (Suc n)
  have "step_range a (a + Suc n * 4096 + 1) = a # step_range (a + 4096) ((a + 4096) + n * 4096 + 1)"
    by (subst step_range.simps) (simp add: algebra_simps)
  also have "\<dots> = a # step_range (a + 4096) ((a + 4096) + Suc n * 4096)" by (simp only: Suc)
  also have "\<dots> = step_range a (a + Suc (Suc n) * 4096)"
    by (subst (2) step_range.simps) (simp add: algebra_simps)
  finally show ?case .
qed

lemma run_pages_list: "set (map (\<lambda>j. base + j * 4096) [0..<n]) = run_pages base n"
  by (auto simp: run_pages_def)

text \<open>Where an allocation of pages finds the address space it is about to map.\<close>

definition room :: "('m \<Rightarrow> addr \<rightharpoonup> addr \<times> page_flag set) \<Rightarrow> ('m \<Rightarrow> addr \<Rightarrow> bool) \<Rightarrow> 'm \<Rightarrow> addr \<Rightarrow> usize \<Rightarrow> bool" where
  "room tr plain m base n \<longleftrightarrow> 4096 dvd base \<and> 18446603336221196288 \<le> base \<and>
     base + n * 4096 < usize_bound \<and> (\<forall>p\<in>run_pages base n. tr m p = None \<and> plain m p)"

context frame_source
begin

lemma map_pages_ok:
  assumes "addresses_ok ops" and "map_to_ok ops tr plain ready pool" and "ready f" and "distinct (pool f)"
    and room: "room tr plain m base n" and "4 * n \<le> length (pool f)"
  shows "\<exists>m' f' fs. map_pages ops alloc flags base 0 n m f = Ok (m', f') \<and>
    mapped_run (tr m) (tr m') (map (\<lambda>j. base + j * 4096) [0..<n]) fs flags \<and> set fs \<subseteq> set (pool f) \<and>
    (\<forall>q. plain m q \<longrightarrow> plain m' q)"
proof -
  let ?pages = "map (\<lambda>j. base + j * 4096) [0..<n]"
  have "\<exists>m' f' fs. map_heap ops alloc flags ?pages m f = Ok (Inr (), m', f') \<and>
      mapped_run (tr m) (tr m') ?pages fs flags \<and> set fs \<subseteq> set (pool f) \<and>
      (\<forall>q. plain m q \<longrightarrow> plain m' q)"
    using assms(2-4,6) room
    by (intro map_heap_ok) (auto simp add: distinct_map inj_on_def room_def run_pages_list simp del: set_map)
  then obtain m' f' fs where run: "map_heap ops alloc flags ?pages m f = Ok (Inr (), m', f')"
    "mapped_run (tr m) (tr m') ?pages fs flags" "set fs \<subseteq> set (pool f)"
    "\<forall>q. plain m q \<longrightarrow> plain m' q" by blast
  have "canonical (base + j * 4096)" if "j < 0 + n" for j
  proof (rule canonical_high)
    have "j * 4096 \<le> n * 4096" using that by simp
    then show "base + j * 4096 < usize_bound" using room unfolding room_def by linarith
  qed (use room in \<open>simp add: room_def\<close>)
  then have "map_pages ops alloc flags base 0 n m f = Ok (m', f')"
    using run(1) room assms(1) by (intro map_pages_run) (simp_all add: room_def)
  with run(2-4) show ?thesis by blast
qed

lemma alloc_pages_ok:
  assumes "addresses_ok ops" and "map_to_ok ops tr plain ready pool"
    and "ready (vm_frames s)" and "distinct (pool (vm_frames s))"
    and room: "room tr plain (vm_mapper s) (next_virt s) n" and "4 * n \<le> length (pool (vm_frames s))"
  shows "\<exists>s' fs. alloc_pages ops alloc s n = Ok (s', Some (next_virt s)) \<and>
    mapped_run (tr (vm_mapper s)) (tr (vm_mapper s'))
      (map (\<lambda>j. next_virt s + j * 4096) [0..<n]) fs {PRESENT, WRITABLE} \<and>
    set fs \<subseteq> set (pool (vm_frames s)) \<and> next_virt s' = next_virt s + n * 4096 \<and>
    (\<forall>q. plain (vm_mapper s) q \<longrightarrow> plain (vm_mapper s') q)"
proof -
  have "canonical (next_virt s)" using room by (intro canonical_high) (auto simp: room_def)
  then have v: "virt_new ops (next_virt s) = Ok (next_virt s)" using assms(1) by (simp add: addresses_ok_def)
  from map_pages_ok [OF assms, of "{PRESENT, WRITABLE}"] obtain m' f' fs where
    "map_pages ops alloc {PRESENT, WRITABLE} (next_virt s) 0 n (vm_mapper s) (vm_frames s) = Ok (m', f')"
    "mapped_run (tr (vm_mapper s)) (tr m') (map (\<lambda>j. next_virt s + j * 4096) [0..<n]) fs {PRESENT, WRITABLE}"
    "set fs \<subseteq> set (pool (vm_frames s))" "\<forall>q. plain (vm_mapper s) q \<longrightarrow> plain m' q" by blast
  with v room show ?thesis
    by (intro exI [of _ "s\<lparr>next_virt := next_virt s + n * 4096, vm_mapper := m', vm_frames := f'\<rparr>"]
        exI [of _ fs]) (simp add: alloc_pages_def room_def Let_def)
qed

lemma alloc_pages_user_ok:
  assumes "addresses_ok ops" and "map_to_ok ops tr plain ready pool"
    and "ready (vm_frames s)" and "distinct (pool (vm_frames s))"
    and room: "room tr plain (vm_mapper s) (next_virt_user s) n" and "4 * n \<le> length (pool (vm_frames s))"
  shows "\<exists>s' fs. alloc_pages_user ops alloc s n = Ok (s', Some (next_virt_user s)) \<and>
    mapped_run (tr (vm_mapper s)) (tr (vm_mapper s'))
      (map (\<lambda>j. next_virt_user s + j * 4096) [0..<n]) fs {PRESENT, WRITABLE, USER_ACCESSIBLE} \<and>
    set fs \<subseteq> set (pool (vm_frames s)) \<and> next_virt_user s' = next_virt_user s + n * 4096 \<and>
    next_virt s' = next_virt s"
proof -
  have "canonical (next_virt_user s)" using room by (intro canonical_high) (auto simp: room_def)
  then have v: "virt_new ops (next_virt_user s) = Ok (next_virt_user s)"
    using assms(1) by (simp add: addresses_ok_def)
  from map_pages_ok [OF assms, of "{PRESENT, WRITABLE, USER_ACCESSIBLE}"] obtain m' f' fs where
    "map_pages ops alloc {PRESENT, WRITABLE, USER_ACCESSIBLE} (next_virt_user s) 0 n (vm_mapper s) (vm_frames s) =
       Ok (m', f')"
    "mapped_run (tr (vm_mapper s)) (tr m') (map (\<lambda>j. next_virt_user s + j * 4096) [0..<n]) fs
       {PRESENT, WRITABLE, USER_ACCESSIBLE}"
    "set fs \<subseteq> set (pool (vm_frames s))" "\<forall>q. plain (vm_mapper s) q \<longrightarrow> plain m' q" by blast
  with v room show ?thesis
    by (intro exI [of _ "s\<lparr>next_virt_user := next_virt_user s + n * 4096, vm_mapper := m', vm_frames := f'\<rparr>"]
        exI [of _ fs]) (simp add: alloc_pages_user_def room_def Let_def)
qed

end

section \<open>A mapper for the witnesses\<close>

text \<open>A mapper that keeps its translation as a map and needs no frames of its own.\<close>

definition demo_mapper :: "(addr \<rightharpoonup> addr \<times> page_flag set, 'f) mapper" where
  "demo_mapper = \<lparr>virt_new = Ok, virt_add = (\<lambda>a n. Ok (a + n)), virt_sub = usub,
     page_of = (\<lambda>a. a - a mod 4096),
     map_to = (\<lambda>m p frame flags f.
       if m p = None then (Inr (), m(p \<mapsto> (frame, flags)), f) else (Inl (OtherMapError 0), m, f)),
     unmap = (\<lambda>m p. case m p of None \<Rightarrow> (Inl (OtherUnmapError 0), m) | Some (f, _) \<Rightarrow> (Inr f, m(p := None)))\<rparr>"

lemma demo_addresses_ok: "addresses_ok demo_mapper"
  by (simp add: addresses_ok_def demo_mapper_def)

lemma demo_map_to_ok: "map_to_ok demo_mapper (\<lambda>m. m) (\<lambda>_ _. True) ready pool"
  by (auto simp: map_to_ok_def demo_mapper_def split: if_splits)

lemma demo_unmap_ok: "unmap_ok demo_mapper (\<lambda>m. m) (\<lambda>_ _. True)"
  by (simp add: unmap_ok_def demo_mapper_def)

definition demo_map :: "memory_region list" where
  "demo_map = [\<lparr>mr_start = 4096, mr_end = 655360, mr_kind = OtherKind 0\<rparr>,
     \<lparr>mr_start = 1048576, mr_end = 1048576 + 16384 * 4096, mr_kind = Usable\<rparr>]"

lemma demo_frames: "frame_addresses demo_map = step_range 1048576 (1048576 + 16384 * 4096)"
  by (simp add: frame_addresses_def demo_map_def)

lemma length_demo_frames: "length (frame_addresses demo_map) = 16384"
  by (simp add: demo_frames length_step_range div_ceil_def)

lemma demo_map_ok: "memory_map_ok demo_map"
  by (simp add: memory_map_ok_def usable_regions_def demo_map_def)

lemma demo_frame_of_ok: "frame_of_ok Ok"
  by (simp add: frame_of_ok_def)

lemma demo_ready: "boot_ready Ok (boot_frames_init demo_map)"
  by (simp add: boot_ready_def demo_map_ok demo_frame_of_ok boot_frames_init_def length_demo_frames)

lemma demo_pool: "boot_pool (boot_frames_init demo_map) = frame_addresses demo_map"
  by (simp add: boot_pool_def boot_frames_init_def)

section \<open>Properties\<close>

text \<open>Frames taken by \<open>k\<close> calls in a row.\<close>

fun take_frames :: "(addr \<Rightarrow> addr res) \<Rightarrow> usize \<Rightarrow> boot_frames \<Rightarrow> (boot_frames \<times> addr option list) res" where
  "take_frames fr 0 s = Ok (s, [])"
| "take_frames fr (Suc k) s =
     rbind (allocate_frame fr s) (\<lambda>(s', f). rbind (take_frames fr k s') (\<lambda>(s'', fs). Ok (s'', f # fs)))"

lemma take_frames_eq:
  assumes "frame_of_ok fr" and "memory_map_ok (memory_map s)" and "bf_next s + k < usize_bound"
  defines "F \<equiv> frame_addresses (memory_map s)"
  shows "take_frames fr k s = Ok (s\<lparr>bf_next := bf_next s + k\<rparr>,
    map (\<lambda>j. if j < length F then Some (F ! j) else None) [bf_next s..<bf_next s + k])"
  using assms(2-3) unfolding F_def
proof (induction k arbitrary: s)
  case 0
  then show ?case by simp
next
  case (Suc k)
  have "allocate_frame fr s = Ok (s\<lparr>bf_next := bf_next s + 1\<rparr>,
      if bf_next s < length (frame_addresses (memory_map s))
      then Some (frame_addresses (memory_map s) ! bf_next s) else None)"
    using assms(1) Suc.prems by (intro allocate_frame_eq) auto
  moreover have "[bf_next s..<bf_next s + Suc k] = bf_next s # [Suc (bf_next s)..<Suc (bf_next s) + k]"
    by (simp add: upt_conv_Cons)
  ultimately show ?case
    using Suc.IH [of "s\<lparr>bf_next := bf_next s + 1\<rparr>"] Suc.prems by simp
qed

text \<open>
  C8. Started on a well-formed memory map, the frame allocator hands out, in order, each 4 KiB frame of
  each usable region exactly once, and \<open>None\<close> from then on: the first \<open>k\<close> calls return the first \<open>k\<close>
  entries of a duplicate-free list of frame-aligned addresses that lie in usable regions.
\<close>

theorem boot_frames_each_once:
  assumes "frame_of_ok fr" and "memory_map_ok mm" and "k < usize_bound"
  shows "\<exists>s. take_frames fr k (boot_frames_init mm) =
      Ok (s, map (\<lambda>j. if j < length (frame_addresses mm) then Some (frame_addresses mm ! j) else None) [0..<k]) \<and>
    distinct (frame_addresses mm) \<and>
    set (frame_addresses mm) =
      {a. 4096 dvd a \<and> (\<exists>r\<in>set mm. mr_kind r = Usable \<and> mr_start r \<le> a \<and> a < mr_end r)}"
proof -
  have "set (frame_addresses mm) =
      {a. 4096 dvd a \<and> (\<exists>r\<in>set mm. mr_kind r = Usable \<and> mr_start r \<le> a \<and> a < mr_end r)}" (is "_ = ?S")
  proof (intro set_eqI iffI)
    fix a assume "a \<in> set (frame_addresses mm)"
    with frame_address_ok [OF assms(2)] show "a \<in> ?S" by blast
  next
    fix a assume "a \<in> ?S"
    then obtain r where r: "r \<in> set (usable_regions mm)" "mr_start r \<le> a" "a < mr_end r" "4096 dvd a"
      by (auto simp: usable_regions_def)
    moreover have "4096 dvd mr_start r" using assms(2) r(1) by (simp add: memory_map_ok_def)
    ultimately have "a \<in> set (step_range (mr_start r) (mr_end r))"
      by (simp add: set_step_range dvd_diff_nat)
    with r(1) show "a \<in> set (frame_addresses mm)" by (auto simp: frame_addresses_alt)
  qed
  with take_frames_eq [of fr "boot_frames_init mm" k] assms distinct_frame_addresses show ?thesis
    by (simp add: boot_frames_init_def)
qed

theorem boot_frames_each_once_witness:
  "\<exists>s. take_frames Ok 2 (boot_frames_init demo_map) =
      Ok (s, map (\<lambda>j. if j < length (frame_addresses demo_map) then Some (frame_addresses demo_map ! j) else None) [0..<2]) \<and>
    distinct (frame_addresses demo_map) \<and>
    set (frame_addresses demo_map) =
      {a. 4096 dvd a \<and> (\<exists>r\<in>set demo_map. mr_kind r = Usable \<and> mr_start r \<le> a \<and> a < mr_end r)}"
  by (rule boot_frames_each_once [OF demo_frame_of_ok demo_map_ok]) simp

text \<open>
  C9. \<open>alloc_pages\<close> on free address space and enough frames does not panic: it returns the old
  \<open>NEXT_VIRT\<close>, maps each of the requested pages writable to a frame of its own from the allocator's
  pool, changes no other translation, and moves \<open>NEXT_VIRT\<close> just past the run, so that two allocations
  never share a page.
\<close>

theorem alloc_pages_maps_run:
  assumes "addresses_ok ops" and "map_to_ok ops tr plain (boot_ready fr) boot_pool"
    and "boot_ready fr (vm_frames s)"
    and "room tr plain (vm_mapper s) (next_virt s) n" and "4 * n \<le> length (boot_pool (vm_frames s))"
  shows "\<exists>s' fs. alloc_pages ops (allocate_frame fr) s n = Ok (s', Some (next_virt s)) \<and>
    mapped_run (tr (vm_mapper s)) (tr (vm_mapper s'))
      (map (\<lambda>j. next_virt s + j * 4096) [0..<n]) fs {PRESENT, WRITABLE} \<and>
    set fs \<subseteq> set (boot_pool (vm_frames s)) \<and> next_virt s' = next_virt s + n * 4096"
proof -
  have "distinct (boot_pool (vm_frames s))"
    using assms(3) distinct_frame_addresses by (simp add: boot_ready_def boot_pool_def)
  from boot.alloc_pages_ok [OF assms(1-3) this assms(4,5)] show ?thesis by blast
qed

abbreviation demo_vm :: "(addr \<rightharpoonup> addr \<times> page_flag set, boot_frames) vm" where
  "demo_vm \<equiv> \<lparr>vm_mapper = Map.empty, vm_frames = boot_frames_init demo_map,
     next_virt = 18446620928407240704, next_virt_user = 18446744071830503424\<rparr>"

lemma demo_room: "room (\<lambda>m. m) (\<lambda>_ _. True) Map.empty 18446620928407240704 2"
  by (simp add: room_def)

theorem alloc_pages_maps_run_witness:
  "\<exists>s' fs. alloc_pages demo_mapper (allocate_frame Ok) demo_vm 2 = Ok (s', Some (next_virt demo_vm)) \<and>
    mapped_run (vm_mapper demo_vm) (vm_mapper s')
      (map (\<lambda>j. next_virt demo_vm + j * 4096) [0..<2]) fs {PRESENT, WRITABLE} \<and>
    set fs \<subseteq> set (boot_pool (vm_frames demo_vm)) \<and> next_virt s' = next_virt demo_vm + 2 * 4096"
  by (rule alloc_pages_maps_run [OF demo_addresses_ok demo_map_to_ok])
    (simp_all add: demo_ready demo_room demo_pool length_demo_frames)

text \<open>The pages of the kernel heap.\<close>

definition heap_pages :: "addr list" where
  "heap_pages = map (\<lambda>j. HEAP_START + j * 4096) [0..<3840]"

lemma heap_page_range:
  assumes "addresses_ok ops"
  shows "page_range (page_of ops HEAP_START) (page_of ops (HEAP_START + HEAP_SIZE - 1)) = heap_pages"
proof -
  have "page_range (page_of ops HEAP_START) (page_of ops (HEAP_START + HEAP_SIZE - 1)) =
      step_range HEAP_START (HEAP_START + 3839 * 4096 + 1)"
    using assms by (simp add: addresses_ok_def page_range_def HEAP_START_def HEAP_SIZE_def)
  also have "\<dots> = step_range HEAP_START (HEAP_START + 3840 * 4096)"
    using step_range_last [of HEAP_START 3839] by simp
  also have "\<dots> = heap_pages"
    unfolding heap_pages_def by (rule step_range_run)
  finally show ?thesis .
qed

lemma heap_page_covers:
  assumes "HEAP_START \<le> a" and "a < HEAP_START + HEAP_SIZE"
  shows "a - a mod 4096 \<in> set heap_pages"
proof -
  define j where "j = (a - HEAP_START) div 4096"
  have "HEAP_START mod 4096 = 0" by (simp add: HEAP_START_def)
  have "a = HEAP_START + (a - HEAP_START)" using assms(1) by simp
  then have "a mod 4096 = (a - HEAP_START) mod 4096"
    by (metis \<open>HEAP_START mod 4096 = 0\<close> add_0 mod_add_left_eq mod_mod_trivial)
  moreover have "(a - HEAP_START) = j * 4096 + (a - HEAP_START) mod 4096"
    unfolding j_def by simp
  ultimately have "a - a mod 4096 = HEAP_START + j * 4096"
    using assms(1) by linarith
  moreover have "a - HEAP_START < 3840 * 4096"
    using assms by (simp add: HEAP_SIZE_def)
  then have "j < 3840" unfolding j_def by (simp add: less_mult_imp_div_less)
  ultimately show ?thesis by (auto simp: heap_pages_def)
qed

lemma init_heap_ok:
  assumes "addresses_ok ops" and "map_to_ok ops tr plain (boot_ready fr) boot_pool" and "boot_ready fr f"
    and "\<forall>p\<in>set heap_pages. tr m p = None \<and> plain m p" and "15360 \<le> length (boot_pool f)"
  shows "\<exists>m' f' fs. init_heap ops (allocate_frame fr) bump_new m f = Ok (Inr (), kernel_bump, m', f') \<and>
    mapped_run (tr m) (tr m') heap_pages fs {PRESENT, WRITABLE} \<and> set fs \<subseteq> set (boot_pool f) \<and>
    (\<forall>a. HEAP_START \<le> a \<longrightarrow> a < HEAP_START + HEAP_SIZE \<longrightarrow> tr m' (a - a mod 4096) \<noteq> None)"
proof -
  have d: "distinct (boot_pool f)"
    using assms(3) distinct_frame_addresses by (simp add: boot_ready_def boot_pool_def)
  have "distinct heap_pages" by (simp add: heap_pages_def distinct_map inj_on_def)
  moreover have "4 * length heap_pages \<le> length (boot_pool f)"
    using assms(5) by (simp add: heap_pages_def)
  ultimately obtain m' f' fs where run:
    "map_heap ops (allocate_frame fr) {PRESENT, WRITABLE} heap_pages m f = Ok (Inr (), m', f')"
    "mapped_run (tr m) (tr m') heap_pages fs {PRESENT, WRITABLE}" "set fs \<subseteq> set (boot_pool f)"
    using boot.map_heap_ok [OF assms(2,3) d _ assms(4), of "{PRESENT, WRITABLE}"] by blast
  have "canonical (HEAP_START + HEAP_SIZE)" "canonical HEAP_START" "canonical (HEAP_START + HEAP_SIZE - 1)"
    by (auto intro!: canonical_low simp: HEAP_START_def HEAP_SIZE_def)
  then have pre: "virt_new ops HEAP_START = Ok HEAP_START"
    "virt_add ops HEAP_START HEAP_SIZE = Ok (HEAP_START + HEAP_SIZE)"
    "virt_sub ops (HEAP_START + HEAP_SIZE) 1 = Ok (HEAP_START + HEAP_SIZE - 1)"
    using assms(1) by (auto simp: addresses_ok_def HEAP_START_def)
  have "init_heap ops (allocate_frame fr) bump_new m f = Ok (Inr (), kernel_bump, m', f')"
    unfolding init_heap_def pre rbind_simps heap_page_range [OF assms(1)]
    by (simp add: run(1) kernel_bump_def)
  moreover have "tr m' p \<noteq> None" if "p \<in> set heap_pages" for p
    using run(2) that unfolding mapped_run_def in_set_conv_nth by auto
  ultimately show ?thesis using run(2,3) heap_page_covers by blast
qed

text \<open>
  C10. With free address space and enough frames, \<open>init_heap\<close> succeeds: every byte of the heap lies on
  a page that is mapped writable to a frame of its own, no other translation changes, and the global
  allocator is the bump allocator on exactly that range.
\<close>

theorem init_heap_maps_heap:
  assumes "addresses_ok ops" and "map_to_ok ops tr plain (boot_ready fr) boot_pool" and "boot_ready fr f"
    and "\<forall>p\<in>set heap_pages. tr m p = None \<and> plain m p" and "15360 \<le> length (boot_pool f)"
  shows "\<exists>m' f' fs. init_heap ops (allocate_frame fr) bump_new m f = Ok (Inr (), kernel_bump, m', f') \<and>
    mapped_run (tr m) (tr m') heap_pages fs {PRESENT, WRITABLE} \<and> set fs \<subseteq> set (boot_pool f) \<and>
    (\<forall>a. HEAP_START \<le> a \<longrightarrow> a < HEAP_START + HEAP_SIZE \<longrightarrow> tr m' (a - a mod 4096) \<noteq> None)"
  using assms by (rule init_heap_ok)

theorem init_heap_maps_heap_witness:
  "\<exists>m' f' fs. init_heap demo_mapper (allocate_frame Ok) bump_new Map.empty (boot_frames_init demo_map) =
      Ok (Inr (), kernel_bump, m', f') \<and>
    mapped_run Map.empty m' heap_pages fs {PRESENT, WRITABLE} \<and>
    set fs \<subseteq> set (boot_pool (boot_frames_init demo_map)) \<and>
    (\<forall>a. HEAP_START \<le> a \<longrightarrow> a < HEAP_START + HEAP_SIZE \<longrightarrow> m' (a - a mod 4096) \<noteq> None)"
  by (rule init_heap_maps_heap [OF demo_addresses_ok demo_map_to_ok demo_ready])
    (simp_all add: demo_pool length_demo_frames)

text \<open>
  \<open>alloc\<close> takes at least two pages, \<open>free\<close> releases the pages that the size needs: a request of at
  most one page that is freed with the same size succeeds in both, but its second page stays mapped.
\<close>

theorem small_alloc_leaks_page:
  assumes "addresses_ok ops" and "map_to_ok ops tr plain (boot_ready fr) boot_pool" and "unmap_ok ops tr plain"
    and "boot_ready fr (vm_frames s)"
    and "room tr plain (vm_mapper s) (next_virt s) 2" and "8 \<le> length (boot_pool (vm_frames s))"
    and "0 < num_bytes" and "num_bytes \<le> 4096"
  shows "\<exists>s' m'. page_alloc ops (allocate_frame fr) s num_bytes = Ok (s', Some (next_virt s)) \<and>
    page_free ops (vm_mapper s') (next_virt s) num_bytes = Ok (Inr (), m') \<and>
    tr m' (next_virt s) = None \<and> tr m' (next_virt s + 4096) \<noteq> None"
proof -
  let ?b = "next_virt s"
  have one: "div_ceil num_bytes 4096 = 1"
    using assms(7,8) by (cases "num_bytes = 4096") (auto simp: div_ceil_def)
  have "distinct (boot_pool (vm_frames s))"
    using assms(4) distinct_frame_addresses by (simp add: boot_ready_def boot_pool_def)
  with assms(1,2,4,5,6) obtain s' fs where s': "alloc_pages ops (allocate_frame fr) s 2 = Ok (s', Some ?b)"
    and run: "mapped_run (tr (vm_mapper s)) (tr (vm_mapper s')) [?b, ?b + 4096] fs {PRESENT, WRITABLE}"
    and pl: "\<forall>q. plain (vm_mapper s) q \<longrightarrow> plain (vm_mapper s') q"
    using boot.alloc_pages_ok [of ops tr plain fr s 2] by (auto simp: upt_rec)
  then have at: "tr (vm_mapper s') ?b = Some (fs ! 0, {PRESENT, WRITABLE})"
    "tr (vm_mapper s') (?b + 4096) = Some (fs ! 1, {PRESENT, WRITABLE})"
    by (auto simp: mapped_run_def less_Suc_eq)
  have "?b \<in> run_pages ?b 2" by (auto simp: run_pages_def intro: image_eqI [of _ _ 0])
  then have "plain (vm_mapper s) ?b" using assms(5) unfolding room_def by blast
  with pl assms(3) at(1) obtain m' where um: "unmap ops (vm_mapper s') ?b = (Inr (fs ! 0), m')"
    "tr m' = (tr (vm_mapper s'))(?b := None)"
    unfolding unmap_ok_def by blast
  have base: "4096 dvd ?b" "18446603336221196288 \<le> ?b" "?b < usize_bound"
    using assms(5) by (auto simp: room_def)
  then have "virt_add ops ?b 0 = Ok ?b"
    using assms(1) canonical_high by (metis add_0_right addresses_ok_def)
  then have "page_free ops (vm_mapper s') ?b num_bytes = Ok (Inr (), m')"
    using assms(7) base um(1) page_of_aligned [OF assms(1)] by (simp add: page_free_def one)
  moreover have "page_alloc ops (allocate_frame fr) s num_bytes = Ok (s', Some ?b)"
    using assms(7) s' by (simp add: page_alloc_def one numeral_2_eq_2)
  ultimately show ?thesis using um(2) at(2) by auto
qed

theorem small_alloc_leaks_page_witness:
  "\<exists>s' m'. page_alloc demo_mapper (allocate_frame Ok) demo_vm 100 = Ok (s', Some (next_virt demo_vm)) \<and>
    page_free (demo_mapper :: (_, boot_frames) mapper) (vm_mapper s') (next_virt demo_vm) 100 = Ok (Inr (), m') \<and>
    m' (next_virt demo_vm) = None \<and> m' (next_virt demo_vm + 4096) \<noteq> None"
  by (rule small_alloc_leaks_page [OF demo_addresses_ok demo_map_to_ok demo_unmap_ok])
    (simp_all add: demo_ready demo_room demo_pool length_demo_frames)

end
