(* ===== verification/Rust_Str.thy ===== *)
theory Rust_Str
  imports Prelude
begin

text \<open>
  What the kernel uses of \<open>core::str\<close> and \<open>core::fmt\<close>: the test of \<open>str::from_utf8\<close> on a byte slice,
  the characters of a string, and the printing of numbers. A \<open>&str\<close> is its list of bytes; a text that is
  printed is its list of characters.
\<close>

section \<open>UTF-8\<close>

definition utf8_cont :: "u8 \<Rightarrow> bool" where
  "utf8_cont b \<longleftrightarrow> 0x80 \<le> b \<and> b \<le> 0xBF"

fun utf8_valid :: "u8 list \<Rightarrow> bool" where
  "utf8_valid [] = True"
| "utf8_valid (b # bs) =
     (if b < 0x80 then utf8_valid bs
      else if 0xC2 \<le> b \<and> b \<le> 0xDF then
        (case bs of c # cs \<Rightarrow> utf8_cont c \<and> utf8_valid cs | _ \<Rightarrow> False)
      else if 0xE0 \<le> b \<and> b \<le> 0xEF then
        (case bs of
           c # d # cs \<Rightarrow> utf8_cont c \<and> utf8_cont d \<and>
             (b = 0xE0 \<longrightarrow> 0xA0 \<le> c) \<and> (b = 0xED \<longrightarrow> c \<le> 0x9F) \<and> utf8_valid cs
         | _ \<Rightarrow> False)
      else if 0xF0 \<le> b \<and> b \<le> 0xF4 then
        (case bs of
           c # d # e # cs \<Rightarrow> utf8_cont c \<and> utf8_cont d \<and> utf8_cont e \<and>
             (b = 0xF0 \<longrightarrow> 0x90 \<le> c) \<and> (b = 0xF4 \<longrightarrow> c \<le> 0x8F) \<and> utf8_valid cs
         | _ \<Rightarrow> False)
      else False)"

text \<open>\<open>str::from_utf8\<close>: \<open>Err\<close> is \<open>None\<close>.\<close>

definition from_utf8 :: "u8 list \<Rightarrow> u8 list option" where
  "from_utf8 bs = (if utf8_valid bs then Some bs else None)"

lemma utf8_valid_ascii: "(\<And>b. b \<in> set bs \<Longrightarrow> b < 0x80) \<Longrightarrow> utf8_valid bs"
  by (induction bs) auto

section \<open>Digits\<close>

definition is_ascii_digit :: "u8 \<Rightarrow> bool" where
  "is_ascii_digit b \<longleftrightarrow> 48 \<le> b \<and> b \<le> 57"

text \<open>\<open>str::chars\<close> of a valid string.\<close>

definition cont_bits :: "u8 \<Rightarrow> nat" where
  "cont_bits b = unat (b AND 0x3F)"

fun utf8_chars :: "u8 list \<Rightarrow> nat list" where
  "utf8_chars [] = []"
| "utf8_chars (b # bs) =
     (if b < 0x80 then unat b # utf8_chars bs
      else if b < 0xE0 then
        (case bs of c # cs \<Rightarrow> (unat (b AND 0x1F) * 64 + cont_bits c) # utf8_chars cs | _ \<Rightarrow> [])
      else if b < 0xF0 then
        (case bs of
           c # d # cs \<Rightarrow> (unat (b AND 0x0F) * 4096 + cont_bits c * 64 + cont_bits d) # utf8_chars cs
         | _ \<Rightarrow> [])
      else
        (case bs of
           c # d # e # cs \<Rightarrow>
             (unat (b AND 0x07) * 262144 + cont_bits c * 4096 + cont_bits d * 64 + cont_bits e) # utf8_chars cs
         | _ \<Rightarrow> []))"

lemma utf8_chars_ascii: "(\<And>b. b \<in> set bs \<Longrightarrow> b < 0x80) \<Longrightarrow> utf8_chars bs = map unat bs"
  by (induction bs) auto

text \<open>\<open>String::push\<close> and \<open>str::as_bytes\<close>: the bytes of a character, a Unicode scalar value.\<close>

definition scalar_value :: "nat \<Rightarrow> bool" where
  "scalar_value c \<longleftrightarrow> c < 0xD800 \<or> 0xE000 \<le> c \<and> c < 0x110000"

definition utf8_char_bytes :: "nat \<Rightarrow> u8 list" where
  "utf8_char_bytes c = map of_nat
     (if c < 0x80 then [c]
      else if c < 0x800 then [0xC0 + c div 64, 0x80 + c mod 64]
      else if c < 0x10000 then [0xE0 + c div 4096, 0x80 + c div 64 mod 64, 0x80 + c mod 64]
      else [0xF0 + c div 262144, 0x80 + c div 4096 mod 64, 0x80 + c div 64 mod 64, 0x80 + c mod 64])"

definition as_bytes :: "nat list \<Rightarrow> u8 list" where
  "as_bytes s = concat (map utf8_char_bytes s)"

lemma byte_le: "n < 256 \<Longrightarrow> (of_nat n :: u8) \<le> numeral k \<longleftrightarrow> n \<le> unat (numeral k :: u8)"
  "n < 256 \<Longrightarrow> numeral k \<le> (of_nat n :: u8) \<longleftrightarrow> unat (numeral k :: u8) \<le> n"
  "n < 256 \<Longrightarrow> (of_nat n :: u8) < numeral k \<longleftrightarrow> n < unat (numeral k :: u8)"
  "n < 256 \<Longrightarrow> (of_nat n :: u8) = numeral k \<longleftrightarrow> n = unat (numeral k :: u8)"
  by (simp_all add: word_le_nat_alt word_less_nat_alt unat_of_nat word_unat_eq_iff)

lemma byte_mask:
  "n < 256 \<Longrightarrow> unat ((of_nat n :: u8) AND 0x3F) = n mod 64"
  "n < 256 \<Longrightarrow> unat ((of_nat n :: u8) AND 0x1F) = n mod 32"
  "n < 256 \<Longrightarrow> unat ((of_nat n :: u8) AND 0x0F) = n mod 16"
  "n < 256 \<Longrightarrow> unat ((of_nat n :: u8) AND 0x07) = n mod 8"
proof -
  have m: "unat ((of_nat n :: u8) AND mask k) = n mod 2 ^ k" if "n < 256" for k
    unfolding take_bit_eq_mask [symmetric] unsigned_take_bit_eq using that by (simp add: unat_of_nat take_bit_eq_mod)
  show "n < 256 \<Longrightarrow> unat ((of_nat n :: u8) AND 0x3F) = n mod 64" using m [of 6] by (simp add: mask_numeral)
  show "n < 256 \<Longrightarrow> unat ((of_nat n :: u8) AND 0x1F) = n mod 32" using m [of 5] by (simp add: mask_numeral)
  show "n < 256 \<Longrightarrow> unat ((of_nat n :: u8) AND 0x0F) = n mod 16" using m [of 4] by (simp add: mask_numeral)
  show "n < 256 \<Longrightarrow> unat ((of_nat n :: u8) AND 0x07) = n mod 8" using m [of 3] by (simp add: mask_numeral)
qed

lemma mod_small: "b < m \<Longrightarrow> (k * m + b) mod m = (b :: nat)"
  by simp

lemmas tag_mod = mod_small [of _ 64 2, simplified] mod_small [of _ 32 6, simplified] mod_small [of _ 16 14, simplified]
  mod_small [of _ 8 30, simplified]

lemma cont_byte: "b < 64 \<Longrightarrow> utf8_cont (of_nat (128 + b)) \<and> cont_bits (of_nat (128 + b)) = b"
  unfolding utf8_cont_def cont_bits_def by (simp add: byte_le byte_mask tag_mod del: of_nat_add)

lemma utf8_two: "2 \<le> a \<Longrightarrow> a < 32 \<Longrightarrow> b < 64 \<Longrightarrow>
  (utf8_valid (of_nat (192 + a) # of_nat (128 + b) # bs) \<longleftrightarrow> utf8_valid bs) \<and>
  utf8_chars (of_nat (192 + a) # of_nat (128 + b) # bs) = (a * 64 + b) # utf8_chars bs"
  by (simp add: byte_le byte_mask tag_mod cont_byte del: of_nat_add)

lemma utf8_three:
  assumes "a < 16" "b < 64" "d < 64" "a = 0 \<longrightarrow> 32 \<le> b" "a = 13 \<longrightarrow> b < 32"
  shows "(utf8_valid (of_nat (224 + a) # of_nat (128 + b) # of_nat (128 + d) # bs) \<longleftrightarrow> utf8_valid bs) \<and>
    utf8_chars (of_nat (224 + a) # of_nat (128 + b) # of_nat (128 + d) # bs) = (a * 4096 + b * 64 + d) # utf8_chars bs"
proof -
  have "224 + a < 256" "128 + b < 256" using assms by simp_all
  then show ?thesis
    using assms by (auto simp: byte_le byte_mask tag_mod cont_byte simp del: of_nat_add)
qed

lemma utf8_four:
  assumes "a < 5" "b < 64" "d < 64" "e < 64" "a = 0 \<longrightarrow> 16 \<le> b" "a = 4 \<longrightarrow> b < 16"
  shows "(utf8_valid (of_nat (240 + a) # of_nat (128 + b) # of_nat (128 + d) # of_nat (128 + e) # bs) \<longleftrightarrow> utf8_valid bs) \<and>
    utf8_chars (of_nat (240 + a) # of_nat (128 + b) # of_nat (128 + d) # of_nat (128 + e) # bs) =
      (a * 262144 + b * 4096 + d * 64 + e) # utf8_chars bs"
proof -
  have "240 + a < 256" "128 + b < 256" using assms by simp_all
  then show ?thesis
    using assms by (auto simp: byte_le byte_mask tag_mod cont_byte simp del: of_nat_add)
qed

lemma utf8_char_ok:
  assumes "scalar_value c"
  shows "(utf8_valid (utf8_char_bytes c @ bs) \<longleftrightarrow> utf8_valid bs) \<and> utf8_chars (utf8_char_bytes c @ bs) = c # utf8_chars bs"
proof -
  have "c < 0x110000" using assms by (auto simp: scalar_value_def)
  then consider "c < 0x80" | "0x80 \<le> c" "c < 0x800" | "0x800 \<le> c" "c < 0x10000" | "0x10000 \<le> c" "c < 0x110000"
    by linarith
  then show ?thesis
  proof cases
    case 1
    then show ?thesis by (simp add: utf8_char_bytes_def byte_le unat_of_nat)
  next
    case 2
    have eq: "utf8_char_bytes c = [of_nat (192 + c div 64), of_nat (128 + c mod 64)]"
      using 2 by (simp add: utf8_char_bytes_def)
    have "2 \<le> c div 64" "c div 64 < 32" using 2 by linarith+
    from utf8_two [OF this, of "c mod 64" bs] show ?thesis unfolding eq by (simp del: of_nat_add utf8_valid.simps utf8_chars.simps)
  next
    case 3
    let ?a = "c div 4096" and ?b = "c div 64 mod 64" and ?d = "c mod 64"
    have eq: "utf8_char_bytes c = [of_nat (224 + ?a), of_nat (128 + ?b), of_nat (128 + ?d)]"
      using 3 by (simp add: utf8_char_bytes_def)
    have "c div 64 div 64 = ?a" by (simp add: div_mult2_eq [symmetric])
    then have c: "?a * 4096 + ?b * 64 + ?d = c"
      using div_mult_mod_eq [of c 64] div_mult_mod_eq [of "c div 64" 64] by linarith
    have "?a < 16" "?b < 64" "?d < 64" using 3 by (simp, simp_all)
    moreover have "?a = 0 \<longrightarrow> 32 \<le> ?b" "?a = 13 \<longrightarrow> ?b < 32"
      using c calculation 3 assms by (auto simp: scalar_value_def)
    ultimately show ?thesis using utf8_three [of ?a ?b ?d bs] unfolding eq c by simp
  next
    case 4
    let ?a = "c div 262144" and ?b = "c div 4096 mod 64" and ?d = "c div 64 mod 64" and ?e = "c mod 64"
    have eq: "utf8_char_bytes c = [of_nat (240 + ?a), of_nat (128 + ?b), of_nat (128 + ?d), of_nat (128 + ?e)]"
      using 4 by (simp add: utf8_char_bytes_def)
    have "c div 64 div 64 = c div 4096" "c div 4096 div 64 = ?a" by (simp_all add: div_mult2_eq [symmetric])
    then have c: "?a * 262144 + ?b * 4096 + ?d * 64 + ?e = c"
      using div_mult_mod_eq [of c 64] div_mult_mod_eq [of "c div 64" 64] div_mult_mod_eq [of "c div 4096" 64] by linarith
    have "?a < 5" "?b < 64" "?d < 64" "?e < 64" using 4 by (simp, simp_all)
    moreover have "?a = 0 \<longrightarrow> 16 \<le> ?b" "?a = 4 \<longrightarrow> ?b < 16"
      using c calculation 4 by auto
    ultimately show ?thesis using utf8_four [of ?a ?b ?d ?e bs] unfolding eq c by simp
  qed
qed

lemma as_bytes_ok: "\<forall>c \<in> set s. scalar_value c \<Longrightarrow> utf8_valid (as_bytes s) \<and> utf8_chars (as_bytes s) = s"
proof (induction s)
  case (Cons c s)
  have "as_bytes (c # s) = utf8_char_bytes c @ as_bytes s" by (simp add: as_bytes_def)
  with utf8_char_ok [of c "as_bytes s"] Cons show ?case by simp
qed (simp add: as_bytes_def)

section \<open>Numbers\<close>

text \<open>\<open>{}\<close> of an unsigned and of a signed number, and \<open>{:#x}\<close>.\<close>

fun decimal :: "nat \<Rightarrow> nat list" where
  "decimal n = (if n < 10 then [48 + n] else decimal (n div 10) @ [48 + n mod 10])"

declare decimal.simps [simp del]

definition decimal_int :: "int \<Rightarrow> nat list" where
  "decimal_int i = (if i < 0 then 45 # decimal (nat (- i)) else decimal (nat i))"

fun hexadecimal :: "nat \<Rightarrow> nat list" where
  "hexadecimal n =
     (let d = n mod 16; c = if d < 10 then 48 + d else 87 + d
      in if n < 16 then [c] else hexadecimal (n div 16) @ [c])"

declare hexadecimal.simps [simp del]

definition hex_alternate :: "nat \<Rightarrow> nat list" where
  "hex_alternate n = 48 # 120 # hexadecimal n"

text \<open>Reading a decimal number, to state what the digits mean.\<close>

definition undecimal :: "nat list \<Rightarrow> nat" where
  "undecimal ds = foldl (\<lambda>a d. a * 10 + (d - 48)) 0 ds"

lemma undecimal_decimal [simp]: "undecimal (decimal n) = n"
proof (induction n rule: decimal.induct)
  case (1 n)
  show ?case
  proof (cases "n < 10")
    case True
    then show ?thesis by (subst decimal.simps) (simp add: undecimal_def)
  next
    case False
    with 1 show ?thesis by (subst decimal.simps) (simp add: undecimal_def)
  qed
qed

lemma decimal_digits: "c \<in> set (decimal n) \<Longrightarrow> 48 \<le> c \<and> c \<le> 57"
proof (induction n rule: decimal.induct)
  case (1 n)
  from 1(2) show ?case by (subst (asm) decimal.simps) (use 1(1) in \<open>auto split: if_splits\<close>)
qed

lemma length_decimal: "n < 10 ^ Suc k \<Longrightarrow> length (decimal n) \<le> Suc k"
proof (induction k arbitrary: n)
  case 0
  then show ?case by (subst decimal.simps) simp
next
  case (Suc k)
  then have "n div 10 < 10 ^ Suc k" by (simp add: less_mult_imp_div_less mult.commute)
  with Suc.IH have "length (decimal (n div 10)) \<le> Suc k" by blast
  then show ?case by (subst decimal.simps) simp
qed

lemma decimal_not_Nil [simp]: "decimal n \<noteq> []"
  by (subst decimal.simps) simp

end
