(* ===== verification/Ustar.thy ===== *)
theory Ustar
  imports Rust_Str
begin

text \<open>
  The reader of USTAR archives (\<open>kernel/src/drivers/ustar.rs\<close>), through which the kernel finds its
  files: the iterator over the entries, \<open>read_file\<close> and the accessors of a file. An archive is a list of
  bytes no longer than \<open>isize::MAX\<close>, as every Rust slice. Both loops are total functions: the position
  moves forward by at least one block per step.
\<close>

section \<open>Model\<close>

definition BLOCK_SIZE :: usize where "BLOCK_SIZE = 512"
definition USTAR_SIGNATURE_OFFSET :: usize where "USTAR_SIGNATURE_OFFSET = 257"
definition FILE_SIZE_OFFSET :: usize where "FILE_SIZE_OFFSET = 124"
definition FILE_SIZE_LENGTH :: usize where "FILE_SIZE_LENGTH = 11"
definition HEADER_SIZE :: usize where "HEADER_SIZE = 512"

lemmas ustar_consts = BLOCK_SIZE_def USTAR_SIGNATURE_OFFSET_def FILE_SIZE_OFFSET_def
  FILE_SIZE_LENGTH_def HEADER_SIZE_def

record ustar_file =
  uf_name :: "u8 list"
  uf_data :: "u8 list"
  uf_size :: usize

definition ustar_file_new :: "u8 list \<Rightarrow> u8 list \<Rightarrow> usize \<Rightarrow> ustar_file" where
  "ustar_file_new name data sz = \<lparr>uf_name = name, uf_data = data, uf_size = sz\<rparr>"

definition ustar_read :: "ustar_file \<Rightarrow> usize \<Rightarrow> usize \<Rightarrow> u8 list res" where
  "ustar_read f offset bytes = rbind (uadd offset bytes) (\<lambda>e. slice_of (uf_data f) offset e)"

definition ustar_read_to_end :: "ustar_file \<Rightarrow> usize \<Rightarrow> u8 list res" where
  "ustar_read_to_end f offset = rbind (usub (uf_size f) 1) (\<lambda>e. slice_of (uf_data f) offset e)"

definition ustar_read_all :: "ustar_file \<Rightarrow> u8 list" where
  "ustar_read_all f = uf_data f"

text \<open>The loop of \<open>oct2bin\<close>; \<open>result\<close> is the accumulator.\<close>

fun oct2bin_from :: "usize \<Rightarrow> u8 list \<Rightarrow> usize res" where
  "oct2bin_from result [] = Ok result"
| "oct2bin_from result (byte # bytes) =
     (if is_ascii_digit byte
      then rbind (umul result 8) (\<lambda>r. rbind (uadd r (unat (byte - 48))) (\<lambda>r'. oct2bin_from r' bytes))
      else Ok result)"

definition oct2bin :: "u8 list \<Rightarrow> usize res" where
  "oct2bin octal_bytes = oct2bin_from 0 octal_bytes"

definition ustar_magic :: "u8 list" where
  "ustar_magic = [117, 115, 116, 97, 114]"

text \<open>\<open>name_field.iter().position(|&b| b == 0).unwrap_or(100)\<close> and the slice up to there.\<close>

definition header_name :: "u8 list \<Rightarrow> u8 list" where
  "header_name name_field = takeWhile (\<lambda>b. b \<noteq> 0) name_field"

definition blocks_needed :: "usize \<Rightarrow> usize res" where
  "blocks_needed filesize =
     (if filesize = 0 then Ok 0
      else rbind (uadd filesize BLOCK_SIZE) (\<lambda>a. rbind (usub a 1) (\<lambda>b. Ok (b div BLOCK_SIZE))))"

text \<open>\<open>USTarFileIterator::next\<close>: the new position and the entry.\<close>

definition iter_next :: "u8 list \<Rightarrow> usize \<Rightarrow> (usize \<times> ustar_file option) res" where
  "iter_next data ptr =
     (if ptr \<ge> length data then Ok (ptr, None)
      else rbind (uadd ptr HEADER_SIZE) (\<lambda>he.
        if he > length data then Ok (ptr, None)
        else rbind (uadd ptr USTAR_SIGNATURE_OFFSET) (\<lambda>so.
          rbind (uadd so 5) (\<lambda>se.
            if se > length data then Ok (ptr, None)
            else rbind (slice_of data so se) (\<lambda>signature.
              if signature \<noteq> ustar_magic then Ok (ptr, None)
              else rbind (uadd ptr FILE_SIZE_OFFSET) (\<lambda>fo.
                rbind (uadd fo FILE_SIZE_LENGTH) (\<lambda>fe.
                  case slice_get data fo fe of
                    None \<Rightarrow> Ok (ptr, None)
                  | Some size_slice \<Rightarrow>
                      rbind (oct2bin size_slice) (\<lambda>filesize.
                      rbind (uadd ptr 100) (\<lambda>ne.
                      rbind (slice_of data ptr ne) (\<lambda>name_field.
                      rbind (uadd ptr HEADER_SIZE) (\<lambda>data_start.
                      rbind (uadd data_start filesize) (\<lambda>data_end.
                        if data_end > length data then Ok (ptr, None)
                        else rbind (slice_of data data_start data_end) (\<lambda>file_data.
                          case from_utf8 (header_name name_field) of
                            None \<Rightarrow> Ok (length data, None)
                          | Some name \<Rightarrow>
                              rbind (blocks_needed filesize) (\<lambda>bn.
                              rbind (uadd bn 1) (\<lambda>bn1.
                              rbind (umul bn1 BLOCK_SIZE) (\<lambda>step.
                                let file = ustar_file_new name file_data filesize
                                in case checked_add ptr step of
                                     None \<Rightarrow> Ok (length data, Some file)
                                   | Some next_ptr \<Rightarrow> Ok (next_ptr, Some file)))))))))))))))))"

lemma blocks_needed_Ok: "n + 512 < usize_bound \<Longrightarrow> blocks_needed n = Ok (div_ceil n 512)"
proof -
  assume "n + 512 < usize_bound"
  moreover have "(n + 511) div 512 = div_ceil n 512"
  proof -
    define q r where "q = n div 512" and "r = n mod 512"
    have "r < 512" and "n = r + q * 512" unfolding q_def r_def by simp_all
    then have "(n + 511) div 512 = (r + 511) div 512 + q"
      by (simp add: add.commute add.left_commute)
    moreover have "(r + 511) div 512 = (if r = 0 then 0 else 1)"
      using \<open>r < 512\<close> by (auto intro!: div_nat_eqI)
    ultimately show ?thesis by (simp add: div_ceil_def q_def r_def)
  qed
  ultimately show ?thesis
    by (auto simp: blocks_needed_def BLOCK_SIZE_def uadd_def usub_def div_ceil_def)
qed

text \<open>A position in an archive stays far below the bound of \<open>usize\<close>.\<close>

lemma iter_next_progress:
  assumes "iter_next data ptr = Ok (ptr', Some f)"
  shows "ptr < ptr'" and "ptr < length data"
proof -
  show *: "ptr < length data" using assms by (auto simp: iter_next_def split: if_splits)
  show "ptr < ptr'"
    using assms * by (auto simp: iter_next_def res_iff Let_def BLOCK_SIZE_def split: if_splits option.splits)
qed

text \<open>All entries, as a \<open>for\<close> loop over the iterator sees them.\<close>

function ustar_files_from :: "u8 list \<Rightarrow> usize \<Rightarrow> ustar_file list res" where
  "ustar_files_from data ptr =
     rbind (iter_next data ptr) (\<lambda>(ptr', o').
       case o' of
         None \<Rightarrow> Ok []
       | Some f \<Rightarrow> rbind (ustar_files_from data ptr') (\<lambda>fs. Ok (f # fs)))"
  by pat_completeness auto
termination
proof (relation "measure (\<lambda>(data, ptr). length data - ptr)", goal_cases)
  case (2 data ptr x ptr' o' f)
  then have "iter_next data ptr = Ok (ptr', Some f)" by simp
  from iter_next_progress [OF this] show ?case by simp
qed simp

declare ustar_files_from.simps [simp del]

definition ustar_files :: "u8 list \<Rightarrow> ustar_file list res" where
  "ustar_files data = ustar_files_from data 0"

text \<open>The \<open>while\<close> loop of \<open>USTar::read_file\<close>.\<close>

function read_file_from :: "u8 list \<Rightarrow> u8 list \<Rightarrow> usize \<Rightarrow> ustar_file option res" where
  "read_file_from data fname ptr =
     rbind (uadd ptr HEADER_SIZE) (\<lambda>he.
       if he > length data then Ok None
       else rbind (uadd ptr USTAR_SIGNATURE_OFFSET) (\<lambda>so.
         rbind (uadd so 5) (\<lambda>se.
         rbind (slice_of data so se) (\<lambda>signature.
           if signature \<noteq> ustar_magic then Ok None
           else rbind (uadd ptr FILE_SIZE_OFFSET) (\<lambda>fo.
             rbind (uadd fo FILE_SIZE_LENGTH) (\<lambda>fe.
               case slice_get data fo fe of
                 None \<Rightarrow> Ok None
               | Some size_slice \<Rightarrow>
                   rbind (oct2bin size_slice) (\<lambda>filesize.
                   rbind (uadd ptr 100) (\<lambda>ne.
                   rbind (slice_of data ptr ne) (\<lambda>name_field.
                   rbind (if header_name name_field = fname
                          then rbind (uadd ptr HEADER_SIZE) (\<lambda>data_start.
                            rbind (uadd data_start filesize) (\<lambda>data_end.
                              if data_end \<le> length data
                              then rbind (slice_of data data_start data_end) (\<lambda>file_data.
                                rbind (expect ''(USTAR) Unable to read filename!''
                                         (from_utf8 (header_name name_field))) (\<lambda>name.
                                  Ok (Some (ustar_file_new name file_data filesize))))
                              else Ok None))
                          else Ok None) (\<lambda>found.
                     case found of
                       Some f \<Rightarrow> Ok (Some f)
                     | None \<Rightarrow>
                         rbind (blocks_needed filesize) (\<lambda>bn.
                         rbind (uadd bn 1) (\<lambda>bn1.
                         rbind (umul bn1 BLOCK_SIZE) (\<lambda>step.
                           case checked_add ptr step of
                             None \<Rightarrow> Ok None
                           | Some next_ptr \<Rightarrow>
                               if next_ptr > length data then Ok None
                               else read_file_from data fname next_ptr)))))))))))))"
  by pat_completeness auto
termination
  by (relation "measure (\<lambda>(data, fname, ptr). length data - ptr)") (auto simp: res_iff ustar_consts)

declare read_file_from.simps [simp del]

definition read_file :: "u8 list \<Rightarrow> u8 list \<Rightarrow> ustar_file option res" where
  "read_file data fname = read_file_from data fname 0"

section \<open>Entries\<close>

lemma oct2bin_from_ok:
  "(r + 2) * 8 ^ length bs < usize_bound \<Longrightarrow>
     \<exists>n. oct2bin_from r bs = Ok n \<and> n + 2 \<le> (r + 2) * 8 ^ length bs"
proof (induction bs arbitrary: r)
  case Nil
  then show ?case by simp
next
  case (Cons b bs)
  show ?case
  proof (cases "is_ascii_digit b")
    case True
    then have "unat (b - 48) \<le> 9"
      unfolding is_ascii_digit_def by (simp add: word_le_nat_alt unat_sub) linarith
    then have le: "(r * 8 + unat (b - 48) + 2) * 8 ^ length bs \<le> (r + 2) * 8 ^ length (b # bs)"
      by (simp add: algebra_simps mult_le_mono1 flip: add_mult_distrib)
    moreover have "r * 8 + unat (b - 48) < (r * 8 + unat (b - 48) + 2) * 8 ^ length bs"
      using mult_le_mono2 [of 1 "8 ^ length bs" "r * 8 + unat (b - 48) + 2"] by simp
    ultimately have "r * 8 + unat (b - 48) < usize_bound"
      using Cons.prems by linarith
    moreover obtain n where "oct2bin_from (r * 8 + unat (b - 48)) bs = Ok n"
      "n + 2 \<le> (r * 8 + unat (b - 48) + 2) * 8 ^ length bs"
      using Cons.IH [of "r * 8 + unat (b - 48)"] le Cons.prems by auto
    ultimately show ?thesis
      using True le by (simp add: umul_def uadd_def)
  next
    case False
    have "(1::nat) \<le> 8 ^ length (b # bs)" by simp
    from mult_le_mono2 [OF this, of "r + 2"] have "r + 2 \<le> (r + 2) * 8 ^ length (b # bs)"
      by (simp only: mult_1_right)
    with False show ?thesis by simp
  qed
qed

lemma oct2bin_ok:
  assumes "length bs = 11"
  shows "\<exists>n. oct2bin bs = Ok n \<and> n < 17179869184"
proof -
  have "(0 + 2) * 8 ^ length bs = (17179869184 :: nat)" by (simp add: assms)
  with oct2bin_from_ok [of 0 bs] show ?thesis by (auto simp: oct2bin_def)
qed

text \<open>The name and size of the entry whose header starts at a position.\<close>

definition size_at :: "u8 list \<Rightarrow> usize \<Rightarrow> usize" where
  "size_at data ptr = (case oct2bin (sub_list data (ptr + 124) (ptr + 135)) of Ok n \<Rightarrow> n | Panic _ \<Rightarrow> 0)"

definition name_at :: "u8 list \<Rightarrow> usize \<Rightarrow> u8 list" where
  "name_at data ptr = header_name (sub_list data ptr (ptr + 100))"

definition entry_here :: "u8 list \<Rightarrow> usize \<Rightarrow> bool" where
  "entry_here data ptr \<longleftrightarrow>
     ptr + 512 \<le> length data \<and> sub_list data (ptr + 257) (ptr + 262) = ustar_magic"

definition after_entry :: "u8 list \<Rightarrow> usize \<Rightarrow> usize" where
  "after_entry data ptr = ptr + (div_ceil (size_at data ptr) 512 + 1) * 512"

definition file_at :: "u8 list \<Rightarrow> usize \<Rightarrow> ustar_file" where
  "file_at data ptr = ustar_file_new (name_at data ptr)
     (sub_list data (ptr + 512) (ptr + 512 + size_at data ptr)) (size_at data ptr)"

lemma size_at_oct:
  assumes "ptr + 512 \<le> length data"
  shows "oct2bin (sub_list data (ptr + 124) (ptr + 135)) = Ok (size_at data ptr)"
    and "size_at data ptr < 17179869184"
  using oct2bin_ok [of "sub_list data (ptr + 124) (ptr + 135)"] assms
  by (auto simp: size_at_def length_sub_list)

lemma div_ceil_bound: "n < 17179869184 \<Longrightarrow> div_ceil n 512 \<le> 33554432"
  using div_ceil_mult_less [of 512 n] by simp

lemma after_entry_ge: "ptr + 512 + size_at data ptr \<le> after_entry data ptr"
  using div_ceil_le_mult [of 512 "size_at data ptr"] by (simp add: after_entry_def)

text \<open>Both readers, with the checks that cannot fail on a slice removed.\<close>

lemma iter_next_eq:
  assumes "length data \<le> isize_max"
  shows "iter_next data ptr =
    (if \<not> entry_here data ptr then Ok (ptr, None)
     else if ptr + 512 + size_at data ptr > length data then Ok (ptr, None)
     else if \<not> utf8_valid (name_at data ptr) then Ok (length data, None)
     else Ok (after_entry data ptr, Some (file_at data ptr)))"
proof (cases "ptr + 512 \<le> length data")
  case False
  show ?thesis
  proof (cases "ptr < length data")
    case True
    with False assms show ?thesis by (simp add: iter_next_def entry_here_def HEADER_SIZE_def)
  next
    case F: False
    then show ?thesis by (simp add: iter_next_def entry_here_def)
  qed
next
  case True
  note sz = size_at_oct [OF True]
  have "div_ceil (size_at data ptr) 512 \<le> 33554432" using sz(2) by (rule div_ceil_bound)
  with True assms sz show ?thesis
    unfolding iter_next_def ustar_consts
    by (simp add: entry_here_def slice_get_def add.commute [of _ ptr] add.assoc blocks_needed_Ok from_utf8_def
        name_at_def [symmetric] checked_add_def after_entry_def file_at_def Let_def)
qed

lemma read_file_from_eq:
  assumes "length data \<le> isize_max" and "ptr \<le> length data"
  shows "read_file_from data fname ptr =
    (if \<not> entry_here data ptr then Ok None
     else if name_at data ptr = fname \<and> ptr + 512 + size_at data ptr \<le> length data
     then (if utf8_valid fname then Ok (Some (file_at data ptr))
           else Panic (ExpectFailed ''(USTAR) Unable to read filename!''))
     else if after_entry data ptr > length data then Ok None
     else read_file_from data fname (after_entry data ptr))"
proof (cases "ptr + 512 \<le> length data")
  case False
  with assms show ?thesis by (subst read_file_from.simps) (simp add: entry_here_def HEADER_SIZE_def)
next
  case True
  note sz = size_at_oct [OF True]
  have "div_ceil (size_at data ptr) 512 \<le> 33554432" using sz(2) by (rule div_ceil_bound)
  with True assms sz show ?thesis
    by (subst read_file_from.simps, unfold ustar_consts)
      (simp add: entry_here_def slice_get_def add.commute [of _ ptr] add.assoc blocks_needed_Ok from_utf8_def
        name_at_def [symmetric] checked_add_def after_entry_def file_at_def Let_def)
qed

section \<open>Properties\<close>

lemma ustar_files_from_eq:
  assumes "length data \<le> isize_max"
  shows "ustar_files_from data ptr =
    (if entry_here data ptr \<and> ptr + 512 + size_at data ptr \<le> length data \<and> utf8_valid (name_at data ptr)
     then rbind (ustar_files_from data (after_entry data ptr)) (\<lambda>fs. Ok (file_at data ptr # fs))
     else Ok [])"
  by (subst ustar_files_from.simps) (simp add: iter_next_eq [OF assms])

text \<open>Induction along an archive: each step goes at least one block forward.\<close>

lemma archive_induct [case_names step]:
  assumes "\<And>ptr. (entry_here data ptr \<Longrightarrow> after_entry data ptr \<le> length data \<Longrightarrow> P (after_entry data ptr)) \<Longrightarrow> P ptr"
  shows "P (ptr :: usize)"
proof (induction "length data - ptr" arbitrary: ptr rule: less_induct)
  case less
  show ?case
  proof (rule assms)
    assume "entry_here data ptr" and "after_entry data ptr \<le> length data"
    then show "P (after_entry data ptr)"
      using after_entry_ge [of ptr data] by (intro less) (auto simp: entry_here_def)
  qed
qed

lemma ustar_files_from_past:
  assumes "length data \<le> isize_max" and "length data \<le> ptr"
  shows "ustar_files_from data ptr = Ok []"
  using assms by (subst ustar_files_from_eq) (auto simp: entry_here_def)

lemma ustar_files_from_ok:
  assumes "length data \<le> isize_max"
  shows "\<exists>fs. ustar_files_from data ptr = Ok fs"
proof (induction ptr rule: archive_induct [of data])
  case (step ptr)
  have "\<exists>fs. ustar_files_from data (after_entry data ptr) = Ok fs" if "entry_here data ptr"
    using ustar_files_from_past [OF assms, of "after_entry data ptr"] step [OF that]
    by (cases "after_entry data ptr \<le> length data") auto
  then show ?case
    by (subst ustar_files_from_eq [OF assms]) auto
qed

lemma read_file_from_ok:
  assumes "length data \<le> isize_max" and "utf8_valid fname"
  shows "ptr \<le> length data \<Longrightarrow> \<exists>f. read_file_from data fname ptr = Ok f"
proof (induction ptr rule: archive_induct [of data])
  case (step ptr)
  then show ?case
    using assms by (subst read_file_from_eq) auto
qed

lemma read_file_from_finds:
  assumes "length data \<le> isize_max" and "ustar_files_from data ptr = Ok fs" and "ptr \<le> length data"
    and "find (\<lambda>f. uf_name f = fname) fs = Some f"
  shows "read_file_from data fname ptr = Ok (Some f)"
  using assms(2-4)
proof (induction ptr arbitrary: fs rule: archive_induct [of data])
  case (step ptr)
  from step.prems(1,3) obtain rest where here: "entry_here data ptr"
      "ptr + 512 + size_at data ptr \<le> length data" "utf8_valid (name_at data ptr)"
    and rest: "ustar_files_from data (after_entry data ptr) = Ok rest" "fs = file_at data ptr # rest"
    by (subst (asm) ustar_files_from_eq [OF assms(1)]) (auto simp: res_iff split: if_splits)
  show ?case
  proof (cases "name_at data ptr = fname")
    case True
    with here rest step.prems(2,3) show ?thesis
      by (subst read_file_from_eq [OF assms(1)]) (auto simp: file_at_def ustar_file_new_def)
  next
    case False
    with rest step.prems(3) have found: "find (\<lambda>f. uf_name f = fname) rest = Some f"
      by (simp add: file_at_def ustar_file_new_def)
    then have "after_entry data ptr \<le> length data"
      using ustar_files_from_past [OF assms(1), of "after_entry data ptr"] rest(1)
      by (cases "length data \<le> after_entry data ptr") auto
    with False here step.prems(2) step.IH [OF here(1) this rest(1) this found] show ?thesis
      by (subst read_file_from_eq [OF assms(1)]) auto
  qed
qed

text \<open>
  C11. On any bytes whatsoever the archive readers terminate and do not panic: the iterator yields a
  finite list of files, and \<open>read_file\<close> returns for every file name that is a string.
\<close>

theorem ustar_readers_total:
  assumes "length data \<le> isize_max" and "utf8_valid fname"
  shows "(\<exists>fs. ustar_files data = Ok fs) \<and> (\<exists>f. read_file data fname = Ok f)"
  unfolding ustar_files_def read_file_def
  using ustar_files_from_ok [OF assms(1)] read_file_from_ok [OF assms] by blast

theorem ustar_readers_total_witness:
  "(\<exists>fs. ustar_files [117, 115, 0, 255] = Ok fs) \<and> (\<exists>f. read_file [117, 115, 0, 255] [97] = Ok f)"
  by (rule ustar_readers_total) simp_all

text \<open>
  C12. \<open>read_file\<close> agrees with the iterator: the first file of the listing that has the name asked for
  is the file it returns.
\<close>

theorem read_file_first_listed:
  assumes "length data \<le> isize_max" and "ustar_files data = Ok fs"
    and "find (\<lambda>f. uf_name f = fname) fs = Some f"
  shows "read_file data fname = Ok (Some f)"
  using assms read_file_from_finds [of data 0 fs fname f] by (simp add: ustar_files_def read_file_def)

section \<open>Round trip\<close>

text \<open>
  An archive as a \<open>tar\<close> program writes it. The metadata fields that the kernel does not read (mode and
  owner; time, checksum, type and link name; the rest of the header) are arbitrary bytes.
\<close>

record tar_entry =
  te_name :: "u8 list"
  te_data :: "u8 list"
  te_owner :: "u8 list"
  te_time :: "u8 list"
  te_rest :: "u8 list"

primrec oct_digits :: "usize \<Rightarrow> usize \<Rightarrow> u8 list" where
  "oct_digits 0 n = []"
| "oct_digits (Suc k) n = of_nat (48 + n div 8 ^ k mod 8) # oct_digits k n"

definition tar_header :: "tar_entry \<Rightarrow> u8 list" where
  "tar_header e = (te_name e @ replicate (100 - length (te_name e)) 0) @ te_owner e @
     oct_digits 11 (length (te_data e)) @ te_time e @ ustar_magic @ te_rest e"

definition tar_bytes :: "tar_entry \<Rightarrow> u8 list" where
  "tar_bytes e = tar_header e @ te_data e @
     replicate (div_ceil (length (te_data e)) 512 * 512 - length (te_data e)) 0"

definition tar_entry_ok :: "tar_entry \<Rightarrow> bool" where
  "tar_entry_ok e \<longleftrightarrow> length (te_name e) \<le> 100 \<and> 0 \<notin> set (te_name e) \<and> utf8_valid (te_name e) \<and>
     length (te_data e) < 8 ^ 11 \<and> length (te_owner e) = 24 \<and> length (te_time e) = 122 \<and>
     length (te_rest e) = 250"

lemma sub_list_shift: "sub_list (xs @ ys) (length xs + a) (length xs + b) = sub_list ys a b"
  by (simp add: sub_list_def)

lemma sub_list_middle:
  "a = length xs \<Longrightarrow> b = length xs + length ys \<Longrightarrow> sub_list (xs @ ys @ zs) a b = ys"
  by (simp add: sub_list_def)

lemma length_oct_digits [simp]: "length (oct_digits k n) = k"
  by (induction k) simp_all

lemma oct_digit:
  assumes "d < 8"
  shows "is_ascii_digit (of_nat (48 + d))" and "unat ((of_nat (48 + d) :: u8) - 48) = d"
proof -
  have "d \<in> {0, 1, 2, 3, 4, 5, 6, 7}" using assms by auto
  then show "is_ascii_digit (of_nat (48 + d))" and "unat ((of_nat (48 + d) :: u8) - 48) = d"
    by (auto simp: is_ascii_digit_def)
qed

lemma oct2bin_digits:
  "(r + 1) * 8 ^ k < usize_bound \<Longrightarrow> oct2bin_from r (oct_digits k n) = Ok (r * 8 ^ k + n mod 8 ^ k)"
proof (induction k arbitrary: r)
  case 0
  then show ?case by simp
next
  case (Suc k)
  let ?d = "n div 8 ^ k mod 8"
  have d: "?d < 8" by simp
  have le: "(r * 8 + ?d + 1) * 8 ^ k \<le> (r + 1) * 8 ^ Suc k"
  proof -
    have "r * 8 + x + 1 \<le> (r + 1) * 8" if "x < 8" for x :: nat using that by simp
    from this [OF d] have "r * 8 + ?d + 1 \<le> (r + 1) * 8" .
    from mult_le_mono1 [OF this, of "8 ^ k"] show ?thesis by (simp only: power_Suc mult.assoc)
  qed
  moreover have "r * 8 + ?d < (r * 8 + ?d + 1) * 8 ^ k"
    using mult_le_mono2 [of 1 "8 ^ k" "r * 8 + ?d + 1"] by simp
  ultimately have ok: "r * 8 + ?d < usize_bound" using Suc.prems by linarith
  have "oct2bin_from r (oct_digits (Suc k) n) = oct2bin_from (r * 8 + ?d) (oct_digits k n)"
    using ok oct_digit [OF d] by (simp add: umul_def uadd_def)
  also have "\<dots> = Ok ((r * 8 + ?d) * 8 ^ k + n mod 8 ^ k)"
    by (rule Suc.IH) (use le Suc.prems in linarith)
  also have "(r * 8 + ?d) * 8 ^ k + n mod 8 ^ k = r * 8 ^ Suc k + n mod 8 ^ Suc k"
    using mod_mult2_eq [of n "8 ^ k" 8] by (simp add: algebra_simps)
  finally show ?case .
qed

lemma takeWhile_name:
  "0 \<notin> set xs \<Longrightarrow> takeWhile (\<lambda>b. b \<noteq> 0) (xs @ replicate n (0 :: u8)) = xs"
  by (cases n) (auto simp: takeWhile_append)

lemma tar_bytes_at:
  assumes ok: "tar_entry_ok e" and data: "data = pre @ tar_bytes e @ post"
  shows "entry_here data (length pre)" and "name_at data (length pre) = te_name e"
    and "size_at data (length pre) = length (te_data e)"
    and "file_at data (length pre) = ustar_file_new (te_name e) (te_data e) (length (te_data e))"
    and "after_entry data (length pre) = length (pre @ tar_bytes e)"
    and "length pre + 512 + length (te_data e) \<le> length data"
proof -
  let ?n = "te_name e @ replicate (100 - length (te_name e)) 0" and ?p = "length pre"
  have len: "length ?n = 100" "length (te_owner e) = 24" "length (te_time e) = 122"
    "length (te_rest e) = 250" "length ustar_magic = 5"
    using ok by (simp_all add: tar_entry_ok_def ustar_magic_def)
  have hl: "length (tar_header e) = 512" using len by (simp add: tar_header_def)
  have shift: "sub_list data (?p + a) (?p + b) = sub_list (tar_bytes e @ post) a b" for a b
    unfolding data by (rule sub_list_shift)
  have body: "tar_bytes e @ post = ?n @ te_owner e @ oct_digits 11 (length (te_data e)) @ te_time e @
      ustar_magic @ te_rest e @ te_data e @
      replicate (div_ceil (length (te_data e)) 512 * 512 - length (te_data e)) 0 @ post"
    by (simp add: tar_bytes_def tar_header_def)
  have "sub_list data ?p (?p + 100) = ?n"
    using shift [of 0 100] sub_list_middle [of 0 "[]" 100 ?n] len(1) unfolding body by simp
  then show name: "name_at data ?p = te_name e"
    using ok by (simp add: name_at_def header_name_def takeWhile_name tar_entry_ok_def)
  have magic: "sub_list data (?p + 257) (?p + 262) = ustar_magic"
    unfolding shift body
    using sub_list_middle [of 257 "?n @ te_owner e @ oct_digits 11 (length (te_data e)) @ te_time e" 262 ustar_magic]
      len by simp
  show fits: "?p + 512 + length (te_data e) \<le> length data"
    using hl by (simp add: data tar_bytes_def)
  with magic show "entry_here data ?p" by (simp add: entry_here_def)
  have "sub_list data (?p + 124) (?p + 135) = oct_digits 11 (length (te_data e))"
    unfolding shift body
    using sub_list_middle [of 124 "?n @ te_owner e" 135 "oct_digits 11 (length (te_data e))"] len by simp
  moreover have "oct2bin (oct_digits 11 (length (te_data e))) = Ok (length (te_data e))"
    using ok oct2bin_digits [of 0 11 "length (te_data e)"] by (simp add: oct2bin_def tar_entry_ok_def)
  ultimately show size: "size_at data ?p = length (te_data e)" by (simp add: size_at_def)
  have "sub_list data (?p + 512) (?p + 512 + length (te_data e)) = te_data e"
    unfolding add.assoc shift tar_bytes_def append_assoc using hl by (intro sub_list_middle) simp_all
  with name size show "file_at data ?p = ustar_file_new (te_name e) (te_data e) (length (te_data e))"
    by (simp add: file_at_def)
  show "after_entry data ?p = length (pre @ tar_bytes e)"
    using hl div_ceil_le_mult [of 512 "length (te_data e)"]
    by (simp add: after_entry_def size tar_bytes_def)
qed

lemma ustar_files_from_archive:
  assumes "length data \<le> isize_max" and "\<forall>e\<in>set es. tar_entry_ok e" and "\<not> entry_here tail 0"
    and "data = pre @ concat (map tar_bytes es) @ tail"
  shows "ustar_files_from data (length pre) =
    Ok (map (\<lambda>e. ustar_file_new (te_name e) (te_data e) (length (te_data e))) es)"
  using assms(2,4)
proof (induction es arbitrary: pre)
  case Nil
  have "entry_here data (length pre) = entry_here tail 0"
    using Nil.prems(2) sub_list_shift [of pre tail 257 262] by (simp add: entry_here_def)
  with assms(3) show ?case by (subst ustar_files_from_eq [OF assms(1)]) simp
next
  case (Cons e es)
  then have ok: "tar_entry_ok e" and data: "data = pre @ tar_bytes e @ (concat (map tar_bytes es) @ tail)"
    by simp_all
  note at = tar_bytes_at [OF ok data]
  have "ustar_files_from data (length (pre @ tar_bytes e)) =
      Ok (map (\<lambda>e. ustar_file_new (te_name e) (te_data e) (length (te_data e))) es)"
    by (rule Cons.IH) (use Cons.prems in simp_all)
  moreover have "utf8_valid (te_name e)" using ok by (simp add: tar_entry_ok_def)
  ultimately show ?case
    using at by (subst ustar_files_from_eq [OF assms(1)]) simp
qed

text \<open>
  C13. Reading back an archive gives what was packed: for every list of entries with names of up to 100
  bytes and sizes of up to eleven octal digits, followed by anything that is not another header, the
  iterator lists exactly these files, in order, with their names, contents and sizes.
\<close>

theorem ustar_round_trip:
  assumes "\<forall>e\<in>set es. tar_entry_ok e" and "\<not> entry_here tail 0"
    and "length (concat (map tar_bytes es) @ tail) \<le> isize_max"
  shows "ustar_files (concat (map tar_bytes es) @ tail) =
    Ok (map (\<lambda>e. ustar_file_new (te_name e) (te_data e) (length (te_data e))) es)"
  using ustar_files_from_archive [OF assms(3,1,2), of "[]"] by (simp add: ustar_files_def)

definition demo_entry :: tar_entry where
  "demo_entry = \<lparr>te_name = [97, 46, 98], te_data = [1, 2, 3, 4, 5], te_owner = replicate 24 48,
     te_time = replicate 122 48, te_rest = replicate 250 0\<rparr>"

lemma demo_entry_sel: "te_name demo_entry = [97, 46, 98]" "te_data demo_entry = [1, 2, 3, 4, 5]"
  by (simp_all add: demo_entry_def)

lemma demo_entry_ok: "tar_entry_ok demo_entry"
  by (simp add: tar_entry_ok_def demo_entry_def)

lemma demo_archive_length: "length (tar_bytes demo_entry) = 1024"
  by (simp add: tar_bytes_def tar_header_def demo_entry_def ustar_magic_def div_ceil_def)

theorem ustar_round_trip_witness:
  "ustar_files (concat (map tar_bytes [demo_entry]) @ []) =
    Ok (map (\<lambda>e. ustar_file_new (te_name e) (te_data e) (length (te_data e))) [demo_entry])"
  by (rule ustar_round_trip) (simp_all add: demo_entry_ok demo_archive_length entry_here_def)

theorem read_file_first_listed_witness:
  "read_file (tar_bytes demo_entry) [97, 46, 98] = Ok (Some (ustar_file_new [97, 46, 98] [1, 2, 3, 4, 5] 5))"
proof (rule read_file_first_listed)
  show "length (tar_bytes demo_entry) \<le> isize_max" by (simp add: demo_archive_length)
  show "ustar_files (tar_bytes demo_entry) = Ok [ustar_file_new [97, 46, 98] [1, 2, 3, 4, 5] 5]"
  proof -
    have "\<not> entry_here [] 0" by (simp add: entry_here_def)
    then have "ustar_files_from (tar_bytes demo_entry) (length ([] :: u8 list)) =
        Ok (map (\<lambda>e. ustar_file_new (te_name e) (te_data e) (length (te_data e))) [demo_entry])"
      by (intro ustar_files_from_archive [where tail = "[]"])
        (simp_all add: demo_entry_ok demo_archive_length)
    then show ?thesis by (simp add: ustar_files_def demo_entry_sel eval_nat_numeral)
  qed
qed (simp add: ustar_file_new_def)

text \<open>
  \<open>read_to_end\<close> stops one byte before the end of the file: it never returns the last byte, and on an
  empty file it panics.
\<close>

theorem read_to_end_drops_last:
  assumes "uf_size f = length (uf_data f)"
  shows "ustar_read_to_end f 0 =
    (if uf_data f = [] then Panic ArithOverflow else Ok (butlast (uf_data f)))"
  using assms
  by (auto simp: ustar_read_to_end_def usub_def sub_list_def butlast_conv_take Suc_le_eq)

theorem read_to_end_drops_last_witness:
  "ustar_read_to_end (ustar_file_new [97] [1, 2, 3] 3) 0 = Ok [1, 2]"
  by (subst read_to_end_drops_last) (simp_all add: ustar_file_new_def)

end
