(* ===== verification/Array_Queue.thy ===== *)
theory Array_Queue
  imports Prelude
begin

text \<open>
  The bounded queue of the crate \<open>crossbeam_queue\<close>, which the executor and the keyboard driver share
  with interrupt handlers. The crate is not part of the repository: its operations are a record, and
  \<open>array_queue_ok\<close> is what its documentation promises, over the list of the items a queue holds.
\<close>

record ('q, 'a) array_queue =
  aq_new :: "usize \<Rightarrow> 'q"
  aq_push :: "'q \<Rightarrow> 'a \<Rightarrow> 'q option"
  aq_pop :: "'q \<Rightarrow> ('a \<times> 'q) option"
  aq_is_empty :: "'q \<Rightarrow> bool"

definition array_queue_ok :: "('q, 'a) array_queue \<Rightarrow> ('q \<Rightarrow> 'a list) \<Rightarrow> ('q \<Rightarrow> usize) \<Rightarrow> bool" where
  "array_queue_ok Q items cap \<longleftrightarrow>
     (\<forall>n > 0. items (aq_new Q n) = [] \<and> cap (aq_new Q n) = n) \<and>
     (\<forall>q x. length (items q) < cap q \<longrightarrow>
        (\<exists>q'. aq_push Q q x = Some q' \<and> items q' = items q @ [x] \<and> cap q' = cap q)) \<and>
     (\<forall>q x. cap q \<le> length (items q) \<longrightarrow> aq_push Q q x = None) \<and>
     (\<forall>q. items q = [] \<longrightarrow> aq_pop Q q = None) \<and>
     (\<forall>q x xs. items q = x # xs \<longrightarrow> (\<exists>q'. aq_pop Q q = Some (x, q') \<and> items q' = xs \<and> cap q' = cap q)) \<and>
     (\<forall>q. aq_is_empty Q q = (items q = []))"

lemma aq_new_ok: "array_queue_ok Q items cap \<Longrightarrow> 0 < n \<Longrightarrow> items (aq_new Q n) = [] \<and> cap (aq_new Q n) = n"
  by (simp add: array_queue_ok_def)

lemma aq_push_ok:
  assumes "array_queue_ok Q items cap" and "length (items q) < cap q"
  obtains q' where "aq_push Q q x = Some q'" "items q' = items q @ [x]" "cap q' = cap q"
  using assms unfolding array_queue_ok_def by blast

lemma aq_push_SomeD:
  assumes "array_queue_ok Q items cap" and "aq_push Q q x = Some q'"
  shows "items q' = items q @ [x]" and "cap q' = cap q" and "length (items q) < cap q"
proof -
  show less: "length (items q) < cap q"
    using assms unfolding array_queue_ok_def by (metis not_le option.distinct(1))
  from aq_push_ok [OF assms(1) less, of x] assms(2)
  show "items q' = items q @ [x]" and "cap q' = cap q" by (metis option.inject)+
qed

lemma aq_push_full: "array_queue_ok Q items cap \<Longrightarrow> cap q \<le> length (items q) \<Longrightarrow> aq_push Q q x = None"
  unfolding array_queue_ok_def by blast

lemma aq_pop_Nil: "array_queue_ok Q items cap \<Longrightarrow> items q = [] \<Longrightarrow> aq_pop Q q = None"
  unfolding array_queue_ok_def by blast

lemma aq_pop_Cons:
  assumes "array_queue_ok Q items cap" and "items q = x # xs"
  obtains q' where "aq_pop Q q = Some (x, q')" "items q' = xs" "cap q' = cap q"
  using assms unfolding array_queue_ok_def by blast

lemma aq_pop_None_iff: "array_queue_ok Q items cap \<Longrightarrow> aq_pop Q q = None \<longleftrightarrow> items q = []"
  by (cases "items q") (metis aq_pop_Nil, metis aq_pop_Cons list.distinct(1) option.distinct(1))

lemma aq_pop_SomeD:
  assumes "array_queue_ok Q items cap" and "aq_pop Q q = Some (x, q')"
  shows "items q = x # items q'" and "cap q' = cap q"
proof -
  from assms obtain y ys where "items q = y # ys"
    by (cases "items q") (auto simp: aq_pop_Nil)
  with aq_pop_Cons [OF assms(1) this] assms(2)
  show "items q = x # items q'" and "cap q' = cap q" by auto
qed

lemma aq_is_empty_iff: "array_queue_ok Q items cap \<Longrightarrow> aq_is_empty Q q \<longleftrightarrow> items q = []"
  by (simp add: array_queue_ok_def)

text \<open>A queue that keeps its promise: its capacity and its items as a list.\<close>

definition list_queue :: "(usize \<times> 'a list, 'a) array_queue" where
  "list_queue = \<lparr>aq_new = (\<lambda>n. (n, [])),
     aq_push = (\<lambda>(n, xs) x. if length xs < n then Some (n, xs @ [x]) else None),
     aq_pop = (\<lambda>(n, xs). case xs of [] \<Rightarrow> None | x # ys \<Rightarrow> Some (x, (n, ys))),
     aq_is_empty = (\<lambda>(n, xs). xs = [])\<rparr>"

lemma list_queue_ok: "array_queue_ok list_queue snd fst"
  by (auto simp: array_queue_ok_def list_queue_def)

end
