(* ===== verification/Executor.thy ===== *)
theory Executor
  imports Array_Queue
begin

text \<open>
  The cooperative executor (\<open>kernel/src/executor.rs\<close>). A future is opaque: its state is a type variable
  and polling it is an argument of the definitions, which returns the new state, whether it is ready,
  and the tasks it woke through wakers while it ran. A waker is the task's id together with the shared
  queue, so the cache of wakers is the set of the ids it holds. The loop of \<open>run_ready_tasks\<close> may run
  forever when tasks keep waking each other: it is a partial function, and it is proved to return when
  polling wakes nobody. \<open>sleep_if_idle\<close> is modelled with the interrupts that may arrive between its
  instructions.
\<close>

section \<open>Model\<close>

type_synonym task_id = u64

datatype poll = Ready | Pending

record ('q, 't) executor =
  ex_tasks :: "task_id \<rightharpoonup> 't"
  task_queue :: 'q
  waker_cache :: "task_id set"

text \<open>\<open>fetch_add\<close> wraps around; the static is passed and returned.\<close>

definition task_id_new :: "u64 \<Rightarrow> u64 \<times> task_id" where
  "task_id_new next_id = (next_id + 1, next_id)"

definition task_new :: "u64 \<Rightarrow> 't \<Rightarrow> u64 \<times> (task_id \<times> 't)" where
  "task_new next_id fut = (let (n, i) = task_id_new next_id in (n, (i, fut)))"

definition executor_new :: "('q, task_id) array_queue \<Rightarrow> ('q, 't) executor" where
  "executor_new Q = \<lparr>ex_tasks = Map.empty, task_queue = aq_new Q 100, waker_cache = {}\<rparr>"

definition spawn ::
  "('q, task_id) array_queue \<Rightarrow> ('q, 't) executor \<Rightarrow> task_id \<times> 't \<Rightarrow> ('q, 't) executor res" where
  "spawn Q e task =
     (let (i, t) = task
      in if ex_tasks e i \<noteq> None
         then Panic (ExplicitPanic ''(EXECUTOR) Task with same ID already in tasks'')
         else rbind (expect ''(EXECUTOR) Queue full'' (aq_push Q (task_queue e) i)) (\<lambda>q.
           Ok (e\<lparr>ex_tasks := (ex_tasks e)(i \<mapsto> t), task_queue := q\<rparr>)))"

definition wake_task :: "('q, task_id) array_queue \<Rightarrow> 'q \<Rightarrow> task_id \<Rightarrow> 'q res" where
  "wake_task Q q i = expect ''(EXECUTOR) Task queue full'' (aq_push Q q i)"

fun wake_all :: "('q, task_id) array_queue \<Rightarrow> 'q \<Rightarrow> task_id list \<Rightarrow> 'q res" where
  "wake_all Q q [] = Ok q"
| "wake_all Q q (i # is) = rbind (wake_task Q q i) (\<lambda>q'. wake_all Q q' is)"

text \<open>One turn of the loop for a task that was taken from the queue.\<close>

definition run_task ::
  "('q, task_id) array_queue \<Rightarrow> (task_id \<Rightarrow> 't \<Rightarrow> 't \<times> poll \<times> task_id list) \<Rightarrow> ('q, 't) executor \<Rightarrow>
   task_id \<Rightarrow> ('q, 't) executor res" where
  "run_task Q pl e i =
     (case ex_tasks e i of
        None \<Rightarrow> Ok e
      | Some t \<Rightarrow>
          (case pl i t of
             (t', r, woken) \<Rightarrow>
               rbind (wake_all Q (task_queue e) woken) (\<lambda>q.
                 let e' = e\<lparr>ex_tasks := (ex_tasks e)(i \<mapsto> t'), task_queue := q,
                            waker_cache := insert i (waker_cache e)\<rparr>
                 in case r of
                      Ready \<Rightarrow> Ok (e'\<lparr>ex_tasks := (ex_tasks e')(i := None), waker_cache := waker_cache e' - {i}\<rparr>)
                    | Pending \<Rightarrow> Ok e')))"

partial_function (option) run_ready_tasks ::
  "('q, task_id) array_queue \<Rightarrow> (task_id \<Rightarrow> 't \<Rightarrow> 't \<times> poll \<times> task_id list) \<Rightarrow> ('q, 't) executor \<Rightarrow>
   ('q, 't) executor res option"
where
  "run_ready_tasks Q pl e =
     (case aq_pop Q (task_queue e) of
        None \<Rightarrow> Some (Ok e)
      | Some (i, q) \<Rightarrow>
          (case run_task Q pl (e\<lparr>task_queue := q\<rparr>) i of
             Panic p \<Rightarrow> Some (Panic p)
           | Ok e' \<Rightarrow> run_ready_tasks Q pl e'))"

section \<open>Idling\<close>

text \<open>
  Where the processor is inside \<open>sleep_if_idle\<close>: before each of its instructions, halted, or done.
  \<open>enable_and_hlt\<close> is \<open>sti\<close> directly followed by \<open>hlt\<close>, which the processor does not separate by an
  interrupt.
\<close>

datatype idle_pc = AtDisable | AtCheck | AtEnableHlt | AtEnable | Halted | Awake

record 'q idle =
  i_pc :: idle_pc
  i_enabled :: bool
  i_queue :: 'q

inductive idle_step :: "('q, task_id) array_queue \<Rightarrow> 'q idle \<Rightarrow> 'q idle \<Rightarrow> bool" for Q where
  disable: "i_pc s = AtDisable \<Longrightarrow> idle_step Q s (s\<lparr>i_pc := AtCheck, i_enabled := False\<rparr>)"
| check_empty: "i_pc s = AtCheck \<Longrightarrow> aq_is_empty Q (i_queue s) \<Longrightarrow> idle_step Q s (s\<lparr>i_pc := AtEnableHlt\<rparr>)"
| check_work: "i_pc s = AtCheck \<Longrightarrow> \<not> aq_is_empty Q (i_queue s) \<Longrightarrow> idle_step Q s (s\<lparr>i_pc := AtEnable\<rparr>)"
| enable_hlt: "i_pc s = AtEnableHlt \<Longrightarrow> idle_step Q s (s\<lparr>i_pc := Halted, i_enabled := True\<rparr>)"
| enable: "i_pc s = AtEnable \<Longrightarrow> idle_step Q s (s\<lparr>i_pc := Awake, i_enabled := True\<rparr>)"
| interrupt: "i_enabled s \<Longrightarrow> wake_all Q (i_queue s) woken = Ok q \<Longrightarrow>
    idle_step Q s (s\<lparr>i_queue := q, i_pc := (if i_pc s = Halted then Awake else i_pc s)\<rparr>)"

inductive idle_reach :: "('q, task_id) array_queue \<Rightarrow> 'q idle \<Rightarrow> 'q idle \<Rightarrow> bool" for Q s0 where
  start: "idle_reach Q s0 s0"
| step: "idle_reach Q s0 s \<Longrightarrow> idle_step Q s s' \<Longrightarrow> idle_reach Q s0 s'"

section \<open>Invariant\<close>

text \<open>
  The states an executor goes through: the number of tasks created so far, and the executor. Between
  calls, interrupt handlers may wake any tasks. The futures may differ from run to run.
\<close>

inductive ex_reach :: "('q, task_id) array_queue \<Rightarrow> nat \<Rightarrow> ('q, 't) executor \<Rightarrow> bool" for Q where
  ex_start: "ex_reach Q 0 (executor_new Q)"
| ex_spawn: "ex_reach Q k e \<Longrightarrow> spawn Q e (snd (task_new (of_nat k) t)) = Ok e' \<Longrightarrow> ex_reach Q (Suc k) e'"
| ex_run: "ex_reach Q k e \<Longrightarrow> run_ready_tasks Q pl e = Some (Ok e') \<Longrightarrow> ex_reach Q k e'"
| ex_wake: "ex_reach Q k e \<Longrightarrow> wake_all Q (task_queue e) woken = Ok q \<Longrightarrow> ex_reach Q k (e\<lparr>task_queue := q\<rparr>)"

definition ex_inv :: "('q \<Rightarrow> usize) \<Rightarrow> nat \<Rightarrow> ('q, 't) executor \<Rightarrow> bool" where
  "ex_inv cap k e \<longleftrightarrow> cap (task_queue e) = 100 \<and> waker_cache e \<subseteq> dom (ex_tasks e) \<and>
     dom (ex_tasks e) \<subseteq> of_nat ` {..<k}"

lemma wake_all_cap:
  assumes "array_queue_ok Q items cap" and "wake_all Q q is = Ok q'"
  shows "cap q' = cap q"
  using assms(2)
proof (induction "is" arbitrary: q)
  case Nil
  then show ?case by simp
next
  case (Cons i "is")
  then obtain q1 where "aq_push Q q i = Some q1" "wake_all Q q1 is = Ok q'"
    by (auto simp: wake_task_def res_iff)
  with Cons.IH aq_push_SomeD(2) [OF assms(1)] show ?case by metis
qed

lemma run_task_inv:
  assumes "array_queue_ok Q items cap" and "ex_inv cap k e" and "run_task Q pl e i = Ok e'"
  shows "ex_inv cap k e'"
proof (cases "ex_tasks e i")
  case None
  with assms(2,3) show ?thesis by (simp add: run_task_def)
next
  case (Some t)
  obtain t' r woken where pl: "pl i t = (t', r, woken)" by (cases "pl i t")
  with Some assms(3) obtain q where q: "wake_all Q (task_queue e) woken = Ok q"
    by (auto simp: run_task_def res_iff)
  have w: "waker_cache e \<subseteq> dom (ex_tasks e)" using assms(2) by (simp add: ex_inv_def)
  have "dom (ex_tasks e') \<subseteq> dom (ex_tasks e) \<and> waker_cache e' \<subseteq> dom (ex_tasks e') \<and> task_queue e' = q"
    using Some pl q assms(3) w by (cases r) (auto simp: run_task_def Let_def dom_def split: if_splits)
  with wake_all_cap [OF assms(1) q] assms(2) show ?thesis
    unfolding ex_inv_def by (metis subset_trans)
qed

lemma run_ready_inv:
  assumes "array_queue_ok Q items cap" and "run_ready_tasks Q pl e = Some (Ok e')" and "ex_inv cap k e"
  shows "ex_inv cap k e'"
proof -
  let ?P = "\<lambda>Q' pl' e r. Q' = Q \<longrightarrow> r = Ok e' \<longrightarrow> ex_inv cap k e \<longrightarrow> ex_inv cap k e'"
  have "?P Q pl e (Ok e')"
  proof (rule run_ready_tasks.raw_induct [where P = ?P, OF _ assms(2)], intro impI, goal_cases)
    case (1 f Q' pl' e r)
    note IH = 1(1) and eq = 1(2) and Q' = 1(3) and r = 1(4) and inv = 1(5)
    show "ex_inv cap k e'"
    proof (cases "aq_pop Q (task_queue e)")
      case None
      with eq r inv Q' show ?thesis by simp
    next
      case (Some iq)
      obtain i q where iq: "iq = (i, q)" by (cases iq)
      have inv': "ex_inv cap k (e\<lparr>task_queue := q\<rparr>)"
        using aq_pop_SomeD(2) [OF assms(1), of "task_queue e" i q] Some iq inv by (simp add: ex_inv_def)
      from eq Some iq r Q' obtain e1 where "run_task Q pl' (e\<lparr>task_queue := q\<rparr>) i = Ok e1"
        "f Q' pl' e1 = Some r" by (auto split: res.splits)
      with run_task_inv [OF assms(1) inv'] IH Q' r show ?thesis by blast
    qed
  qed
  with assms(3) show ?thesis by simp
qed

lemma wake_all_items:
  assumes "array_queue_ok Q items cap" and "wake_all Q q is = Ok q'"
  shows "items q' = items q @ is"
  using assms(2)
proof (induction "is" arbitrary: q)
  case Nil
  then show ?case by simp
next
  case (Cons i "is")
  then obtain q1 where "aq_push Q q i = Some q1" "wake_all Q q1 is = Ok q'"
    by (auto simp: wake_task_def res_iff)
  with Cons.IH aq_push_SomeD(1) [OF assms(1)] show ?case by fastforce
qed

lemma ex_reach_inv:
  assumes "array_queue_ok Q items cap" and "ex_reach Q k e"
  shows "ex_inv cap k e"
  using assms(2)
proof (induction rule: ex_reach.induct)
  case ex_start
  show ?case using aq_new_ok [OF assms(1), of 100] by (simp add: ex_inv_def executor_new_def)
next
  case (ex_spawn k e t e')
  then obtain q where q: "aq_push Q (task_queue e) (of_nat k) = Some q"
    and e': "e' = e\<lparr>ex_tasks := (ex_tasks e)(of_nat k \<mapsto> t), task_queue := q\<rparr>"
    by (auto simp: spawn_def task_new_def task_id_new_def res_iff split: if_splits)
  have "(of_nat ` {..<k} :: u64 set) \<subseteq> of_nat ` {..<Suc k}" "(of_nat k :: u64) \<in> of_nat ` {..<Suc k}" by auto
  with ex_spawn.IH aq_push_SomeD(2) [OF assms(1) q] show ?case
    unfolding ex_inv_def e' by (auto split: if_splits)
next
  case (ex_run k e pl e')
  then show ?case using run_ready_inv [OF assms(1)] by blast
next
  case (ex_wake k e woken q)
  then show ?case using wake_all_cap [OF assms(1)] by (auto simp: ex_inv_def)
qed

section \<open>Properties\<close>

text \<open>
  C14. In every state the executor can reach with fewer than 2^64 tasks created, only live tasks have
  a cached waker, and spawning a new task never meets the panic for a duplicate id: it succeeds and
  appends the task to the queue exactly when fewer than 100 wakes are queued, and otherwise panics
  because the queue is full.
\<close>

theorem spawn_fresh:
  assumes "array_queue_ok Q items cap" and "ex_reach Q k e" and "k < 2 ^ 64"
  shows "waker_cache e \<subseteq> dom (ex_tasks e) \<and>
    (if length (items (task_queue e)) < 100
     then \<exists>q. spawn Q e (snd (task_new (of_nat k) t)) =
         Ok (e\<lparr>ex_tasks := (ex_tasks e)(of_nat k \<mapsto> t), task_queue := q\<rparr>) \<and>
       items q = items (task_queue e) @ [of_nat k]
     else spawn Q e (snd (task_new (of_nat k) t)) = Panic (ExpectFailed ''(EXECUTOR) Queue full''))"
proof -
  note inv = ex_reach_inv [OF assms(1,2)]
  have "(of_nat j :: u64) \<noteq> of_nat k" if "j < k" for j
    using that assms(3) by (simp add: word_unat_eq_iff unat_of_nat take_bit_nat_eq_self)
  then have "(of_nat k :: u64) \<notin> of_nat ` {..<k}" by fastforce
  with inv have "ex_tasks e (of_nat k) = None"
    unfolding ex_inv_def by blast
  then have sp: "spawn Q e (snd (task_new (of_nat k) t)) =
      rbind (expect ''(EXECUTOR) Queue full'' (aq_push Q (task_queue e) (of_nat k))) (\<lambda>q.
        Ok (e\<lparr>ex_tasks := (ex_tasks e)(of_nat k \<mapsto> t), task_queue := q\<rparr>))"
    by (simp add: spawn_def task_new_def task_id_new_def)
  have cap: "cap (task_queue e) = 100" using inv by (simp add: ex_inv_def)
  show ?thesis
  proof (cases "length (items (task_queue e)) < 100")
    case True
    with cap obtain q where "aq_push Q (task_queue e) (of_nat k) = Some q"
      "items q = items (task_queue e) @ [of_nat k]"
      using aq_push_ok [OF assms(1), of "task_queue e"] by metis
    with sp True inv show ?thesis by (auto simp add: ex_inv_def)
  next
    case False
    with cap have "aq_push Q (task_queue e) (of_nat k) = None"
      by (intro aq_push_full [OF assms(1)]) simp
    with sp False inv show ?thesis by (simp add: ex_inv_def)
  qed
qed

theorem spawn_fresh_witness:
  "\<exists>q. spawn list_queue (executor_new list_queue) (snd (task_new (of_nat 0) ''fut'')) =
      Ok ((executor_new list_queue)\<lparr>ex_tasks := (ex_tasks (executor_new list_queue))(of_nat 0 \<mapsto> ''fut''),
        task_queue := q\<rparr>) \<and> snd q = [0]"
  using spawn_fresh [OF list_queue_ok ex_start, of "''fut''"]
  by (simp add: executor_new_def list_queue_def)







definition idle_inv :: "('q \<Rightarrow> task_id list) \<Rightarrow> 'q idle \<Rightarrow> bool" where
  "idle_inv items s \<longleftrightarrow> (i_pc s \<in> {AtCheck, AtEnableHlt, AtEnable} \<longrightarrow> \<not> i_enabled s) \<and>
     (i_pc s \<in> {AtEnableHlt, Halted} \<longrightarrow> items (i_queue s) = []) \<and>
     (i_pc s \<in> {Halted, Awake} \<longrightarrow> i_enabled s)"

lemma idle_step_inv:
  assumes "array_queue_ok Q items cap" and "idle_step Q s s'" and "idle_inv items s"
  shows "idle_inv items s'"
  using assms(2,3)
proof (induction rule: idle_step.induct)
  case (interrupt s woken q)
  then show ?case by (cases "i_pc s") (simp_all add: idle_inv_def)
qed (simp_all add: idle_inv_def aq_is_empty_iff [OF assms(1)])

text \<open>
  C16. No wake-up is lost while idling: from the start of \<open>sleep_if_idle\<close>, with interrupts arriving at
  any point where they are enabled, the processor is never halted while a task is queued, it never
  halts with interrupts disabled, and it leaves the function with interrupts enabled.
\<close>

theorem sleep_no_lost_wakeup:
  assumes "array_queue_ok Q items cap" and "i_pc s0 = AtDisable" and "idle_reach Q s0 s"
  shows "(i_pc s = Halted \<longrightarrow> items (i_queue s) = [] \<and> i_enabled s) \<and>
    (i_pc s = Awake \<longrightarrow> i_enabled s)"
proof -
  have "idle_inv items s"
    using assms(3)
  proof (induction rule: idle_reach.induct)
    case start
    then show ?case using assms(2) by (simp add: idle_inv_def)
  next
    case (step s s')
    with idle_step_inv [OF assms(1)] show ?case by blast
  qed
  then show ?thesis by (simp add: idle_inv_def)
qed

abbreviation demo_idle :: "idle_pc \<Rightarrow> bool \<Rightarrow> (usize \<times> task_id list) idle" where
  "demo_idle p b \<equiv> \<lparr>i_pc = p, i_enabled = b, i_queue = (100, [])\<rparr>"

theorem sleep_no_lost_wakeup_witness:
  "snd (i_queue (demo_idle Halted True)) = [] \<and> i_enabled (demo_idle Halted True)"
proof -
  have "idle_step list_queue (demo_idle AtDisable True) (demo_idle AtCheck False)"
    using idle_step.disable [of "demo_idle AtDisable True" list_queue] by simp
  moreover have "idle_step list_queue (demo_idle AtCheck False) (demo_idle AtEnableHlt False)"
    using idle_step.check_empty [of "demo_idle AtCheck False" list_queue] by (simp add: list_queue_def)
  moreover have "idle_step list_queue (demo_idle AtEnableHlt False) (demo_idle Halted True)"
    using idle_step.enable_hlt [of "demo_idle AtEnableHlt False" list_queue] by simp
  ultimately have "idle_reach list_queue (demo_idle AtDisable True) (demo_idle Halted True)"
    by (meson idle_reach.intros)
  from sleep_no_lost_wakeup [OF list_queue_ok _ this] show ?thesis by simp
qed

end
