(* ===== verification/Keyboard_Input.thy ===== *)
theory Keyboard_Input
  imports Array_Queue
begin

text \<open>
  The keyboard driver (\<open>kernel/src/keyboard.rs\<close>): the interrupt handler's \<open>add_scancode\<close>, the stream of
  scancodes and the task that prints key presses. The queue is shared with interrupts, so \<open>poll_next\<close> is
  modelled with the scancodes that arrive between its steps. The crate \<open>pc_keyboard\<close>, which decodes
  scancodes, is a parameter.
\<close>

section \<open>Model\<close>

text \<open>
  \<open>SCANCODE_QUEUE\<close> is a \<open>OnceCell\<close>: \<open>None\<close> until it is initialised. \<open>WAKER\<close> is an \<open>AtomicWaker\<close>, which
  holds at most one registered waker; \<open>kb_woken\<close> records the wakers that were woken, in order.
\<close>

record ('q, 'w) kb =
  scancode_queue :: "'q option"
  kb_waker :: "'w option"
  kb_woken :: "'w list"

text \<open>\<open>AtomicWaker::wake\<close> takes the registered waker, if any, and wakes it.\<close>

definition waker_wake :: "('q, 'w) kb \<Rightarrow> ('q, 'w) kb" where
  "waker_wake s =
     (case kb_waker s of
        None \<Rightarrow> s
      | Some w \<Rightarrow> s\<lparr>kb_waker := None, kb_woken := kb_woken s @ [w]\<rparr>)"

definition add_scancode :: "('q, u8) array_queue \<Rightarrow> ('q, 'w) kb \<Rightarrow> u8 \<Rightarrow> ('q, 'w) kb res" where
  "add_scancode Q s scancode =
     (case scancode_queue s of
        Some q \<Rightarrow>
          (case aq_push Q q scancode of
             Some q' \<Rightarrow> Ok (waker_wake (s\<lparr>scancode_queue := Some q'\<rparr>))
           | None \<Rightarrow> Ok s)
      | None \<Rightarrow> Panic (ExplicitPanic ''(KEYBOARD) Scancode queue is uninitialized.''))"

definition scancode_stream_new :: "('q, u8) array_queue \<Rightarrow> ('q, 'w) kb \<Rightarrow> ('q, 'w) kb res" where
  "scancode_stream_new Q s =
     (case scancode_queue s of
        None \<Rightarrow> Ok (s\<lparr>scancode_queue := Some (aq_new Q 100)\<rparr>)
      | Some _ \<Rightarrow> Panic (ExpectFailed ''(KEYBOARD) ScancodeStream::new should only be called once''))"

text \<open>\<open>Poll<Option<u8>>\<close>; the stream never ends, so \<open>Ready(None)\<close> does not occur.\<close>

datatype poll_next = NextReady u8 | NextPending

text \<open>Interrupts that arrive at one point, in order.\<close>

fun add_scancodes :: "('q, u8) array_queue \<Rightarrow> ('q, 'w) kb \<Rightarrow> u8 list \<Rightarrow> ('q, 'w) kb res" where
  "add_scancodes Q s [] = Ok s"
| "add_scancodes Q s (c # cs) = rbind (add_scancode Q s c) (\<lambda>s'. add_scancodes Q s' cs)"

definition kb_pop :: "('q, u8) array_queue \<Rightarrow> ('q, 'w) kb \<Rightarrow> (('q, 'w) kb \<times> u8 option) res" where
  "kb_pop Q s =
     rbind (expect ''(KEYBOARD) scancode queue not initialized'' (scancode_queue s)) (\<lambda>q.
       case aq_pop Q q of
         Some (c, q') \<Rightarrow> Ok (s\<lparr>scancode_queue := Some q'\<rparr>, Some c)
       | None \<Rightarrow> Ok (s, None))"

text \<open>
  \<open>poll_next\<close> with waker \<open>w\<close>; \<open>c1\<close> arrive after the first \<open>pop\<close>, \<open>c2\<close> after the registration, \<open>c3\<close> after the second
  \<open>pop\<close>.
\<close>

definition kb_poll_next ::
  "('q, u8) array_queue \<Rightarrow> u8 list \<Rightarrow> u8 list \<Rightarrow> u8 list \<Rightarrow> ('q, 'w) kb \<Rightarrow> 'w \<Rightarrow> (('q, 'w) kb \<times> poll_next) res" where
  "kb_poll_next Q c1 c2 c3 s w =
     rbind (kb_pop Q s) (\<lambda>(s1, r1).
       case r1 of
         Some c \<Rightarrow> Ok (s1, NextReady c)
       | None \<Rightarrow>
           rbind (add_scancodes Q s1 c1) (\<lambda>s2.
           rbind (add_scancodes Q (s2\<lparr>kb_waker := Some w\<rparr>) c2) (\<lambda>s3.
           rbind (kb_pop Q s3) (\<lambda>(s4, r2).
           rbind (add_scancodes Q s4 c3) (\<lambda>s5.
             case r2 of
               Some c \<Rightarrow> Ok (s5\<lparr>kb_waker := None\<rparr>, NextReady c)
             | None \<Rightarrow> Ok (s5, NextPending))))))"

text \<open>
  \<open>print_keypresses\<close> on the scancodes it reads: \<open>add_byte\<close> and \<open>process_keyevent\<close> of \<open>pc_keyboard\<close> are
  arguments (\<open>None\<close> for an error or no event); a decoded key is a character or a raw key.
\<close>

datatype 'r decoded_key = Unicode nat | RawKey 'r

fun print_keypresses ::
  "('k \<Rightarrow> u8 \<Rightarrow> 'k \<times> 'e option) \<Rightarrow> ('k \<Rightarrow> 'e \<Rightarrow> 'k \<times> 'r decoded_key option) \<Rightarrow> 'k \<Rightarrow> u8 list \<Rightarrow>
   'k \<times> 'r decoded_key list" where
  "print_keypresses add_byte process k [] = (k, [])"
| "print_keypresses add_byte process k (c # cs) =
     (case add_byte k c of
        (k1, Some ev) \<Rightarrow>
          (case process k1 ev of
             (k2, Some key) \<Rightarrow>
               (let (k3, out) = print_keypresses add_byte process k2 cs in (k3, key # out))
           | (k2, None) \<Rightarrow> print_keypresses add_byte process k2 cs)
      | (k1, None) \<Rightarrow> print_keypresses add_byte process k1 cs)"

section \<open>Properties\<close>

definition kb_items :: "('q \<Rightarrow> u8 list) \<Rightarrow> ('q, 'w) kb \<Rightarrow> u8 list" where
  "kb_items items s = (case scancode_queue s of None \<Rightarrow> [] | Some q \<Rightarrow> items q)"

text \<open>A queue that is initialised, with its capacity.\<close>

definition kb_ready :: "('q \<Rightarrow> usize) \<Rightarrow> ('q, 'w) kb \<Rightarrow> bool" where
  "kb_ready cap s \<longleftrightarrow> (\<exists>q. scancode_queue s = Some q \<and> cap q = 100)"

lemma waker_wake_sel [simp]: "scancode_queue (waker_wake s) = scancode_queue s"
  by (simp add: waker_wake_def split: option.splits)

lemma add_scancode_ok:
  assumes "array_queue_ok Q items cap" and "kb_ready cap s"
  shows "\<exists>s'. add_scancode Q s c = Ok s' \<and> kb_ready cap s' \<and>
    kb_items items s' = (if length (kb_items items s) < 100 then kb_items items s @ [c] else kb_items items s) \<and>
    (kb_waker s' \<noteq> kb_waker s \<longrightarrow> kb_items items s' \<noteq> [])"
proof -
  from assms(2) obtain q where q: "scancode_queue s = Some q" "cap q = 100" by (auto simp: kb_ready_def)
  show ?thesis
  proof (cases "length (items q) < 100")
    case True
    with q obtain q' where "aq_push Q q c = Some q'" "items q' = items q @ [c]" "cap q' = 100"
      using aq_push_ok [OF assms(1), of q] by metis
    with q True show ?thesis
      by (auto simp: add_scancode_def kb_ready_def kb_items_def)
  next
    case False
    with q have "aq_push Q q c = None" by (intro aq_push_full [OF assms(1)]) simp
    with q False show ?thesis
      by (auto simp: add_scancode_def kb_ready_def kb_items_def)
  qed
qed

lemma add_scancodes_ok:
  assumes "array_queue_ok Q items cap" and "kb_ready cap s"
  shows "\<exists>s'. add_scancodes Q s cs = Ok s' \<and> kb_ready cap s' \<and>
    kb_items items s' = kb_items items s @ take (100 - length (kb_items items s)) cs \<and>
    (kb_items items s' = [] \<longrightarrow> kb_waker s' = kb_waker s)"
  using assms(2)
proof (induction cs arbitrary: s)
  case Nil
  then show ?case by simp
next
  case (Cons c cs)
  obtain s1 where s1: "add_scancode Q s c = Ok s1" "kb_ready cap s1"
    "kb_items items s1 = (if length (kb_items items s) < 100 then kb_items items s @ [c] else kb_items items s)"
    "kb_waker s1 \<noteq> kb_waker s \<longrightarrow> kb_items items s1 \<noteq> []"
    using add_scancode_ok [OF assms(1) Cons.prems] by blast
  obtain s2 where s2: "add_scancodes Q s1 cs = Ok s2" "kb_ready cap s2"
    "kb_items items s2 = kb_items items s1 @ take (100 - length (kb_items items s1)) cs"
    "kb_items items s2 = [] \<longrightarrow> kb_waker s2 = kb_waker s1"
    using Cons.IH [OF s1(2)] by blast
  have "kb_items items s2 = kb_items items s @ take (100 - length (kb_items items s)) (c # cs)"
  proof (cases "length (kb_items items s) < 100")
    case True
    then have "100 - length (kb_items items s) = Suc (99 - length (kb_items items s))" by simp
    with True s1(3) s2(3) show ?thesis by simp
  qed (use s1(3) s2(3) in simp)
  with s1 s2 show ?case by auto
qed

lemma kb_pop_ok:
  assumes "array_queue_ok Q items cap" and "kb_ready cap s"
  shows "\<exists>s'. kb_pop Q s = Ok (s', case kb_items items s of [] \<Rightarrow> None | c # _ \<Rightarrow> Some c) \<and>
    kb_ready cap s' \<and> kb_items items s' = tl (kb_items items s) \<and> kb_waker s' = kb_waker s"
proof -
  from assms(2) obtain q where q: "scancode_queue s = Some q" "cap q = 100" by (auto simp: kb_ready_def)
  show ?thesis
  proof (cases "items q")
    case Nil
    with q aq_pop_Nil [OF assms(1)] show ?thesis by (simp add: kb_pop_def kb_items_def kb_ready_def)
  next
    case (Cons c cs)
    with q obtain q' where "aq_pop Q q = Some (c, q')" "items q' = cs" "cap q' = 100"
      using aq_pop_Cons [OF assms(1), of q c cs] by metis
    with q Cons show ?thesis by (simp add: kb_pop_def kb_items_def kb_ready_def)
  qed
qed

lemma add_scancodes_woken: "add_scancodes Q s cs = Ok s' \<Longrightarrow> set (kb_woken s) \<subseteq> set (kb_woken s')"
proof (induction cs arbitrary: s)
  case (Cons c cs)
  then obtain s1 where s1: "add_scancode Q s c = Ok s1" "add_scancodes Q s1 cs = Ok s'" by (auto simp: res_iff)
  have "set (kb_woken s) \<subseteq> set (kb_woken s1)"
    using s1(1) by (auto simp: add_scancode_def waker_wake_def split: option.splits)
  with Cons.IH [OF s1(2)] show ?case by blast
qed simp

text \<open>The first scancode put into an empty queue wakes the waker that is registered.\<close>

lemma add_scancodes_wake:
  assumes "array_queue_ok Q items cap" "kb_ready cap s" "kb_items items s = []" "kb_waker s = Some w" "cs \<noteq> []" "add_scancodes Q s cs = Ok s'"
  shows "w \<in> set (kb_woken s')"
proof -
  obtain c cs' where cs: "cs = c # cs'" using assms(5) by (cases cs) auto
  obtain q where q: "scancode_queue s = Some q" "cap q = 100" "items q = []" using assms(2,3) by (auto simp: kb_ready_def kb_items_def)
  from q(2,3) have "length (items q) < cap q" by simp
  then obtain q' where "aq_push Q q c = Some q'" by (rule aq_push_ok [OF assms(1)])
  with q(1) have "add_scancode Q s c = Ok (waker_wake (s\<lparr>scancode_queue := Some q'\<rparr>))" by (simp add: add_scancode_def)
  moreover have "w \<in> set (kb_woken (waker_wake (s\<lparr>scancode_queue := Some q'\<rparr>)))" using assms(4) by (simp add: waker_wake_def)
  moreover have "add_scancodes Q (waker_wake (s\<lparr>scancode_queue := Some q'\<rparr>)) cs' = Ok s'"
    using assms(6) calculation(1) unfolding cs by simp
  ultimately show ?thesis using add_scancodes_woken by blast
qed

text \<open>
  C17. A poll of the scancode stream loses no key and no wake-up, whatever interrupts arrive while it
  runs: it returns the oldest scancode of those queued or arriving before it looks for the last time, in order, and
  leaves the others queued, with those that arrive later (a scancode is dropped only when 100 are waiting); and if it
  returns pending, then either nothing is queued and the caller's waker is registered, so that the next scancode wakes it,
  or what arrived after the last look has already woken it.
\<close>

theorem poll_next_no_lost_key:
  assumes "array_queue_ok Q items cap" and "kb_ready cap s"
  shows "\<exists>s' r. kb_poll_next Q c1 c2 c3 s w = Ok (s', r) \<and>
    (case r of
       NextReady c \<Rightarrow> c # kb_items items s' =
         (if kb_items items s = [] then take 100 (c1 @ c2) @ take (101 - length (take 100 (c1 @ c2))) c3 else kb_items items s)
     | NextPending \<Rightarrow> kb_items items s = [] \<and> c1 = [] \<and> c2 = [] \<and> kb_items items s' = take 100 c3 \<and>
         (if c3 = [] then kb_waker s' = Some w else w \<in> set (kb_woken s')))"
proof -
  obtain s1 where s1: "kb_pop Q s = Ok (s1, case kb_items items s of [] \<Rightarrow> None | c # _ \<Rightarrow> Some c)"
    "kb_ready cap s1" "kb_items items s1 = tl (kb_items items s)"
    using kb_pop_ok [OF assms] by blast
  show ?thesis
  proof (cases "kb_items items s")
    case (Cons c cs)
    with s1 show ?thesis by (simp add: kb_poll_next_def)
  next
    case Nil
    obtain s2 where s2: "add_scancodes Q s1 c1 = Ok s2" "kb_ready cap s2" "kb_items items s2 = take 100 c1"
      using add_scancodes_ok [OF assms(1) s1(2), of c1] s1(3) Nil by auto
    have s2': "kb_ready cap (s2\<lparr>kb_waker := Some w\<rparr>)" "kb_items items (s2\<lparr>kb_waker := Some w\<rparr>) = take 100 c1"
      using s2 by (simp_all add: kb_ready_def kb_items_def)
    obtain s3 where s3: "add_scancodes Q (s2\<lparr>kb_waker := Some w\<rparr>) c2 = Ok s3" "kb_ready cap s3"
      "kb_items items s3 = take 100 (c1 @ c2)" "kb_items items s3 = [] \<longrightarrow> kb_waker s3 = Some w"
    proof -
      have "100 - length (take 100 c1) = 100 - length c1" by simp
      then have "take 100 c1 @ take (100 - length (take 100 c1)) c2 = take 100 (c1 @ c2)"
        by (simp only: take_append)
      with add_scancodes_ok [OF assms(1) s2'(1), of c2] s2'(2) that show thesis by force
    qed
    obtain s4 where s4: "kb_pop Q s3 = Ok (s4, case kb_items items s3 of [] \<Rightarrow> None | c # _ \<Rightarrow> Some c)"
      "kb_ready cap s4" "kb_items items s4 = tl (kb_items items s3)" "kb_waker s4 = kb_waker s3"
      using kb_pop_ok [OF assms(1) s3(2)] by blast
    obtain s5 where s5: "add_scancodes Q s4 c3 = Ok s5" "kb_items items s5 = kb_items items s4 @ take (100 - length (kb_items items s4)) c3"
      "kb_items items s5 = [] \<longrightarrow> kb_waker s5 = kb_waker s4"
      using add_scancodes_ok [OF assms(1) s4(2), of c3] by blast
    show ?thesis
    proof (cases "kb_items items s3")
      case N: Nil
      have "c1 = []" "c2 = []" using s3(3) N by auto
      moreover have "kb_poll_next Q c1 c2 c3 s w = Ok (s5, NextPending)"
        using s1(1) s2(1) s3(1) s4(1) s5(1) Nil N by (simp add: kb_poll_next_def)
      moreover have "kb_items items s4 = []" "kb_waker s4 = Some w" using s3(4) s4(3,4) N by simp_all
      ultimately show ?thesis
        using Nil s5 add_scancodes_wake [OF assms(1) s4(2) _ _ _ s5(1)] by (intro exI [of _ s5] exI [of _ NextPending]) auto
    next
      case (Cons c cs)
      have "kb_poll_next Q c1 c2 c3 s w = Ok (s5\<lparr>kb_waker := None\<rparr>, NextReady c)"
        using s1(1) s2(1) s3(1) s4(1) s5(1) Nil by (simp add: kb_poll_next_def Cons)
      moreover have "kb_items items (s5\<lparr>kb_waker := None\<rparr>) = cs @ take (100 - length cs) c3"
        using s5(2) s4(3) Cons by (simp add: kb_items_def)
      moreover have "c # cs = take 100 (c1 @ c2)" using s3(3) Cons by simp
      moreover from this have "length (take 100 (c1 @ c2)) = Suc (length cs)" by (metis length_Cons)
      ultimately show ?thesis
        using Nil by (intro exI [of _ "s5\<lparr>kb_waker := None\<rparr>"] exI [of _ "NextReady c"]) simp
    qed
  qed
qed

theorem poll_next_no_lost_key_witness:
  "\<exists>s' r. kb_poll_next list_queue [] [] [31] \<lparr>scancode_queue = Some (100, []), kb_waker = None, kb_woken = []\<rparr> () = Ok (s', r) \<and>
     (r = NextPending \<longrightarrow> kb_items snd s' = [31] \<and> () \<in> set (kb_woken s'))"
proof -
  let ?s = "\<lparr>scancode_queue = Some (100, []), kb_waker = None, kb_woken = []\<rparr> :: (nat \<times> u8 list, unit) kb"
  have "kb_ready fst ?s" by (simp add: kb_ready_def)
  from poll_next_no_lost_key [OF list_queue_ok this, of "[]" "[]" "[31]" "()"] obtain s' r where
    r: "kb_poll_next list_queue [] [] [31] ?s () = Ok (s', r)"
    "case r of NextReady c \<Rightarrow> c # kb_items snd s' = (if kb_items snd ?s = [] then take 100 ([] @ []) @ take (101 - length (take 100 ([] @ [] :: u8 list))) [31] else kb_items snd ?s)
     | NextPending \<Rightarrow> kb_items snd ?s = [] \<and> ([] :: u8 list) = [] \<and> ([] :: u8 list) = [] \<and> kb_items snd s' = take 100 [31] \<and>
         (if [31] = ([] :: u8 list) then kb_waker s' = Some () else () \<in> set (kb_woken s'))"
    by blast
  then show ?thesis by (intro exI [of _ s'] exI [of _ r]) (cases r; simp)
qed

end
