(* ===== verification/Framebuffer.thy ===== *)
theory Framebuffer
  imports Prelude
begin

text \<open>
  Drawing on the framebuffer (\<open>Framebuffer\<close> in \<open>kernel/src/display.rs\<close>). The framebuffer of the boot
  information is its dimensions, its pixel format and its bytes. The abstract view of a framebuffer is
  an image, a function from coordinates to colours; every drawing operation is shown to be a sequence
  of \<open>put_pixel\<close>, and \<open>put_pixel\<close> to update exactly one pixel of the image.
\<close>

section \<open>Model\<close>

type_synonym rgb = "u8 \<times> u8 \<times> u8"
type_synonym rgba = "u8 \<times> u8 \<times> u8 \<times> u8"

text \<open>\<open>PixelFormat\<close> of \<open>bootloader_api\<close>; the kernel ignores every other format.\<close>

datatype pixel_format = PixRgb | PixBgr | PixU8 | PixOther

record framebuffer =
  fb_width :: usize
  fb_height :: usize
  fb_stride :: usize
  fb_bpp :: usize
  fb_format :: pixel_format
  fb_buf :: "u8 list"

text \<open>Three writes \<open>buf[o] = a; buf[o + 1] = b; buf[o + 2] = c\<close>.\<close>

definition store3 :: "u8 list \<Rightarrow> usize \<Rightarrow> u8 \<Rightarrow> u8 \<Rightarrow> u8 \<Rightarrow> u8 list res" where
  "store3 buf off a b c =
     rbind (store buf off a) (\<lambda>b1.
     rbind (uadd off 1) (\<lambda>o1. rbind (store b1 o1 b) (\<lambda>b2.
     rbind (uadd off 2) (\<lambda>o2. store b2 o2 c))))"

definition put_pixel :: "framebuffer \<Rightarrow> usize \<Rightarrow> usize \<Rightarrow> rgb \<Rightarrow> framebuffer res" where
  "put_pixel fb x y color =
     (if x \<ge> fb_width fb \<or> y \<ge> fb_height fb then Ok fb
      else rbind (umul y (fb_stride fb)) (\<lambda>ys.
        rbind (uadd ys x) (\<lambda>pixel_index.
        rbind (umul pixel_index (fb_bpp fb)) (\<lambda>byte_offset.
          case color of (c0, c1, c2) \<Rightarrow>
            (case fb_format fb of
               PixRgb \<Rightarrow> rbind (store3 (fb_buf fb) byte_offset c0 c1 c2) (\<lambda>buf. Ok (fb\<lparr>fb_buf := buf\<rparr>))
             | PixBgr \<Rightarrow> rbind (store3 (fb_buf fb) byte_offset c2 c1 c0) (\<lambda>buf. Ok (fb\<lparr>fb_buf := buf\<rparr>))
             | PixU8 \<Rightarrow> rbind (store (fb_buf fb) byte_offset c0) (\<lambda>buf. Ok (fb\<lparr>fb_buf := buf\<rparr>))
             | PixOther \<Rightarrow> Ok fb)))))"

text \<open>The average of a colour, computed in \<open>u8\<close>.\<close>

definition gray_of :: "rgb \<Rightarrow> u8 res" where
  "gray_of color =
     (case color of (c0, c1, c2) \<Rightarrow>
        rbind (u8add c0 c1) (\<lambda>s. rbind (u8add s c2) (\<lambda>t. Ok (t div 3))))"

definition clear_pixel :: "framebuffer \<Rightarrow> rgb \<Rightarrow> usize \<Rightarrow> usize \<Rightarrow> u8 list \<Rightarrow> u8 list res" where
  "clear_pixel info color y x buf =
     rbind (umul y (fb_stride info)) (\<lambda>ys.
     rbind (uadd ys x) (\<lambda>pixel_index.
     rbind (umul pixel_index (fb_bpp info)) (\<lambda>byte_offset.
       case color of (c0, c1, c2) \<Rightarrow>
         (case fb_format info of
            PixRgb \<Rightarrow> store3 buf byte_offset c0 c1 c2
          | PixBgr \<Rightarrow> store3 buf byte_offset c2 c1 c0
          | PixU8 \<Rightarrow> rbind (gray_of color) (\<lambda>g. store buf byte_offset g)
          | PixOther \<Rightarrow> Ok buf))))"

definition clear_screen :: "framebuffer \<Rightarrow> rgb \<Rightarrow> framebuffer res" where
  "clear_screen fb color =
     (case fb_format fb of
        PixOther \<Rightarrow> Ok fb
      | _ \<Rightarrow> rbind (rfold (\<lambda>y. rfold (\<lambda>x. clear_pixel fb color y x) [0..<fb_width fb])
                [0..<fb_height fb] (fb_buf fb)) (\<lambda>buf. Ok (fb\<lparr>fb_buf := buf\<rparr>)))"

text \<open>One line of \<open>draw_rect\<close>: three bytes per pixel in the colour formats, one in \<open>U8\<close>.\<close>

definition rect_line :: "framebuffer \<Rightarrow> rgb \<Rightarrow> usize \<Rightarrow> usize \<Rightarrow> usize \<Rightarrow> u8 list \<Rightarrow> u8 list res" where
  "rect_line info color x w line_y buf =
     rbind (umul line_y (fb_stride info)) (\<lambda>ys.
     rbind (uadd ys x) (\<lambda>p.
       case color of (c0, c1, c2) \<Rightarrow>
         (case fb_format info of
            PixRgb \<Rightarrow> rbind (umul p 3) (\<lambda>start_idx. rfold (\<lambda>i b.
              rbind (umul i 3) (\<lambda>i3. rbind (uadd start_idx i3) (\<lambda>off. store3 b off c0 c1 c2))) [0..<w] buf)
          | PixBgr \<Rightarrow> rbind (umul p 3) (\<lambda>start_idx. rfold (\<lambda>i b.
              rbind (umul i 3) (\<lambda>i3. rbind (uadd start_idx i3) (\<lambda>off. store3 b off c2 c1 c0))) [0..<w] buf)
          | PixU8 \<Rightarrow> rbind (gray_of color) (\<lambda>g. rfold (\<lambda>i b.
              rbind (uadd p i) (\<lambda>off. store b off g)) [0..<w] buf)
          | PixOther \<Rightarrow> Ok buf)))"

definition draw_rect :: "framebuffer \<Rightarrow> usize \<Rightarrow> usize \<Rightarrow> usize \<Rightarrow> usize \<Rightarrow> rgb \<Rightarrow> framebuffer res" where
  "draw_rect fb x y w h color =
     (if x \<ge> fb_width fb \<or> y \<ge> fb_height fb then Ok fb
      else rbind (uadd x w) (\<lambda>xe.
        if xe \<le> x then Ok fb
        else rbind (uadd y h) (\<lambda>ye.
          if ye \<le> y then Ok fb
          else rbind (usub (fb_width fb) w) (\<lambda>mx.
            rbind (usub (fb_height fb) h) (\<lambda>my.
              let x = min x mx; y = min y my
              in case fb_format fb of
                   PixOther \<Rightarrow> Ok fb
                 | _ \<Rightarrow> rbind (rfold (rect_line fb color x w) [y..<y + h] (fb_buf fb))
                     (\<lambda>buf. Ok (fb\<lparr>fb_buf := buf\<rparr>)))))))"

definition draw_bitmap ::
  "framebuffer \<Rightarrow> rgba list \<Rightarrow> usize \<Rightarrow> usize \<Rightarrow> usize \<Rightarrow> usize \<Rightarrow> framebuffer res" where
  "draw_bitmap fb bitmap width height x y =
     (let mw = min (fb_width fb - x) width; mh = min (fb_height fb - y) height
      in if mw = 0 \<or> mh = 0 then Ok fb
         else rfold (\<lambda>row fb.
           rbind (umul row width) (\<lambda>base_index.
             rfold (\<lambda>col fb.
               rbind (uadd base_index col) (\<lambda>pixel_index.
                 if pixel_index < length bitmap
                 then (case bitmap ! pixel_index of (r, g, b, a) \<Rightarrow>
                   if a \<noteq> 0
                   then rbind (uadd x col) (\<lambda>px. rbind (uadd y row) (\<lambda>py. put_pixel fb px py (r, g, b)))
                   else Ok fb)
                 else Ok fb)) [0..<mw] fb)) [0..<mh] fb)"

text \<open>The offsets of the faces, in the order they are drawn.\<close>

definition face_eyes :: "(usize \<times> usize) list" where
  "face_eyes = [(1, 0), (1, 1), (5, 0), (5, 1)]"

definition draw_points :: "framebuffer \<Rightarrow> (usize \<times> usize) list \<Rightarrow> usize \<Rightarrow> usize \<Rightarrow> rgb \<Rightarrow> framebuffer res" where
  "draw_points fb ps x y color =
     rfold (\<lambda>(dx, dy) fb. rbind (uadd x dx) (\<lambda>px. rbind (uadd y dy) (\<lambda>py. put_pixel fb px py color))) ps fb"

definition draw_smiley :: "framebuffer \<Rightarrow> usize \<Rightarrow> usize \<Rightarrow> rgba \<Rightarrow> framebuffer res" where
  "draw_smiley fb x y color =
     (case color of (r, g, b, a) \<Rightarrow>
        if a = 0 then Ok fb
        else draw_points fb (face_eyes @ [(0, 4), (1, 5), (2, 5), (3, 5), (4, 5), (5, 5), (6, 4)]) x y (r, g, b))"

definition draw_sad_face :: "framebuffer \<Rightarrow> usize \<Rightarrow> usize \<Rightarrow> rgba \<Rightarrow> framebuffer res" where
  "draw_sad_face fb x y color =
     (case color of (r, g, b, a) \<Rightarrow>
        if a = 0 then Ok fb
        else draw_points fb (face_eyes @ [(0, 5), (1, 4), (2, 4), (3, 4), (4, 4), (5, 4), (6, 5)]) x y (r, g, b))"

definition resolution :: "framebuffer \<Rightarrow> usize \<times> usize" where
  "resolution fb = (fb_width fb, fb_height fb)"

section \<open>The image of a framebuffer\<close>

text \<open>A framebuffer in a colour format whose lines and pixels fit into its buffer.\<close>

definition fb_ok :: "framebuffer \<Rightarrow> bool" where
  "fb_ok fb \<longleftrightarrow> fb_format fb \<in> {PixRgb, PixBgr} \<and> fb_width fb \<le> fb_stride fb \<and> 3 \<le> fb_bpp fb \<and>
     fb_height fb * fb_stride fb * fb_bpp fb \<le> length (fb_buf fb) \<and> length (fb_buf fb) \<le> isize_max"

definition px_off :: "framebuffer \<Rightarrow> usize \<Rightarrow> usize \<Rightarrow> usize" where
  "px_off fb x y = (y * fb_stride fb + x) * fb_bpp fb"

definition pixel :: "framebuffer \<Rightarrow> usize \<Rightarrow> usize \<Rightarrow> rgb" where
  "pixel fb x y =
     (let b = fb_buf fb; off = px_off fb x y
      in if fb_format fb = PixBgr then (b ! (off + 2), b ! (off + 1), b ! off)
         else (b ! off, b ! (off + 1), b ! (off + 2)))"

definition visible :: "framebuffer \<Rightarrow> usize \<Rightarrow> usize \<Rightarrow> bool" where
  "visible fb x y \<longleftrightarrow> x < fb_width fb \<and> y < fb_height fb"

definition same_shape :: "framebuffer \<Rightarrow> framebuffer \<Rightarrow> bool" where
  "same_shape fb fb' \<longleftrightarrow> fb_width fb' = fb_width fb \<and> fb_height fb' = fb_height fb \<and>
     fb_stride fb' = fb_stride fb \<and> fb_bpp fb' = fb_bpp fb \<and> fb_format fb' = fb_format fb \<and>
     length (fb_buf fb') = length (fb_buf fb)"

lemma same_shape_ok: "same_shape fb fb' \<Longrightarrow> fb_ok fb' = fb_ok fb"
  by (simp add: same_shape_def fb_ok_def)

lemma same_shape_refl [simp]: "same_shape fb fb"
  by (simp add: same_shape_def)

lemma same_shape_trans: "same_shape a b \<Longrightarrow> same_shape b c \<Longrightarrow> same_shape a c"
  by (simp add: same_shape_def)

lemma same_shape_visible: "same_shape fb fb' \<Longrightarrow> visible fb' x y = visible fb x y"
  by (simp add: same_shape_def visible_def)

lemma px_off_bound:
  assumes "fb_ok fb" and "visible fb x y"
  shows "px_off fb x y + 3 \<le> length (fb_buf fb)"
    and "y * fb_stride fb + x \<le> isize_max" and "y * fb_stride fb \<le> isize_max"
proof -
  let ?s = "fb_stride fb" and ?b = "fb_bpp fb"
  have x: "x < ?s" and y: "Suc y \<le> fb_height fb"
    using assms by (auto simp: fb_ok_def visible_def)
  have "y * ?s + x + 1 \<le> Suc y * ?s" using x by simp
  also have "\<dots> \<le> fb_height fb * ?s" using y by (rule mult_le_mono1)
  finally have le: "y * ?s + x + 1 \<le> fb_height fb * ?s" .
  have "px_off fb x y + ?b = (y * ?s + x + 1) * ?b" by (simp add: px_off_def algebra_simps)
  also have "\<dots> \<le> fb_height fb * ?s * ?b" using le by (rule mult_le_mono1)
  also have "\<dots> \<le> length (fb_buf fb)" using assms(1) by (simp add: fb_ok_def)
  finally have tot: "px_off fb x y + ?b \<le> length (fb_buf fb)" .
  have b3: "3 \<le> ?b" using assms(1) by (simp add: fb_ok_def)
  with tot show "px_off fb x y + 3 \<le> length (fb_buf fb)" by linarith
  have "y * ?s + x \<le> px_off fb x y"
    unfolding px_off_def using b3 mult_le_mono2 [of 1 ?b "y * ?s + x"] by simp
  with tot assms(1) show "y * ?s + x \<le> isize_max" and "y * ?s \<le> isize_max"
    unfolding fb_ok_def by linarith+
qed

lemma px_off_disjoint:
  assumes "fb_ok fb" and "visible fb x y" and "visible fb x' y'" and "(x, y) \<noteq> (x', y')"
  shows "px_off fb x y + 3 \<le> px_off fb x' y' \<or> px_off fb x' y' + 3 \<le> px_off fb x y"
proof -
  let ?s = "fb_stride fb" and ?b = "fb_bpp fb"
  have lt: "x < ?s" "x' < ?s" and b3: "3 \<le> ?b"
    using assms(1-3) by (auto simp: fb_ok_def visible_def)
  have "y * ?s + x \<noteq> y' * ?s + x'"
  proof
    assume eq: "y * ?s + x = y' * ?s + x'"
    have "x = (y * ?s + x) mod ?s" "y = (y * ?s + x) div ?s"
      "x' = (y' * ?s + x') mod ?s" "y' = (y' * ?s + x') div ?s" using lt by simp_all
    with eq assms(4) show False by metis
  qed
  then consider "y * ?s + x + 1 \<le> y' * ?s + x'" | "y' * ?s + x' + 1 \<le> y * ?s + x" by linarith
  then show ?thesis
  proof cases
    case 1
    from mult_le_mono1 [OF this, of ?b] b3 show ?thesis by (simp add: px_off_def algebra_simps)
  next
    case 2
    from mult_le_mono1 [OF this, of ?b] b3 show ?thesis by (simp add: px_off_def algebra_simps)
  qed
qed

text \<open>The bytes of a pixel in the order of the format.\<close>

definition px_write :: "framebuffer \<Rightarrow> usize \<Rightarrow> usize \<Rightarrow> rgb \<Rightarrow> framebuffer" where
  "px_write fb x y color =
     (case color of (c0, c1, c2) \<Rightarrow>
        let off = px_off fb x y; b = fb_buf fb
        in fb\<lparr>fb_buf := (if fb_format fb = PixBgr then b[off := c2, off + 1 := c1, off + 2 := c0]
                        else b[off := c0, off + 1 := c1, off + 2 := c2])\<rparr>)"

lemma store3_ok: "off + 3 \<le> length buf \<Longrightarrow> length buf \<le> isize_max \<Longrightarrow>
    store3 buf off a b c = Ok (buf[off := a, off + 1 := b, off + 2 := c])"
  by (simp add: store3_def)

lemma put_pixel_visible:
  assumes "fb_ok fb" and "visible fb x y"
  shows "put_pixel fb x y c = Ok (px_write fb x y c)"
proof -
  obtain c0 c1 c2 where c: "c = (c0, c1, c2)" by (cases c)
  note bound = px_off_bound [OF assms]
  have len: "length (fb_buf fb) \<le> isize_max" and fmt: "fb_format fb \<in> {PixRgb, PixBgr}"
    using assms(1) by (simp_all add: fb_ok_def)
  have "umul y (fb_stride fb) = Ok (y * fb_stride fb)"
    "uadd (y * fb_stride fb) x = Ok (y * fb_stride fb + x)"
    "umul (y * fb_stride fb + x) (fb_bpp fb) = Ok (px_off fb x y)"
    using bound len by (simp_all add: px_off_def)
  then show ?thesis
    using assms(2) bound(1) len fmt
    by (auto simp: put_pixel_def c visible_def px_write_def store3_ok Let_def)
qed

lemma px_write_shape: "same_shape fb (px_write fb x y c)"
  by (cases c) (simp add: px_write_def same_shape_def Let_def)

lemma pixel_px_write:
  assumes "fb_ok fb" and "visible fb x y" and "visible fb x' y'"
  shows "pixel (px_write fb x y c) x' y' = (if (x', y') = (x, y) then c else pixel fb x' y')"
proof -
  obtain c0 c1 c2 where c: "c = (c0, c1, c2)" by (cases c)
  let ?o = "px_off fb x y" and ?o' = "px_off fb x' y'"
  have off: "px_off (px_write fb x y c) x' y' = ?o'" and fmt: "fb_format (px_write fb x y c) = fb_format fb"
    by (simp_all add: px_write_def c px_off_def Let_def)
  note b = px_off_bound(1) [OF assms(1,2)]
  show ?thesis
  proof (cases "(x', y') = (x, y)")
    case True
    with b off fmt show ?thesis
      by (auto simp: pixel_def px_write_def c Let_def nth_list_update)
  next
    case False
    then have far: "?o + 3 \<le> ?o' \<or> ?o' + 3 \<le> ?o"
      using px_off_disjoint [OF assms] by auto
    have "(fb_buf fb)[?o := u, ?o + 1 := v, ?o + 2 := w] ! (?o' + i) = fb_buf fb ! (?o' + i)"
      if "i < 3" for i u v w
      using far that by (subst nth_list_update_neq, linarith)+ simp
    from this [of 0] this [of 1] this [of 2] have
      keep: "fb_buf (px_write fb x y c) ! (?o' + i) = fb_buf fb ! (?o' + i)" if "i < 3" for i
      using that by (auto simp: px_write_def c Let_def less_Suc_eq numeral_eq_Suc)
    from keep [of 0] keep [of 1] keep [of 2] have "pixel (px_write fb x y c) x' y' = pixel fb x' y'"
      unfolding pixel_def Let_def off fmt by simp
    with False show ?thesis by auto
  qed
qed

text \<open>A list of points as drawn one after the other, and what it makes of an image.\<close>

definition put_all :: "(usize \<times> usize \<times> rgb) list \<Rightarrow> framebuffer \<Rightarrow> framebuffer res" where
  "put_all = rfold (\<lambda>(x, y, c) fb. put_pixel fb x y c)"

definition paint :: "(usize \<times> usize \<times> rgb) list \<Rightarrow> (usize \<Rightarrow> usize \<Rightarrow> rgb) \<Rightarrow> usize \<Rightarrow> usize \<Rightarrow> rgb" where
  "paint ps img x y = fold (\<lambda>(px, py, c) old. if (px, py) = (x, y) then c else old) ps (img x y)"

lemma put_all_paints:
  assumes "fb_ok fb"
  shows "\<exists>fb'. put_all ps fb = Ok fb' \<and> same_shape fb fb' \<and>
    (\<forall>x y. visible fb x y \<longrightarrow> pixel fb' x y = paint ps (pixel fb) x y)"
  using assms
proof (induction ps arbitrary: fb)
  case Nil
  then show ?case by (simp add: put_all_def paint_def)
next
  case (Cons p ps)
  obtain px py c where p: "p = (px, py, c)" by (cases p)
  show ?case
  proof (cases "visible fb px py")
    case True
    let ?fb1 = "px_write fb px py c"
    have sh: "same_shape fb ?fb1" by (rule px_write_shape)
    with Cons.prems have "fb_ok ?fb1" by (simp add: same_shape_ok)
    from Cons.IH [OF this] obtain fb' where fb': "put_all ps ?fb1 = Ok fb'" "same_shape ?fb1 fb'"
      "\<And>x y. visible ?fb1 x y \<Longrightarrow> pixel fb' x y = paint ps (pixel ?fb1) x y" by blast
    have "pixel fb' x y = paint (p # ps) (pixel fb) x y" if "visible fb x y" for x y
      using fb'(3) [of x y] that pixel_px_write [OF Cons.prems True that, of c] same_shape_visible [OF sh]
      by (auto simp: paint_def p)
    with fb' put_pixel_visible [OF Cons.prems True] same_shape_trans [OF sh] show ?thesis
      by (auto simp: put_all_def p)
  next
    case False
    then have "put_pixel fb px py c = Ok fb" by (auto simp: put_pixel_def visible_def)
    moreover have "paint (p # ps) (pixel fb) x y = paint ps (pixel fb) x y" if "visible fb x y" for x y
      using False that by (auto simp: paint_def p)
    ultimately show ?thesis using Cons.IH [OF Cons.prems] by (auto simp: put_all_def p)
  qed
qed

text \<open>When the points agree with a picture \<open>F\<close>, painting them copies \<open>F\<close> onto the points.\<close>

definition points_of :: "(usize \<times> usize \<times> rgb) list \<Rightarrow> (usize \<times> usize) set" where
  "points_of ps = (\<lambda>(px, py, c). (px, py)) ` set ps"

lemma paint_picture:
  assumes "\<And>px py c. (px, py, c) \<in> set ps \<Longrightarrow> c = F px py"
  shows "paint ps img x y = (if (x, y) \<in> points_of ps then F x y else img x y)"
proof -
  have "fold (\<lambda>(px, py, c) old. if (px, py) = (x, y) then c else old) ps old =
      (if (x, y) \<in> points_of ps then F x y else old)" for old
    using assms
  proof (induction ps arbitrary: old)
    case Nil
    show ?case by (simp add: points_of_def)
  next
    case (Cons p ps)
    obtain px py c where p: "p = (px, py, c)" by (cases p)
    have "c = F px py" using Cons.prems p by simp
    moreover have "fold (\<lambda>(px, py, c) old. if (px, py) = (x, y) then c else old) ps old' =
        (if (x, y) \<in> points_of ps then F x y else old')" for old'
      by (rule Cons.IH) (use Cons.prems in simp)
    moreover have "points_of (p # ps) = insert (px, py) (points_of ps)" by (simp add: points_of_def p)
    ultimately show ?case by (cases "(px, py) = (x, y)") (auto simp: p)
  qed
  then show ?thesis by (simp add: paint_def)
qed

lemma clear_screen_points:
  assumes "fb_ok fb"
  shows "clear_screen fb c =
    put_all (concat (map (\<lambda>y. map (\<lambda>x. (x, y, c)) [0..<fb_width fb]) [0..<fb_height fb])) fb"
proof -
  let ?I = "\<lambda>buf. length buf = length (fb_buf fb)"
  have fmt: "fb_format fb \<in> {PixRgb, PixBgr}" using assms by (simp add: fb_ok_def)
  have keep: "?I buf'" if "clear_pixel fb c y x buf = Ok buf'" "?I buf" for x y buf buf'
    using that fmt by (cases c) (auto simp: clear_pixel_def store3_def res_iff)
  have one: "put_pixel (fb\<lparr>fb_buf := buf\<rparr>) x y c = rbind (clear_pixel fb c y x buf) (\<lambda>b. Ok (fb\<lparr>fb_buf := b\<rparr>))"
    if "x < fb_width fb" "y < fb_height fb" for x y buf
    using that fmt by (cases c) (auto simp: put_pixel_def clear_pixel_def rbind_assoc)
  have row: "rfold (\<lambda>x fb. put_pixel fb x y c) [0..<fb_width fb] (fb\<lparr>fb_buf := buf\<rparr>) =
      rbind (rfold (clear_pixel fb c y) [0..<fb_width fb] buf) (\<lambda>b. Ok (fb\<lparr>fb_buf := b\<rparr>))"
    if "y < fb_height fb" "?I buf" for y buf
    by (rule rfold_lift [where I = ?I and h = "\<lambda>b. fb\<lparr>fb_buf := b\<rparr>"])
      (use one keep that in auto)
  have rowI: "?I buf'" if "rfold (clear_pixel fb c y) xs buf = Ok buf'" "?I buf" for xs y buf buf'
    using that by (induction xs arbitrary: buf) (auto simp: res_iff dest: keep)
  have "rfold (\<lambda>y. rfold (\<lambda>x fb. put_pixel fb x y c) [0..<fb_width fb]) [0..<fb_height fb] (fb\<lparr>fb_buf := fb_buf fb\<rparr>) =
      rbind (rfold (\<lambda>y. rfold (clear_pixel fb c y) [0..<fb_width fb]) [0..<fb_height fb] (fb_buf fb))
        (\<lambda>b. Ok (fb\<lparr>fb_buf := b\<rparr>))"
    by (rule rfold_lift [where I = ?I and h = "\<lambda>b. fb\<lparr>fb_buf := b\<rparr>"]) (use row rowI in auto)
  moreover have "fb\<lparr>fb_buf := fb_buf fb\<rparr> = fb" by simp
  ultimately show ?thesis
    using fmt by (auto simp: clear_screen_def put_all_def rfold_concat_map rfold_map)
qed

text \<open>The points that \<open>draw_bitmap\<close> draws, row by row.\<close>

definition bitmap_at :: "rgba list \<Rightarrow> usize \<Rightarrow> usize \<Rightarrow> usize \<Rightarrow> rgb option" where
  "bitmap_at bitmap width col row =
     (if row * width + col < length bitmap
      then (case bitmap ! (row * width + col) of (r, g, b, a) \<Rightarrow> if a \<noteq> 0 then Some (r, g, b) else None)
      else None)"

definition bitmap_row :: "rgba list \<Rightarrow> usize \<Rightarrow> usize \<Rightarrow> usize \<Rightarrow> usize \<Rightarrow> usize \<Rightarrow> (usize \<times> usize \<times> rgb) list" where
  "bitmap_row bitmap width mw x y row =
     concat (map (\<lambda>col. case bitmap_at bitmap width col row of
       None \<Rightarrow> [] | Some c \<Rightarrow> [(x + col, y + row, c)]) [0..<mw])"

lemma draw_bitmap_points:
  assumes "fb_ok fb" and "width * height < usize_bound" and "fb_width fb \<le> isize_max" and "fb_height fb \<le> isize_max"
  shows "draw_bitmap fb bitmap width height x y =
    put_all (concat (map (bitmap_row bitmap width (min (fb_width fb - x) width) x y)
      [0..<min (fb_height fb - y) height])) fb"
proof -
  define mw mh where "mw = min (fb_width fb - x) width" and "mh = min (fb_height fb - y) height"
  have step: "rbind (uadd (row * width) col) (\<lambda>pixel_index.
        if pixel_index < length bitmap
        then (case bitmap ! pixel_index of (r, g, b, a) \<Rightarrow>
          if a \<noteq> 0 then rbind (uadd x col) (\<lambda>px. rbind (uadd y row) (\<lambda>py. put_pixel fb' px py (r, g, b)))
          else Ok fb')
        else Ok fb') =
      put_all (case bitmap_at bitmap width col row of None \<Rightarrow> [] | Some c \<Rightarrow> [(x + col, y + row, c)]) fb'"
    if "row < mh" "col < mw" for row col fb'
  proof -
    have "x + col \<le> isize_max" "y + row \<le> isize_max" "col < width" "row < height"
      using that assms(3,4) unfolding mw_def mh_def by linarith+
    moreover have "row * width + col < width * height"
    proof -
      have "row * width + col < Suc row * width" using \<open>col < width\<close> by simp
      also have "\<dots> \<le> height * width" using \<open>row < height\<close> by (intro mult_le_mono1) simp
      finally show ?thesis by (simp add: mult.commute)
    qed
    ultimately show ?thesis
      using assms(2) by (auto simp: bitmap_at_def put_all_def rbind_def split: prod.splits res.splits)
  qed
  have mul: "umul row width = Ok (row * width)" if "row < mh" for row
  proof (rule umul_ok)
    have "row * width \<le> height * width" using that unfolding mh_def by (intro mult_le_mono1) simp
    then show "row * width < usize_bound" using assms(2) by (simp only: mult.commute [of width])
  qed
  have "draw_bitmap fb bitmap width height x y =
      rfold (\<lambda>row. rfold (\<lambda>col. put_all (case bitmap_at bitmap width col row of
        None \<Rightarrow> [] | Some c \<Rightarrow> [(x + col, y + row, c)])) [0..<mw]) [0..<mh] fb"
  proof (cases "mw = 0 \<or> mh = 0")
    case True
    have "rfold (\<lambda>row. rfold (g row) []) xs s = Ok s"
      for g :: "nat \<Rightarrow> nat \<Rightarrow> framebuffer \<Rightarrow> framebuffer res" and xs s by (induction xs) simp_all
    with True show ?thesis
      by (auto simp: draw_bitmap_def mw_def [symmetric] mh_def [symmetric] Let_def)
  next
    case False
    show ?thesis
      unfolding draw_bitmap_def Let_def mw_def [symmetric] mh_def [symmetric] if_not_P [OF False]
    proof (intro rfold_cong refl, goal_cases)
      case (1 row fb')
      then have row: "row < mh" by simp
      show ?case
        unfolding mul [OF row] rbind_simps by (intro rfold_cong refl step [OF row]) simp
    qed
  qed
  then show ?thesis
    unfolding mw_def [symmetric] mh_def [symmetric]
    by (simp add: put_all_def rfold_concat_map bitmap_row_def cong: rfold_cong)
qed

lemma draw_bitmap_clips_aux:
  assumes "fb_ok fb" and "width * height < usize_bound" and "fb_width fb \<le> isize_max" and "fb_height fb \<le> isize_max"
  shows "\<exists>fb'. draw_bitmap fb bitmap width height x y = Ok fb' \<and> same_shape fb fb' \<and>
    (\<forall>px py. visible fb px py \<longrightarrow> pixel fb' px py =
      (if x \<le> px \<and> px < x + width \<and> y \<le> py \<and> py < y + height
       then (case bitmap_at bitmap width (px - x) (py - y) of None \<Rightarrow> pixel fb px py | Some c \<Rightarrow> c)
       else pixel fb px py))"
proof -
  let ?mw = "min (fb_width fb - x) width" and ?mh = "min (fb_height fb - y) height"
  let ?ps = "concat (map (bitmap_row bitmap width ?mw x y) [0..<?mh])"
  have mem: "(px, py, c) \<in> set ?ps \<longleftrightarrow> x \<le> px \<and> px - x < ?mw \<and> y \<le> py \<and> py - y < ?mh \<and>
      bitmap_at bitmap width (px - x) (py - y) = Some c" for px py c
  proof
    assume "(px, py, c) \<in> set ?ps"
    then obtain row col where "row < ?mh" "col < ?mw" "px = x + col" "py = y + row"
      "bitmap_at bitmap width col row = Some c"
      by (auto simp: bitmap_row_def split: option.splits)
    then show "x \<le> px \<and> px - x < ?mw \<and> y \<le> py \<and> py - y < ?mh \<and>
      bitmap_at bitmap width (px - x) (py - y) = Some c" by simp
  next
    assume a: "x \<le> px \<and> px - x < ?mw \<and> y \<le> py \<and> py - y < ?mh \<and>
      bitmap_at bitmap width (px - x) (py - y) = Some c"
    then have "(px, py, c) \<in> set (bitmap_row bitmap width ?mw x y (py - y))"
      by (cases c) (auto simp: bitmap_row_def intro!: bexI [of _ "px - x"])
    with a show "(px, py, c) \<in> set ?ps" by auto
  qed
  obtain fb' where fb': "put_all ?ps fb = Ok fb'" "same_shape fb fb'"
    "\<forall>x y. visible fb x y \<longrightarrow> pixel fb' x y = paint ?ps (pixel fb) x y"
    using put_all_paints [OF assms(1)] by blast
  let ?F = "\<lambda>px py. the (bitmap_at bitmap width (px - x) (py - y))"
  have pts: "(px, py) \<in> points_of ?ps \<longleftrightarrow> (\<exists>c. (px, py, c) \<in> set ?ps)" for px py
    by (force simp: points_of_def)
  have "pixel fb' px py = (if x \<le> px \<and> px < x + width \<and> y \<le> py \<and> py < y + height
       then (case bitmap_at bitmap width (px - x) (py - y) of None \<Rightarrow> pixel fb px py | Some c \<Rightarrow> c)
       else pixel fb px py)" if vis: "visible fb px py" for px py
  proof -
    have "pixel fb' px py = (if \<exists>c. (px, py, c) \<in> set ?ps then ?F px py else pixel fb px py)"
      using fb'(3) vis paint_picture [of ?ps ?F "pixel fb" px py] mem pts by auto
    moreover have "px - x < ?mw \<longleftrightarrow> px < x + width" if "x \<le> px"
      using vis that by (auto simp: visible_def)
    moreover have "py - y < ?mh \<longleftrightarrow> py < y + height" if "y \<le> py"
      using vis that by (auto simp: visible_def)
    ultimately show ?thesis
      unfolding mem by (cases "bitmap_at bitmap width (px - x) (py - y)") auto
  qed
  with fb'(1,2) draw_bitmap_points [OF assms] show ?thesis by auto
qed

lemma clear_screen_shape:
  assumes "fb_ok fb"
  shows "\<exists>fb'. clear_screen fb c = Ok fb' \<and> same_shape fb fb' \<and>
    (\<forall>x y. visible fb x y \<longrightarrow> pixel fb' x y = c)"
proof -
  let ?ps = "concat (map (\<lambda>y. map (\<lambda>x. (x, y, c)) [0..<fb_width fb]) [0..<fb_height fb])"
  obtain fb' where fb': "put_all ?ps fb = Ok fb'" "same_shape fb fb'"
    "\<forall>x y. visible fb x y \<longrightarrow> pixel fb' x y = paint ?ps (pixel fb) x y"
    using put_all_paints [OF assms] by blast
  have "paint ?ps (pixel fb) x y = c" if "visible fb x y" for x y
  proof -
    have "(x, y, c) \<in> set ?ps" using that by (fastforce simp: visible_def)
    then have "(x, y) \<in> points_of ?ps" unfolding points_of_def by (rule rev_image_eqI) simp
    then show ?thesis by (subst paint_picture [where F = "\<lambda>_ _. c"]) auto
  qed
  with fb' clear_screen_points [OF assms] show ?thesis by auto
qed

section \<open>Properties\<close>

text \<open>
  C18. On a well-formed framebuffer in a colour format, any sequence of \<open>put_pixel\<close> refines the same
  updates of an abstract image: no call panics, each visible pixel ends with the colour written to it
  last, or keeps the one it had, and coordinates outside the screen have no effect.
\<close>

theorem put_pixel_refines_image:
  assumes "fb_ok fb"
  shows "\<exists>fb'. rfold (\<lambda>(x, y, c) fb. put_pixel fb x y c) ps fb = Ok fb' \<and> same_shape fb fb' \<and>
    (\<forall>x y. visible fb x y \<longrightarrow> pixel fb' x y = paint ps (pixel fb) x y)"
  using put_all_paints [OF assms] unfolding put_all_def .

definition demo_fb :: framebuffer where
  "demo_fb = \<lparr>fb_width = 3, fb_height = 2, fb_stride = 4, fb_bpp = 4, fb_format = PixBgr,
     fb_buf = replicate 32 0\<rparr>"

lemma demo_fb_ok: "fb_ok demo_fb"
  by (simp add: demo_fb_def fb_ok_def)

theorem put_pixel_refines_image_witness:
  "\<exists>fb'. rfold (\<lambda>(x, y, c) fb. put_pixel fb x y c) [(1, 1, (1, 2, 3)), (9, 9, (4, 5, 6))] demo_fb = Ok fb' \<and>
    pixel fb' 1 1 = (1, 2, 3)"
proof -
  obtain fb' where "rfold (\<lambda>(x, y, c) fb. put_pixel fb x y c) [(1, 1, (1, 2, 3)), (9, 9, (4, 5, 6))] demo_fb = Ok fb'"
    "\<forall>x y. visible demo_fb x y \<longrightarrow>
      pixel fb' x y = paint [(1, 1, (1, 2, 3)), (9, 9, (4, 5, 6))] (pixel demo_fb) x y"
    using put_pixel_refines_image [OF demo_fb_ok, of "[(1, 1, (1, 2, 3)), (9, 9, (4, 5, 6))]"] by blast
  moreover have "visible demo_fb 1 1" by (simp add: visible_def demo_fb_def)
  ultimately show ?thesis by (simp add: paint_def)
qed

text \<open>
  \<open>clear_screen\<close> gives every visible pixel the colour asked for and does not panic, whatever the
  stride and the padding of the pixels.
\<close>

theorem clear_screen_fills:
  assumes "fb_ok fb"
  shows "\<exists>fb'. clear_screen fb c = Ok fb' \<and> same_shape fb fb' \<and>
    (\<forall>x y. visible fb x y \<longrightarrow> pixel fb' x y = c)"
  using assms by (rule clear_screen_shape)

theorem clear_screen_fills_witness:
  "\<exists>fb'. clear_screen demo_fb (30, 30, 46) = Ok fb' \<and> pixel fb' 2 1 = (30, 30, 46)"
  using clear_screen_fills [OF demo_fb_ok, of "(30, 30, 46)"] by (auto simp: visible_def demo_fb_def)

text \<open>
  \<open>draw_bitmap\<close> does not panic, draws exactly the visible part of the bitmap at the given place, and
  leaves every other pixel alone: transparent entries and entries beyond the end of the bitmap are
  skipped, and the bitmap is clipped at the right and the lower edge.
\<close>

theorem draw_bitmap_clips:
  assumes "fb_ok fb" and "width * height < usize_bound" and "fb_width fb \<le> isize_max" and "fb_height fb \<le> isize_max"
  shows "\<exists>fb'. draw_bitmap fb bitmap width height x y = Ok fb' \<and> same_shape fb fb' \<and>
    (\<forall>px py. visible fb px py \<longrightarrow> pixel fb' px py =
      (if x \<le> px \<and> px < x + width \<and> y \<le> py \<and> py < y + height
       then (case bitmap_at bitmap width (px - x) (py - y) of None \<Rightarrow> pixel fb px py | Some c \<Rightarrow> c)
       else pixel fb px py))"
  using assms by (rule draw_bitmap_clips_aux)

theorem draw_bitmap_clips_witness:
  "\<exists>fb'. draw_bitmap demo_fb [(1, 2, 3, 255), (4, 5, 6, 0), (7, 8, 9, 1)] 3 1 1 1 = Ok fb' \<and>
    pixel fb' 1 1 = (1, 2, 3) \<and> pixel fb' 2 1 = pixel demo_fb 2 1"
proof -
  have "fb_width demo_fb \<le> isize_max" "fb_height demo_fb \<le> isize_max" by (simp_all add: demo_fb_def)
  from draw_bitmap_clips [OF demo_fb_ok _ this, of 3 1 "[(1, 2, 3, 255), (4, 5, 6, 0), (7, 8, 9, 1)]" 1 1]
  obtain fb' where "draw_bitmap demo_fb [(1, 2, 3, 255), (4, 5, 6, 0), (7, 8, 9, 1)] 3 1 1 1 = Ok fb'"
    and px: "\<And>px py. visible demo_fb px py \<Longrightarrow> pixel fb' px py =
      (if 1 \<le> px \<and> px < 1 + 3 \<and> 1 \<le> py \<and> py < 1 + 1
       then (case bitmap_at [(1, 2, 3, 255), (4, 5, 6, 0), (7, 8, 9, 1)] 3 (px - 1) (py - 1) of
          None \<Rightarrow> pixel demo_fb px py | Some c \<Rightarrow> c)
       else pixel demo_fb px py)"
    by auto
  moreover have "visible demo_fb 1 1" "visible demo_fb 2 1" by (simp_all add: visible_def demo_fb_def)
  ultimately show ?thesis using px [of 1 1] px [of 2 1] by (simp add: bitmap_at_def)
qed

end
