(* ===== verification/Font.thy ===== *)
theory Font
  imports Framebuffer
begin

text \<open>
  PC screen fonts (\<open>kernel/src/font.rs\<close>): \<open>parse_psf\<close> reads the header of a PSF version 2 or 1 font from
  its bytes, and \<open>draw_char_psf\<close> turns a glyph into a bitmap and draws it. The static \<open>FONT_HEIGHT\<close> is
  passed and returned, the font file is an argument.
\<close>

unbundle bit_operations_syntax

section \<open>Model\<close>

definition PSF1_MAGIC :: nat where "PSF1_MAGIC = 0x0436"
definition PSF2_MAGIC :: nat where "PSF2_MAGIC = 0x864ab572"

record font =
  glyphs :: "u8 list"
  num_glyphs :: usize
  bytes_per_glyph :: usize
  font_height :: usize
  font_width :: usize

text \<open>Fields of the packed headers, little-endian at their offsets.\<close>

definition le16 :: "u8 list \<Rightarrow> usize \<Rightarrow> nat" where
  "le16 bs off = unat (bs ! off) + 256 * unat (bs ! (off + 1))"

definition le32 :: "u8 list \<Rightarrow> usize \<Rightarrow> nat" where
  "le32 bs off = le16 bs off + 65536 * le16 bs (off + 2)"

definition parse_psf :: "u8 list \<Rightarrow> usize \<Rightarrow> font option \<times> usize" where
  "parse_psf fnt FONT_HEIGHT =
     (if length fnt \<ge> 32 \<and> le32 fnt 0 = PSF2_MAGIC
      then let hdr_sz = le32 fnt 8
           in if length fnt < hdr_sz then (None, FONT_HEIGHT)
              else let gl = drop hdr_sz fnt; bpg = le32 fnt 20; n = le32 fnt 16; h = le32 fnt 24; w = le32 fnt 28
                   in case checked_mul bpg n of
                        None \<Rightarrow> (None, FONT_HEIGHT)
                      | Some need \<Rightarrow>
                          if length gl < need then (None, FONT_HEIGHT)
                          else (Some \<lparr>glyphs = gl, num_glyphs = n, bytes_per_glyph = bpg,
                                   font_height = h, font_width = w\<rparr>, h)
      else if length fnt \<ge> 4 \<and> le16 fnt 0 = PSF1_MAGIC
      then let gl = drop 4 fnt; bpg = unat (fnt ! 3); n = (if fnt ! 2 AND 1 \<noteq> 0 then 512 else 256)
           in case checked_mul bpg n of
                None \<Rightarrow> (None, FONT_HEIGHT)
              | Some need \<Rightarrow>
                  if length gl < need then (None, FONT_HEIGHT)
                  else (Some \<lparr>glyphs = gl, num_glyphs = n, bytes_per_glyph = bpg,
                           font_height = bpg, font_width = 8\<rparr>, bpg)
      else (None, FONT_HEIGHT))"

text \<open>The glyph of a character: its own index, or 32 below, or the first glyph.\<close>

definition glyph_index :: "font \<Rightarrow> nat \<Rightarrow> usize" where
  "glyph_index f code =
     (let gi = (if code \<le> 0xFF then code else 0)
      in if gi \<ge> num_glyphs f
         then (if code \<ge> 32 \<and> code - 32 < num_glyphs f then code - 32 else 0)
         else gi)"

definition pixel_on :: "u8 list \<Rightarrow> usize \<Rightarrow> usize \<Rightarrow> bool" where
  "pixel_on glyph byte_idx bit_in_byte =
     (if byte_idx < length glyph then (drop_bit (7 - bit_in_byte) (glyph ! byte_idx)) AND 1 \<noteq> 0 else False)"

definition glyph_bit :: "u8 list \<Rightarrow> usize \<Rightarrow> rgba \<Rightarrow> usize \<Rightarrow> usize \<Rightarrow> rgba list \<Rightarrow> rgba list res" where
  "glyph_bit glyph width color row b bitmap =
     rbind (umul row (div_ceil width 8)) (\<lambda>row_byte_offset.
     rbind (uadd row_byte_offset (b div 8)) (\<lambda>byte_idx.
       if pixel_on glyph byte_idx (b mod 8)
       then rbind (umul row width) (\<lambda>r. rbind (uadd r b) (\<lambda>i. store bitmap i color))
       else Ok bitmap))"

definition draw_char_psf :: "u8 list \<Rightarrow> usize \<Rightarrow> framebuffer option \<Rightarrow> usize \<Rightarrow> usize \<Rightarrow> nat \<Rightarrow> rgba \<Rightarrow>
    (usize \<times> framebuffer option) res" where
  "draw_char_psf FONT_DATA FONT_HEIGHT FB x y ch color =
     (case parse_psf FONT_DATA FONT_HEIGHT of
        (None, fh) \<Rightarrow> Ok (fh, FB)
      | (Some f, fh) \<Rightarrow>
          rbind (umul (font_width f) (font_height f)) (\<lambda>max_size.
            if max_size = 0 \<or> max_size > 1024 then Ok (fh, FB)
            else
              let bpg = bytes_per_glyph f; start = saturating_mul (glyph_index f ch) bpg
              in if start = usize_bound - 1 then Ok (fh, FB)
                 else rbind (uadd start bpg) (\<lambda>e.
                   if e > length (glyphs f) then Ok (fh, FB)
                   else rbind (slice_of (glyphs f) start e) (\<lambda>glyph.
                     rbind (rfold (\<lambda>row. rfold (\<lambda>b. glyph_bit glyph (font_width f) color row b)
                              [0..<font_width f]) [0..<font_height f] (replicate 1024 (0, 0, 0, 0))) (\<lambda>bitmap.
                       case FB of
                         None \<Rightarrow> Ok (fh, FB)
                       | Some fb \<Rightarrow>
                           rbind (slice_of bitmap 0 max_size) (\<lambda>bm.
                           rbind (draw_bitmap fb bm (font_width f) (font_height f) x y) (\<lambda>fb'.
                             Ok (fh, Some fb'))))))))"

section \<open>The bitmap of a glyph\<close>

text \<open>Whether a pixel of a glyph is set.\<close>

definition glyph_set :: "u8 list \<Rightarrow> usize \<Rightarrow> usize \<Rightarrow> usize \<Rightarrow> bool" where
  "glyph_set glyph width row b = pixel_on glyph (row * div_ceil width 8 + b div 8) (b mod 8)"

lemma le16_less: "le16 bs off < 65536"
proof -
  have "unat (bs ! off) < 256" "unat (bs ! (off + 1)) < 256"
    by (rule unat_u8_less)+
  then show ?thesis by (simp add: le16_def)
qed

lemma le32_less: "le32 bs off < 4294967296"
  using le16_less [of bs off] le16_less [of bs "off + 2"] by (simp add: le32_def)

lemma parse_psf_bounds:
  assumes "parse_psf fnt fh = (Some f, fh')"
  shows "font_width f < 4294967296" and "font_height f < 4294967296" and "fh' = font_height f"
    and "bytes_per_glyph f * num_glyphs f \<le> length (glyphs f)" and "bytes_per_glyph f < 4294967296"
    and "num_glyphs f < 4294967296"
proof -
  have b: "unat (fnt ! 3) < 256" by (rule unat_u8_less)
  show "font_width f < 4294967296" and "font_height f < 4294967296" and "fh' = font_height f"
    and "bytes_per_glyph f * num_glyphs f \<le> length (glyphs f)" and "bytes_per_glyph f < 4294967296"
    and "num_glyphs f < 4294967296"
    using assms b
    by (auto simp: parse_psf_def Let_def le32_less res_iff split: if_splits option.splits)
qed

lemma parse_psf_none: "parse_psf fnt fh = (None, fh') \<Longrightarrow> fh' = fh"
  by (auto simp: parse_psf_def Let_def split: if_splits option.splits)

lemma glyph_bit_ok:
  assumes "row < height" and "b < width" and "width * height \<le> 1024" and "length bm = 1024"
  shows "glyph_bit glyph width color row b bm =
    Ok (if glyph_set glyph width row b then bm[row * width + b := color] else bm)"
proof -
  have le: "row * width + b < width * height"
  proof -
    have "row * width + b < Suc row * width" using assms(2) by simp
    also have "\<dots> \<le> height * width" using assms(1) by (intro mult_le_mono1) simp
    finally show ?thesis by (simp add: mult.commute)
  qed
  have "div_ceil width 8 \<le> width"
    using div_ceil_mult_less [of 8 width] assms(2) by (cases "div_ceil width 8 = 0") auto
  then have "row * div_ceil width 8 \<le> row * width" by simp
  with le assms(2,3) have small: "row * div_ceil width 8 \<le> 1024" "b div 8 \<le> 1024" "row * width \<le> 1024"
    "b \<le> 1024" "row * width + b < 1024" by linarith+
  then show ?thesis
    by (simp add: glyph_bit_def glyph_set_def assms(4))
qed

lemma glyph_row_ok:
  assumes "row < height" and "width * height \<le> 1024" and "length bm = 1024" and "n \<le> width"
  shows "\<exists>bm'. rfold (glyph_bit glyph width color row) [0..<n] bm = Ok bm' \<and> length bm' = 1024 \<and>
    (\<forall>k. bm' ! k = (if row * width \<le> k \<and> k < row * width + n \<and> glyph_set glyph width row (k - row * width)
      then color else bm ! k))"
  using assms(4)
proof (induction n)
  case 0
  show ?case using assms(3) by (simp, intro allI impI, linarith)
next
  case (Suc n)
  then obtain bm1 where bm1: "rfold (glyph_bit glyph width color row) [0..<n] bm = Ok bm1" "length bm1 = 1024"
    "\<And>k. bm1 ! k = (if row * width \<le> k \<and> k < row * width + n \<and> glyph_set glyph width row (k - row * width)
      then color else bm ! k)" by auto
  have "row * width + n < 1024"
  proof -
    have "row * width + n < Suc row * width" using Suc.prems by simp
    also have "\<dots> \<le> height * width" using assms(1) by (intro mult_le_mono1) simp
    finally show ?thesis using assms(2) by (simp add: mult.commute)
  qed
  moreover have "glyph_bit glyph width color row n bm1 =
      Ok (if glyph_set glyph width row n then bm1[row * width + n := color] else bm1)"
    using glyph_bit_ok [OF assms(1) _ assms(2) bm1(2)] Suc.prems by simp
  ultimately show ?case
    using bm1 by (auto simp: rfold_append nth_list_update less_Suc_eq)
qed

text \<open>The two loops of \<open>draw_char_psf\<close> set exactly the entries of the bits that are on.\<close>

lemma glyph_bitmap_ok:
  assumes "width * height \<le> 1024" and "n \<le> height"
  shows "\<exists>bm. rfold (\<lambda>row. rfold (glyph_bit glyph width color row) [0..<width]) [0..<n]
      (replicate 1024 (0, 0, 0, 0)) = Ok bm \<and> length bm = 1024 \<and>
    (\<forall>row<height. \<forall>b<width. bm ! (row * width + b) =
      (if row < n \<and> glyph_set glyph width row b then color else (0, 0, 0, 0)))"
  using assms(2)
proof (induction n)
  case 0
  have "row * width + b < 1024" if "row < height" "b < width" for row b
  proof -
    have "row * width + b < Suc row * width" using that by simp
    also have "\<dots> \<le> height * width" using that by (intro mult_le_mono1) simp
    finally show ?thesis using assms(1) by (simp add: mult.commute)
  qed
  then show ?case by simp
next
  case (Suc n)
  then obtain bm1 where bm1: "rfold (\<lambda>row. rfold (glyph_bit glyph width color row) [0..<width]) [0..<n]
      (replicate 1024 (0, 0, 0, 0)) = Ok bm1" "length bm1 = 1024"
    "\<And>row b. row < height \<Longrightarrow> b < width \<Longrightarrow> bm1 ! (row * width + b) =
      (if row < n \<and> glyph_set glyph width row b then color else (0, 0, 0, 0))" by auto
  from glyph_row_ok [OF _ assms(1) bm1(2) order_refl, of n glyph color] Suc.prems obtain bm2 where
    bm2: "rfold (glyph_bit glyph width color n) [0..<width] bm1 = Ok bm2" "length bm2 = 1024"
    "\<And>k. bm2 ! k = (if n * width \<le> k \<and> k < n * width + width \<and> glyph_set glyph width n (k - n * width)
      then color else bm1 ! k)" by (auto simp: Suc_le_eq)
  have "bm2 ! (row * width + b) =
      (if row < Suc n \<and> glyph_set glyph width row b then color else (0, 0, 0, 0))"
    if "row < height" "b < width" for row b
  proof (cases "row = n")
    case True
    with bm2(3) [of "row * width + b"] bm1(3) [OF that] that show ?thesis by simp
  next
    case False
    have "\<not> (n * width \<le> row * width + b \<and> row * width + b < n * width + width)"
    proof (cases "row < n")
      case True
      then have "Suc row * width \<le> n * width" by (intro mult_le_mono1) simp
      with that(2) show ?thesis by simp
    next
      case False
      with \<open>row \<noteq> n\<close> have "Suc n * width \<le> row * width" by (intro mult_le_mono1) simp
      then show ?thesis by simp
    qed
    then have "bm2 ! (row * width + b) = bm1 ! (row * width + b)"
      unfolding bm2(3) [of "row * width + b"] by auto
    with bm1(3) [OF that] False show ?thesis by (simp add: less_Suc_eq)
  qed
  with bm1(1) bm2(1,2) show ?case by (simp add: rfold_append)
qed

section \<open>Properties\<close>

text \<open>The glyph of a character in a parsed font.\<close>

definition glyph_of :: "font \<Rightarrow> nat \<Rightarrow> u8 list" where
  "glyph_of f ch = sub_list (glyphs f) (glyph_index f ch * bytes_per_glyph f)
     (glyph_index f ch * bytes_per_glyph f + bytes_per_glyph f)"

lemma glyph_in_font:
  assumes "parse_psf fnt fh = (Some f, fh')" and "length fnt \<le> isize_max" and "0 < num_glyphs f"
  shows "glyph_index f ch * bytes_per_glyph f + bytes_per_glyph f \<le> length (glyphs f)"
    and "length (glyphs f) \<le> isize_max"
proof -
  have "glyph_index f ch < num_glyphs f"
    using assms(3) by (simp add: glyph_index_def Let_def)
  then have "Suc (glyph_index f ch) * bytes_per_glyph f \<le> num_glyphs f * bytes_per_glyph f"
    by (intro mult_le_mono1) simp
  with parse_psf_bounds(4) [OF assms(1)]
  show "glyph_index f ch * bytes_per_glyph f + bytes_per_glyph f \<le> length (glyphs f)"
    by (simp add: mult.commute)
  have "length (glyphs f) \<le> length fnt"
    using assms(1) by (auto simp: parse_psf_def Let_def split: if_splits option.splits)
  with assms(2) show "length (glyphs f) \<le> isize_max" by simp
qed

text \<open>
  C19. With a parsed font of between 1 and 1024 pixels per glyph, drawing a character does not panic and
  draws exactly its glyph: a visible pixel takes the colour if it lies in the glyph's box and the
  glyph's bit for it is set (most significant bit left, rows padded to bytes) and the colour is not
  transparent, and keeps its colour otherwise.
\<close>

theorem draw_char_draws_glyph:
  assumes "parse_psf fnt fh = (Some f, fh')" and "length fnt \<le> isize_max" and "0 < num_glyphs f"
    and "0 < font_width f * font_height f" and "font_width f * font_height f \<le> 1024"
    and "fb_ok fb" and "fb_width fb \<le> isize_max" and "fb_height fb \<le> isize_max"
  shows "\<exists>fb'. draw_char_psf fnt fh (Some fb) x y ch (r, g, b, a) = Ok (font_height f, Some fb') \<and>
    same_shape fb fb' \<and>
    (\<forall>px py. visible fb px py \<longrightarrow> pixel fb' px py =
      (if x \<le> px \<and> px < x + font_width f \<and> y \<le> py \<and> py < y + font_height f \<and> a \<noteq> 0 \<and>
          glyph_set (glyph_of f ch) (font_width f) (py - y) (px - x)
       then (r, g, b) else pixel fb px py))"
proof -
  let ?w = "font_width f" and ?h = "font_height f"
  let ?st = "glyph_index f ch * bytes_per_glyph f" and ?gl = "glyph_of f ch"
  note inside = glyph_in_font(1) [OF assms(1-3), where ch = ch] glyph_in_font(2) [OF assms(1-3)]
  obtain bm where bm: "rfold (\<lambda>row. rfold (glyph_bit ?gl ?w (r, g, b, a) row) [0..<?w]) [0..<?h]
      (replicate 1024 (0, 0, 0, 0)) = Ok bm" "length bm = 1024"
    "\<And>row k. row < ?h \<Longrightarrow> k < ?w \<Longrightarrow> bm ! (row * ?w + k) =
      (if glyph_set ?gl ?w row k then (r, g, b, a) else (0, 0, 0, 0))"
    using glyph_bitmap_ok [OF assms(5) order_refl, of ?gl "(r, g, b, a)"] by auto
  have at: "bitmap_at (sub_list bm 0 (?w * ?h)) ?w k row =
      (if glyph_set ?gl ?w row k \<and> a \<noteq> 0 then Some (r, g, b) else None)" if "row < ?h" "k < ?w" for row k
  proof -
    have "row * ?w + k < Suc row * ?w" using that by simp
    also have "\<dots> \<le> ?h * ?w" using that by (intro mult_le_mono1) simp
    finally have "row * ?w + k < ?w * ?h" by (simp add: mult.commute)
    with bm(2,3) that assms(5) show ?thesis by (simp add: bitmap_at_def sub_list_def)
  qed
  obtain fb' where fb': "draw_bitmap fb (sub_list bm 0 (?w * ?h)) ?w ?h x y = Ok fb'" "same_shape fb fb'"
    "\<And>px py. visible fb px py \<Longrightarrow> pixel fb' px py =
      (if x \<le> px \<and> px < x + ?w \<and> y \<le> py \<and> py < y + ?h
       then (case bitmap_at (sub_list bm 0 (?w * ?h)) ?w (px - x) (py - y) of None \<Rightarrow> pixel fb px py | Some c \<Rightarrow> c)
       else pixel fb px py)"
    using draw_bitmap_clips_aux [OF assms(6) _ assms(7,8), of ?w ?h "sub_list bm 0 (?w * ?h)" x y] assms(5) by auto
  have "draw_char_psf fnt fh (Some fb) x y ch (r, g, b, a) = Ok (?h, Some fb')"
    using assms(1,4,5) inside bm(1,2) fb'(1) parse_psf_bounds(3) [OF assms(1)]
    by (simp add: draw_char_psf_def saturating_mul_def Let_def glyph_of_def)
  moreover have "pixel fb' px py =
      (if x \<le> px \<and> px < x + ?w \<and> y \<le> py \<and> py < y + ?h \<and> a \<noteq> 0 \<and> glyph_set ?gl ?w (py - y) (px - x)
       then (r, g, b) else pixel fb px py)" if "visible fb px py" for px py
    using fb'(3) [OF that] at [of "py - y" "px - x"] by auto
  ultimately show ?thesis using fb'(2) by blast
qed

text \<open>A PSF version 1 font with 256 glyphs of one row; glyph \<open>i\<close> is the byte 0x80.\<close>

definition demo_font :: "u8 list" where
  "demo_font = [0x36, 0x04, 0, 1] @ replicate 256 0x80"

abbreviation demo_psf :: font where
  "demo_psf \<equiv> \<lparr>glyphs = replicate 256 0x80, num_glyphs = 256, bytes_per_glyph = 1, font_height = 1,
     font_width = 8\<rparr>"

lemma demo_font_parsed: "parse_psf demo_font 8 = (Some demo_psf, 1)"
proof -
  have "le32 demo_font 0 \<noteq> PSF2_MAGIC"
    by (simp add: le32_def le16_def demo_font_def PSF2_MAGIC_def)
  then show ?thesis
    by (simp add: parse_psf_def le16_def demo_font_def PSF1_MAGIC_def checked_mul_def)
qed

theorem draw_char_draws_glyph_witness:
  "\<exists>fb'. draw_char_psf demo_font 8 (Some demo_fb) 1 1 65 (1, 2, 3, 255) = Ok (1, Some fb') \<and>
    pixel fb' 1 1 = (1, 2, 3)"
proof -
  have prem: "length demo_font \<le> isize_max" "0 < num_glyphs demo_psf"
    "0 < font_width demo_psf * font_height demo_psf" "font_width demo_psf * font_height demo_psf \<le> 1024"
    "fb_width demo_fb \<le> isize_max" "fb_height demo_fb \<le> isize_max"
    by (simp_all add: demo_fb_def demo_font_def)
  from draw_char_draws_glyph [OF demo_font_parsed prem(1-4) demo_fb_ok prem(5,6), of 1 1 65 1 2 3 255]
  obtain fb' where fb': "draw_char_psf demo_font 8 (Some demo_fb) 1 1 65 (1, 2, 3, 255) =
      Ok (font_height demo_psf, Some fb')"
    "visible demo_fb 1 1 \<longrightarrow> pixel fb' 1 1 =
      (if 1 \<le> (1 :: nat) \<and> 1 < 1 + font_width demo_psf \<and> 1 \<le> (1 :: nat) \<and> 1 < 1 + font_height demo_psf \<and>
          (255 :: u8) \<noteq> 0 \<and> glyph_set (glyph_of demo_psf 65) (font_width demo_psf) (1 - 1) (1 - 1)
       then (1, 2, 3) else pixel demo_fb 1 1)"
    by blast
  have "glyph_of demo_psf 65 = [0x80]"
    by (simp add: glyph_of_def glyph_index_def sub_list_def)
  moreover have "visible demo_fb 1 1" by (simp add: visible_def demo_fb_def)
  ultimately show ?thesis
    using fb' by (simp add: glyph_set_def pixel_on_def)
qed

end
