(* ===== verification/Tty.thy ===== *)
theory Tty
  imports Font
begin

text \<open>
  The text console (\<open>TTY\<close> in \<open>kernel/src/display.rs\<close>), in the build with the default features (the
  colour scheme is on, \<open>clear-on-scroll\<close> is off). The statics \<open>FRAMEBUFFER\<close> and \<open>FONT_HEIGHT\<close> are fields of
  the state; the font file is an argument. A \<open>char\<close> is its code point and a \<open>&str\<close> the list of its
  characters.
\<close>

section \<open>Model\<close>

record cell =
  cell_ch :: nat
  cell_color :: rgba

record tty =
  t_width :: usize
  t_height :: usize
  t_buf :: "cell list"
  t_cx :: usize
  t_cy :: usize
  t_fg :: rgba
  t_fb :: "framebuffer option"
  t_font_height :: usize

definition cell_empty :: "rgba \<Rightarrow> cell" where
  "cell_empty color = \<lparr>cell_ch = 0, cell_color = color\<rparr>"

definition TTY_BUFFER :: "cell list" where
  "TTY_BUFFER = replicate (130 * 50) \<lparr>cell_ch = 0, cell_color = (255, 255, 255, 255)\<rparr>"

definition BACKGROUND :: rgb where "BACKGROUND = (30, 30, 46)"
definition WHITE :: rgba where "WHITE = (205, 214, 244, 255)"
definition BLACK :: rgba where "BLACK = (17, 17, 27, 255)"
definition RED :: rgba where "RED = (243, 139, 168, 255)"
definition GREEN :: rgba where "GREEN = (166, 227, 161, 255)"
definition YELLOW :: rgba where "YELLOW = (249, 226, 175, 255)"
definition BLUE :: rgba where "BLUE = (137, 180, 250, 255)"
definition MAGENTA :: rgba where "MAGENTA = (203, 166, 247, 255)"
definition CYAN :: rgba where "CYAN = (0, 170, 170, 255)"

definition tty_new :: "framebuffer option \<Rightarrow> usize \<Rightarrow> cell list \<Rightarrow> tty" where
  "tty_new fb fh buffer =
     (let (width, height) = (case fb of None \<Rightarrow> (0, 0) | Some b \<Rightarrow> resolution b)
      in \<lparr>t_width = min (width div 8) 130, t_height = min (height div 8) 50, t_buf = buffer,
          t_cx = 0, t_cy = 0, t_fg = (255, 255, 255, 255), t_fb = fb, t_font_height = fh\<rparr>)"

text \<open>A call of \<open>draw_char_psf\<close> on the statics.\<close>

definition tty_draw :: "u8 list \<Rightarrow> tty \<Rightarrow> usize \<Rightarrow> usize \<Rightarrow> nat \<Rightarrow> rgba \<Rightarrow> tty res" where
  "tty_draw D t x y c color =
     rbind (umul x 8) (\<lambda>px.
     rbind (umul y (t_font_height t)) (\<lambda>py.
     rbind (draw_char_psf D (t_font_height t) (t_fb t) px py c color) (\<lambda>(fh, fb).
       Ok (t\<lparr>t_font_height := fh, t_fb := fb\<rparr>))))"

definition set_char :: "u8 list \<Rightarrow> tty \<Rightarrow> usize \<Rightarrow> usize \<Rightarrow> nat \<Rightarrow> rgba \<Rightarrow> tty res" where
  "set_char D t x y c color =
     (if x \<ge> t_width t \<or> y \<ge> t_height t then Ok t
      else rbind (umul y (t_width t)) (\<lambda>r.
        rbind (uadd r x) (\<lambda>i.
        rbind (store (t_buf t) i \<lparr>cell_ch = c, cell_color = color\<rparr>) (\<lambda>buf.
          tty_draw D (t\<lparr>t_buf := buf\<rparr>) x y c color))))"

definition get_char :: "tty \<Rightarrow> usize \<Rightarrow> usize \<Rightarrow> nat option res" where
  "get_char t x y =
     (if x \<ge> t_width t \<or> y \<ge> t_height t then Ok None
      else rbind (umul y (t_width t)) (\<lambda>r.
        rbind (uadd r x) (\<lambda>i. rbind (index (t_buf t) i) (\<lambda>c. Ok (Some (cell_ch c))))))"

definition tty_background :: "tty \<Rightarrow> tty res" where
  "tty_background t =
     (case t_fb t of
        None \<Rightarrow> Ok t
      | Some fb \<Rightarrow> rbind (clear_screen fb BACKGROUND) (\<lambda>fb'. Ok (t\<lparr>t_fb := Some fb'\<rparr>)))"

definition clear_tty :: "tty \<Rightarrow> tty res" where
  "clear_tty t =
     rbind (tty_background t) (\<lambda>t1.
       Ok (t1\<lparr>t_buf := replicate (length (t_buf t1)) (cell_empty (t_fg t1)), t_cx := 0, t_cy := 0\<rparr>))"

definition scroll_cell :: "usize \<Rightarrow> usize \<Rightarrow> usize \<Rightarrow> cell list \<Rightarrow> cell list res" where
  "scroll_cell w y x buf =
     rbind (umul y w) (\<lambda>r. rbind (uadd r x) (\<lambda>i.
     rbind (index buf i) (\<lambda>from.
     rbind (usub y 1) (\<lambda>y1. rbind (umul y1 w) (\<lambda>r1. rbind (uadd r1 x) (\<lambda>j. store buf j from))))))"

definition blank_cell :: "usize \<Rightarrow> usize \<Rightarrow> rgba \<Rightarrow> usize \<Rightarrow> cell list \<Rightarrow> cell list res" where
  "blank_cell h w fg x buf =
     rbind (usub h 1) (\<lambda>y1. rbind (umul y1 w) (\<lambda>r. rbind (uadd r x) (\<lambda>i.
       store buf i \<lparr>cell_ch = 0, cell_color = fg\<rparr>)))"

text \<open>Drawing the cell at \<open>(x, y)\<close> of the buffer, when \<open>P\<close> holds of it.\<close>

definition redraw_cell :: "u8 list \<Rightarrow> (cell \<Rightarrow> bool) \<Rightarrow> usize \<Rightarrow> usize \<Rightarrow> tty \<Rightarrow> tty res" where
  "redraw_cell D P y x t =
     rbind (umul y (t_width t)) (\<lambda>r. rbind (uadd r x) (\<lambda>i.
     rbind (index (t_buf t) i) (\<lambda>c.
       if P c then tty_draw D t x y (cell_ch c) (cell_color c) else Ok t)))"

definition scroll_up :: "u8 list \<Rightarrow> tty \<Rightarrow> tty res" where
  "scroll_up D t =
     rbind (rfold (\<lambda>y. rfold (\<lambda>x. scroll_cell (t_width t) y x) [0..<t_width t]) [1..<t_height t] (t_buf t)) (\<lambda>b1.
     rbind (rfold (blank_cell (t_height t) (t_width t) (t_fg t)) [0..<t_width t] b1) (\<lambda>b2.
     rbind (tty_background (t\<lparr>t_buf := b2\<rparr>)) (\<lambda>t1.
       rfold (\<lambda>y. rfold (\<lambda>x. redraw_cell D (\<lambda>c. cell_ch c \<noteq> 0) y x) [0..<t_width t1]) [0..<t_height t1] t1)))"

definition shift_cell :: "usize \<Rightarrow> usize \<Rightarrow> cell list \<Rightarrow> cell list res" where
  "shift_cell row_start x buf =
     rbind (uadd row_start x) (\<lambda>i. rbind (uadd i 1) (\<lambda>i1.
     rbind (index buf i1) (\<lambda>c. store buf i c)))"

text \<open>The two branches of \<open>delete\<close> after the cursor: close the gap and blank the last cell of the row.\<close>

definition delete_at :: "tty \<Rightarrow> usize \<Rightarrow> usize \<Rightarrow> tty res" where
  "delete_at t row_start row_end =
     rbind (usub (t_width t) 1) (\<lambda>w1.
     rbind (rfold (shift_cell row_start) [t_cx t..<w1] (t_buf t)) (\<lambda>b1.
     rbind (usub row_end 1) (\<lambda>e.
     rbind (store b1 e \<lparr>cell_ch = 0, cell_color = t_fg t\<rparr>) (\<lambda>b2. Ok (t\<lparr>t_buf := b2\<rparr>)))))"

definition redraw_row :: "u8 list \<Rightarrow> usize \<Rightarrow> tty \<Rightarrow> tty res" where
  "redraw_row D row_start t =
     rfold (\<lambda>x t.
       rbind (uadd row_start x) (\<lambda>i. rbind (index (t_buf t) i) (\<lambda>c.
         tty_draw D t x (t_cy t) (cell_ch c) (cell_color c)))) [0..<t_width t] t"

definition tty_delete :: "u8 list \<Rightarrow> tty \<Rightarrow> bool \<Rightarrow> tty res" where
  "tty_delete D t bksp =
     (if t_cy t \<ge> t_height t then Ok t
      else rbind (umul (t_cy t) (t_width t)) (\<lambda>row_start.
        rbind (uadd row_start (t_width t)) (\<lambda>row_end.
          if bksp \<and> t_cx t = 0 then Ok t
          else if \<not> bksp \<and> t_cx t \<ge> t_width t then Ok t
          else rbind (delete_at (if bksp then t\<lparr>t_cx := t_cx t - 1\<rparr> else t) row_start row_end) (\<lambda>t1.
            rbind (tty_background t1) (redraw_row D row_start)))))"

definition is_digit :: "nat \<Rightarrow> bool" where
  "is_digit c \<longleftrightarrow> 48 \<le> c \<and> c \<le> 57"

text \<open>\<open>parse::<u8>\<close> of up to three digits, 0 when the value does not fit.\<close>

definition parse_u8 :: "nat list \<Rightarrow> nat" where
  "parse_u8 ds = (let n = foldl (\<lambda>n d. 10 * n + (d - 48)) 0 ds in if n \<le> 255 then n else 0)"

definition ansi_color :: "nat list \<Rightarrow> rgba \<Rightarrow> rgba" where
  "ansi_color ds fg =
     (if ds = [] then WHITE
      else let code = parse_u8 ds
           in if code = 30 then BLACK else if code = 31 then RED else if code = 32 then GREEN
              else if code = 33 then YELLOW else if code = 34 then BLUE else if code = 35 then MAGENTA
              else if code = 36 then CYAN else if code = 0 \<or> code = 37 then WHITE else fg)"

text \<open>
  What the loop of \<open>write_str\<close> does with an escape character: after \<open>ESC [\<close> it takes up to three digits,
  and if an \<open>m\<close> follows, the sequence is a colour code (the digits, and the rest of the input).
  Otherwise the escape character is printed, and the bracket and the digits are gone from the input.
\<close>

definition escape :: "nat \<Rightarrow> nat list \<Rightarrow> nat list option \<times> nat list" where
  "escape c cs =
     (if c = 27 \<and> cs \<noteq> [] \<and> hd cs = 91
      then let ds = takeWhile is_digit (take 3 (tl cs)); rest = drop (length ds) (tl cs)
           in if rest \<noteq> [] \<and> hd rest = 109 then (Some ds, tl rest) else (None, rest)
      else (None, cs))"

definition put_char :: "u8 list \<Rightarrow> tty \<Rightarrow> nat \<Rightarrow> tty res" where
  "put_char D t c =
     (if c = 10 then rbind (uadd (t_cy t) 1) (\<lambda>y. Ok (t\<lparr>t_cx := 0, t_cy := y\<rparr>))
      else if c = 13 then Ok (t\<lparr>t_cx := 0\<rparr>)
      else if c = 8 then tty_delete D t True
      else if c = 127 then tty_delete D t False
      else rbind (set_char D t (t_cx t) (t_cy t) c (t_fg t)) (\<lambda>t1.
        rbind (uadd (t_cx t1) 1) (\<lambda>x. Ok (t1\<lparr>t_cx := x\<rparr>))))"

definition wrap_cursor :: "u8 list \<Rightarrow> tty \<Rightarrow> tty res" where
  "wrap_cursor D t =
     rbind (if t_cx t \<ge> t_width t
            then rbind (uadd (t_cy t) 1) (\<lambda>y. Ok (t\<lparr>t_cx := 0, t_cy := y\<rparr>))
            else Ok t) (\<lambda>t1.
       if t_cy t1 \<ge> t_height t1
       then rbind (scroll_up D t1) (\<lambda>t2. rbind (usub (t_height t2) 1) (\<lambda>y. Ok (t2\<lparr>t_cy := y\<rparr>)))
       else Ok t1)"

lemma escape_shorter: "length (snd (escape c cs)) \<le> length cs"
proof -
  have "length (tl cs) \<le> length cs" by simp
  then show ?thesis by (auto simp: escape_def Let_def)
qed

lemma escape_rest: "(o', rest) = escape c cs \<Longrightarrow> length rest < Suc (length cs)"
  using escape_shorter [of c cs] by (metis le_imp_less_Suc snd_conv)

function write_str :: "u8 list \<Rightarrow> tty \<Rightarrow> nat list \<Rightarrow> tty res" where
  "write_str D t [] = Ok t"
| "write_str D t (c # cs) =
     (case escape c cs of
        (Some ds, rest) \<Rightarrow> write_str D (t\<lparr>t_fg := ansi_color ds (t_fg t)\<rparr>) rest
      | (None, rest) \<Rightarrow>
          rbind (put_char D t c) (\<lambda>t1. rbind (wrap_cursor D t1) (\<lambda>t2. write_str D t2 rest)))"
  by pat_completeness auto
termination
  by (relation "measure (\<lambda>(D, t, cs). length cs)") (auto dest!: escape_rest)

definition get_cur_loc :: "tty \<Rightarrow> (usize \<times> usize) res" where
  "get_cur_loc t =
     rbind (umul (t_cx t) 8) (\<lambda>x. rbind (umul (t_cy t) (t_font_height t)) (\<lambda>y. Ok (x, y)))"

text \<open>\<open>yay\<close> and \<open>sad\<close>, which differ in the face they draw.\<close>

definition tty_face ::
  "(framebuffer \<Rightarrow> usize \<Rightarrow> usize \<Rightarrow> rgba \<Rightarrow> framebuffer res) \<Rightarrow> tty \<Rightarrow> rgba option \<Rightarrow> tty res" where
  "tty_face draw t color =
     rbind (get_cur_loc t) (\<lambda>(x, y).
       case t_fb t of
         None \<Rightarrow> Ok t
       | Some fb \<Rightarrow>
           rbind (uadd y (t_font_height t div 4)) (\<lambda>y'.
           rbind (draw fb x y' (case color of None \<Rightarrow> t_fg t | Some c \<Rightarrow> c)) (\<lambda>fb'.
           rbind (uadd (t_cx t) 1) (\<lambda>cx.
             let t1 = t\<lparr>t_fb := Some fb', t_cx := cx\<rparr>
             in rbind (if t_cx t1 \<ge> t_width t1
                       then rbind (uadd (t_cy t1) 1) (\<lambda>cy. Ok (t1\<lparr>t_cx := 0, t_cy := cy\<rparr>))
                       else Ok t1) (\<lambda>t2.
                  Ok (if t_cy t2 \<ge> t_height t2 then t2\<lparr>t_cy := 0\<rparr> else t2))))))"

definition yay :: "tty \<Rightarrow> rgba option \<Rightarrow> tty res" where
  "yay t color = tty_face draw_smiley t color"

definition sad :: "tty \<Rightarrow> rgba option \<Rightarrow> tty res" where
  "sad t color = tty_face draw_sad_face t color"

section \<open>Invariant\<close>

definition good_fb :: "framebuffer option \<Rightarrow> bool" where
  "good_fb o' = (case o' of None \<Rightarrow> True
     | Some fb \<Rightarrow> fb_ok fb \<and> fb_width fb \<le> isize_max \<and> fb_height fb \<le> isize_max)"

lemma good_fb_shape: "good_fb (Some fb) \<Longrightarrow> same_shape fb fb' \<Longrightarrow> good_fb (Some fb')"
  by (simp add: good_fb_def same_shape_ok) (simp add: same_shape_def)

text \<open>
  A console on a screen of at least one cell: its buffer has room for every cell, the cursor is on the
  screen, and the font's height is that of a header field.
\<close>

definition tty_ok :: "tty \<Rightarrow> bool" where
  "tty_ok t \<longleftrightarrow> 0 < t_width t \<and> t_width t \<le> 130 \<and> 0 < t_height t \<and> t_height t \<le> 50 \<and>
     length (t_buf t) = 6500 \<and> t_cx t < t_width t \<and> t_cy t < t_height t \<and> good_fb (t_fb t) \<and>
     t_font_height t < 4294967296"

text \<open>The same with the cursor possibly just off the screen, as it is inside \<open>write_str\<close>.\<close>

definition tty_mid :: "tty \<Rightarrow> bool" where
  "tty_mid t \<longleftrightarrow> 0 < t_width t \<and> t_width t \<le> 130 \<and> 0 < t_height t \<and> t_height t \<le> 50 \<and>
     length (t_buf t) = 6500 \<and> t_cx t \<le> t_width t \<and> t_cy t \<le> t_height t \<and>
     (t_cx t < t_width t \<or> t_cy t < t_height t) \<and> good_fb (t_fb t) \<and>
     t_font_height t < 4294967296"

lemma tty_ok_mid: "tty_ok t \<Longrightarrow> tty_mid t"
  by (simp add: tty_ok_def tty_mid_def)

text \<open>What drawing leaves alone: everything but the framebuffer and the font height.\<close>

definition same_text :: "tty \<Rightarrow> tty \<Rightarrow> bool" where
  "same_text t t' \<longleftrightarrow> t_width t' = t_width t \<and> t_height t' = t_height t \<and> t_buf t' = t_buf t \<and>
     t_cx t' = t_cx t \<and> t_cy t' = t_cy t \<and> t_fg t' = t_fg t"

lemma same_text_refl [simp]: "same_text t t"
  by (simp add: same_text_def)

lemma same_text_trans: "same_text a b \<Longrightarrow> same_text b c \<Longrightarrow> same_text a c"
  by (simp add: same_text_def)

text \<open>Drawing a character never panics, whatever the font file holds.\<close>

lemma draw_char_total:
  assumes "length D \<le> isize_max" and "good_fb fb" and "fh < 4294967296"
  shows "\<exists>fh' fb'. draw_char_psf D fh fb x y c color = Ok (fh', fb') \<and> good_fb fb' \<and> fh' < 4294967296"
proof (cases "parse_psf D fh")
  case (Pair fo fh')
  show ?thesis
  proof (cases fo)
    case None
    with Pair assms parse_psf_none show ?thesis by (auto simp: draw_char_psf_def)
  next
    case (Some f)
    note p = Pair [unfolded Some]
    note b = parse_psf_bounds [OF p]
    let ?w = "font_width f" and ?h = "font_height f" and ?st = "glyph_index f c * bytes_per_glyph f"
    have "?w * ?h \<le> 4294967295 * 4294967295" using b(1,2) by (intro mult_le_mono) simp_all
    then have mul: "umul ?w ?h = Ok (?w * ?h)" by (intro umul_ok) simp
    have "glyph_index f c \<le> 4294967295"
      using b(6) by (auto simp: glyph_index_def Let_def)
    then have "?st \<le> 4294967295 * 4294967295" using b(5) by (intro mult_le_mono) simp_all
    then have st: "saturating_mul (glyph_index f c) (bytes_per_glyph f) = ?st"
      "?st \<noteq> usize_bound - 1" "uadd ?st (bytes_per_glyph f) = Ok (?st + bytes_per_glyph f)"
      using b(5) by (auto simp: saturating_mul_def)
    show ?thesis
    proof (cases "?w * ?h = 0 \<or> ?w * ?h > 1024 \<or> ?st + bytes_per_glyph f > length (glyphs f)")
      case True
      with p mul st b(2,3) assms(2) show ?thesis
        by (auto simp: draw_char_psf_def Let_def)
    next
      case False
      then have small: "?w * ?h \<le> 1024" by simp
      from glyph_bitmap_ok [OF small order_refl, of "sub_list (glyphs f) ?st (?st + bytes_per_glyph f)" color]
      obtain bm where bm: "rfold (\<lambda>row. rfold (glyph_bit (sub_list (glyphs f) ?st (?st + bytes_per_glyph f)) ?w color row)
          [0..<?w]) [0..<?h] (replicate 1024 (0, 0, 0, 0)) = Ok bm" "length bm = 1024" by blast
      show ?thesis
      proof (cases fb)
        case None
        with p mul st b(2,3) False bm(1) show ?thesis
          by (simp add: draw_char_psf_def Let_def good_fb_def)
      next
        case (Some fb0)
        with assms(2) have ok: "fb_ok fb0" "fb_width fb0 \<le> isize_max" "fb_height fb0 \<le> isize_max"
          by (simp_all add: good_fb_def)
        from draw_bitmap_clips_aux [OF ok(1) _ ok(2,3), of ?w ?h "sub_list bm 0 (?w * ?h)" x y] small
        obtain fb' where "draw_bitmap fb0 (sub_list bm 0 (?w * ?h)) ?w ?h x y = Ok fb'" "same_shape fb0 fb'"
          by auto
        with p mul st b(2,3) False bm Some small good_fb_shape assms(2) show ?thesis
          by (simp add: draw_char_psf_def Let_def)
      qed
    qed
  qed
qed

lemma tty_draw_ok:
  assumes "length D \<le> isize_max" and "good_fb (t_fb t)" and "t_font_height t < 4294967296"
    and "x < 130" and "y < 50"
  shows "\<exists>t'. tty_draw D t x y c color = Ok t' \<and> same_text t t' \<and> good_fb (t_fb t') \<and>
    t_font_height t' < 4294967296"
proof -
  have "y * t_font_height t \<le> 50 * 4294967296" using assms(3,5) by (intro mult_le_mono) simp_all
  then have pre: "umul x 8 = Ok (x * 8)" "umul y (t_font_height t) = Ok (y * t_font_height t)"
    using assms(4) by (auto intro!: umul_ok)
  from draw_char_total [OF assms(1-3), of "x * 8" "y * t_font_height t" c color]
  obtain fh' fb' where "draw_char_psf D (t_font_height t) (t_fb t) (x * 8) (y * t_font_height t) c color = Ok (fh', fb')"
    "good_fb fb'" "fh' < 4294967296" by blast
  with pre show ?thesis by (simp add: tty_draw_def same_text_def)
qed

section \<open>Scrolling and editing the text\<close>

lemma cell_in:
  assumes "y < h" and "x < w" and "w \<le> 130" and "h \<le> (50 :: nat)"
  shows "y * w + x < 6500"
proof -
  have "y * w + x < Suc y * w" using assms(2) by simp
  also have "\<dots> \<le> 50 * 130" using assms by (intro mult_le_mono) simp_all
  finally show ?thesis by simp
qed

lemma scroll_row:
  assumes "length b = 6500" and "Suc y * w + w \<le> 6500" and "m \<le> w"
    and "\<And>k. k < 6500 \<Longrightarrow> b ! k = (if k < y * w then buf ! (k + w) else buf ! k)"
  shows "\<exists>b'. rfold (scroll_cell w (Suc y)) [0..<m] b = Ok b' \<and> length b' = 6500 \<and>
    (\<forall>k<6500. b' ! k = (if k < y * w + m then buf ! (k + w) else buf ! k))"
  using assms(3)
proof (induction m)
  case 0
  show ?case using assms(1,4) by simp
next
  case (Suc m)
  then obtain b1 where b1: "rfold (scroll_cell w (Suc y)) [0..<m] b = Ok b1" "length b1 = 6500"
    "\<And>k. k < 6500 \<Longrightarrow> b1 ! k = (if k < y * w + m then buf ! (k + w) else buf ! k)" by auto
  have lt: "Suc y * w + m < 6500" and "y * w + m < 6500" using assms(2) Suc.prems by auto
  then have step: "scroll_cell w (Suc y) m b1 = Ok (b1[y * w + m := b1 ! (Suc y * w + m)])"
    using b1(2) by (simp add: scroll_cell_def)
  have "b1 ! (Suc y * w + m) = buf ! (y * w + m + w)"
    using b1(3) [OF lt] Suc.prems by (simp add: algebra_simps)
  with b1 step \<open>y * w + m < 6500\<close> show ?case
    by (simp add: rfold_append nth_list_update less_Suc_eq)
qed

lemma scroll_rows:
  assumes "length buf = 6500" and "Suc n * w \<le> 6500"
  shows "\<exists>b. rfold (\<lambda>y. rfold (scroll_cell w y) [0..<w]) [1..<Suc n] buf = Ok b \<and> length b = 6500 \<and>
    (\<forall>k<6500. b ! k = (if k < n * w then buf ! (k + w) else buf ! k))"
  using assms(2)
proof (induction n)
  case 0
  show ?case using assms(1) by simp
next
  case (Suc n)
  then obtain b where b: "rfold (\<lambda>y. rfold (scroll_cell w y) [0..<w]) [1..<Suc n] buf = Ok b" "length b = 6500"
    "\<And>k. k < 6500 \<Longrightarrow> b ! k = (if k < n * w then buf ! (k + w) else buf ! k)" by auto
  from scroll_row [of b n w w buf] b(2,3) Suc.prems
  obtain b' where "rfold (scroll_cell w (Suc n)) [0..<w] b = Ok b'" "length b' = 6500"
    "\<forall>k<6500. b' ! k = (if k < n * w + w then buf ! (k + w) else buf ! k)" by (auto simp: algebra_simps)
  with b(1) show ?case by (simp add: rfold_append add.commute)
qed

lemma blank_row:
  assumes "length b = 6500" and "0 < h" and "h * w \<le> 6500" and "m \<le> w"
  shows "\<exists>b'. rfold (blank_cell h w fg) [0..<m] b = Ok b' \<and> length b' = 6500 \<and>
    (\<forall>k<6500. b' ! k = (if (h - 1) * w \<le> k \<and> k < (h - 1) * w + m then cell_empty fg else b ! k))"
  using assms(4)
proof (induction m)
  case 0
  show ?case using assms(1) by (simp, intro allI impI, linarith)
next
  case (Suc m)
  then obtain b1 where b1: "rfold (blank_cell h w fg) [0..<m] b = Ok b1" "length b1 = 6500"
    "\<And>k. k < 6500 \<Longrightarrow> b1 ! k = (if (h - 1) * w \<le> k \<and> k < (h - 1) * w + m then cell_empty fg else b ! k)"
    by auto
  have "(h - 1) * w + w = h * w" using assms(2) by (cases h) simp_all
  then have "(h - 1) * w + m < 6500" using assms(3) Suc.prems by linarith
  with b1(2) assms(2) have "blank_cell h w fg m b1 = Ok (b1[(h - 1) * w + m := cell_empty fg])"
    by (simp add: blank_cell_def cell_empty_def)
  with b1 \<open>(h - 1) * w + m < 6500\<close> show ?case
    by (auto simp: rfold_append nth_list_update less_Suc_eq)
qed

lemma tty_background_ok:
  assumes "good_fb (t_fb t)"
  shows "\<exists>t'. tty_background t = Ok t' \<and> same_text t t' \<and> good_fb (t_fb t') \<and> t_font_height t' = t_font_height t"
proof (cases "t_fb t")
  case None
  with assms show ?thesis by (simp add: tty_background_def)
next
  case (Some fb)
  with assms have "fb_ok fb" by (simp add: good_fb_def)
  from clear_screen_shape [OF this] obtain fb' where "clear_screen fb BACKGROUND = Ok fb'" "same_shape fb fb'"
    by blast
  with Some assms good_fb_shape show ?thesis by (simp add: tty_background_def same_text_def)
qed

lemma redraw_ok:
  assumes "length D \<le> isize_max" and "t_width t \<le> 130" and "t_height t \<le> 50" and "length (t_buf t) = 6500"
    and "good_fb (t_fb t)" and "t_font_height t < 4294967296"
  shows "\<exists>t'. rfold (\<lambda>y. rfold (\<lambda>x. redraw_cell D P y x) [0..<t_width t]) [0..<t_height t] t = Ok t' \<and>
    same_text t t' \<and> good_fb (t_fb t') \<and> t_font_height t' < 4294967296"
proof -
  let ?I = "\<lambda>s. same_text t s \<and> good_fb (t_fb s) \<and> t_font_height s < 4294967296"
  have cell: "\<exists>s'. redraw_cell D P y x s = Ok s' \<and> ?I s'"
    if "x \<in> set [0..<t_width t]" "y \<in> set [0..<t_height t]" "?I s" for x y s
  proof -
    have lt: "y < t_height t" "x < t_width t" using that by simp_all
    have i: "y * t_width t + x < 6500" using cell_in [OF lt] assms(2,3) by simp
    have w: "t_width s = t_width t" "t_buf s = t_buf t" using that(3) by (simp_all add: same_text_def)
    have pre: "umul y (t_width s) = Ok (y * t_width t)" "uadd (y * t_width t) x = Ok (y * t_width t + x)"
      "index (t_buf s) (y * t_width t + x) = Ok (t_buf t ! (y * t_width t + x))"
      using i w assms(4) by (auto intro!: umul_ok uadd_ok)
    show ?thesis
    proof (cases "P (t_buf t ! (y * t_width t + x))")
      case True
      from tty_draw_ok [of D s x y] lt that(3) assms(1-3) obtain s' where
        "tty_draw D s x y (cell_ch (t_buf t ! (y * t_width t + x))) (cell_color (t_buf t ! (y * t_width t + x))) = Ok s'"
        "same_text s s'" "good_fb (t_fb s')" "t_font_height s' < 4294967296" by fastforce
      with True pre that(3) same_text_trans show ?thesis by (fastforce simp: redraw_cell_def)
    qed (use pre that(3) in \<open>simp add: redraw_cell_def\<close>)
  qed
  have row: "\<exists>s'. rfold (\<lambda>x. redraw_cell D P y x) [0..<t_width t] s = Ok s' \<and> ?I s'"
    if "y \<in> set [0..<t_height t]" "?I s" for y s
    by (rule rfold_invariant [where I = ?I]) (use cell that in blast)+
  show ?thesis
    by (rule rfold_invariant [where I = ?I]) (use row assms(5,6) in auto)
qed

text \<open>The cell shown at a position.\<close>

definition screen :: "tty \<Rightarrow> usize \<Rightarrow> usize \<Rightarrow> cell" where
  "screen t y x = t_buf t ! (y * t_width t + x)"

lemma scroll_up_text:
  assumes "length D \<le> isize_max" and "tty_mid t"
  shows "\<exists>t'. scroll_up D t = Ok t' \<and> tty_mid t' \<and> t_width t' = t_width t \<and> t_height t' = t_height t \<and>
    t_cx t' = t_cx t \<and> t_cy t' = t_cy t \<and> t_fg t' = t_fg t \<and>
    (\<forall>y<t_height t. \<forall>x<t_width t. screen t' y x =
      (if y + 1 < t_height t then screen t (y + 1) x else cell_empty (t_fg t)))"
proof -
  let ?w = "t_width t" and ?h = "t_height t"
  have wh: "0 < ?w" "?w \<le> 130" "0 < ?h" "?h \<le> 50" "length (t_buf t) = 6500"
    using assms(2) by (simp_all add: tty_mid_def)
  obtain h where h: "?h = Suc h" using wh(3) by (cases ?h) auto
  have "?h * ?w \<le> 50 * 130" using wh by (intro mult_le_mono) simp_all
  then have hw: "Suc h * ?w \<le> 6500" by (simp add: h)
  from scroll_rows [OF wh(5) hw] obtain b1 where
    b1: "rfold (\<lambda>y. rfold (scroll_cell ?w y) [0..<?w]) [1..<?h] (t_buf t) = Ok b1" "length b1 = 6500"
    "\<And>k. k < 6500 \<Longrightarrow> b1 ! k = (if k < h * ?w then t_buf t ! (k + ?w) else t_buf t ! k)" by (auto simp: h)
  from blank_row [OF b1(2) wh(3) _ order_refl, of ?w "t_fg t"] hw obtain b2 where
    b2: "rfold (blank_cell ?h ?w (t_fg t)) [0..<?w] b1 = Ok b2" "length b2 = 6500"
    "\<And>k. k < 6500 \<Longrightarrow> b2 ! k = (if h * ?w \<le> k \<and> k < h * ?w + ?w then cell_empty (t_fg t) else b1 ! k)"
    by (auto simp: h)
  from tty_background_ok [of "t\<lparr>t_buf := b2\<rparr>"] assms(2) obtain t1 where
    t1: "tty_background (t\<lparr>t_buf := b2\<rparr>) = Ok t1" "same_text (t\<lparr>t_buf := b2\<rparr>) t1" "good_fb (t_fb t1)"
    "t_font_height t1 < 4294967296" by (auto simp: tty_mid_def)
  have dim: "t_width t1 = ?w" "t_height t1 = ?h" "t_buf t1 = b2" using t1(2) by (simp_all add: same_text_def)
  from redraw_ok [OF assms(1), of t1 "\<lambda>c. cell_ch c \<noteq> 0"] dim wh b2(2) t1(3,4) obtain t2 where
    t2: "rfold (\<lambda>y. rfold (\<lambda>x. redraw_cell D (\<lambda>c. cell_ch c \<noteq> 0) y x) [0..<?w]) [0..<?h] t1 = Ok t2"
    "same_text t1 t2" "good_fb (t_fb t2)" "t_font_height t2 < 4294967296" by auto
  have op: "scroll_up D t = Ok t2" using b1(1) b2(1) t1(1) t2(1) dim by (simp add: scroll_up_def)
  have tx: "t_buf t2 = b2" "t_width t2 = ?w" "t_height t2 = ?h" "t_cx t2 = t_cx t" "t_cy t2 = t_cy t" "t_fg t2 = t_fg t"
    using t1(2) t2(2) by (simp_all add: same_text_def)
  have "screen t2 y x = (if y + 1 < ?h then screen t (y + 1) x else cell_empty (t_fg t))"
    if "y < ?h" "x < ?w" for y x
  proof (cases "y + 1 < ?h")
    case True
    have "y * ?w + x < Suc y * ?w" using that(2) by simp
    also have "\<dots> \<le> h * ?w" using True h by (intro mult_le_mono1) simp
    finally have "y * ?w + x < h * ?w" .
    moreover have "y * ?w + x < 6500" using cell_in [OF that] wh by simp
    ultimately show ?thesis using True b1(3) b2(3) by (simp add: screen_def tx add.commute add.left_commute)
  next
    case False
    with that(1) h have "y = h" by simp
    moreover have "y * ?w + x < 6500" using cell_in [OF that] wh by simp
    ultimately show ?thesis using that(2) b2(3) by (simp add: screen_def tx h)
  qed
  moreover have "tty_mid t2" using assms(2) tx b2(2) t2(3,4) by (simp add: tty_mid_def)
  ultimately show ?thesis using op tx by blast
qed

lemma set_char_ok:
  assumes "length D \<le> isize_max" and "tty_ok t"
  shows "\<exists>t'. set_char D t (t_cx t) (t_cy t) c color = Ok t' \<and>
    same_text (t\<lparr>t_buf := (t_buf t)[t_cy t * t_width t + t_cx t := \<lparr>cell_ch = c, cell_color = color\<rparr>]\<rparr>) t' \<and>
    good_fb (t_fb t') \<and> t_font_height t' < 4294967296"
proof -
  have b: "t_cx t < t_width t" "t_cy t < t_height t" "t_width t \<le> 130" "t_height t \<le> 50"
    "length (t_buf t) = 6500" using assms(2) by (simp_all add: tty_ok_def)
  let ?i = "t_cy t * t_width t + t_cx t"
  have i: "?i < 6500" using cell_in [OF b(2,1)] b by simp
  then have pre: "umul (t_cy t) (t_width t) = Ok (t_cy t * t_width t)"
    "uadd (t_cy t * t_width t) (t_cx t) = Ok ?i" by (auto intro!: umul_ok uadd_ok)
  let ?t = "t\<lparr>t_buf := (t_buf t)[?i := \<lparr>cell_ch = c, cell_color = color\<rparr>]\<rparr>"
  from tty_draw_ok [OF assms(1), of ?t "t_cx t" "t_cy t" c color] assms(2) b obtain t' where
    "tty_draw D ?t (t_cx t) (t_cy t) c color = Ok t'" "same_text ?t t'" "good_fb (t_fb t')"
    "t_font_height t' < 4294967296" by (auto simp: tty_ok_def)
  with pre i b show ?thesis by (simp add: set_char_def)
qed

lemma delete_at_ok:
  assumes "tty_ok t"
  shows "\<exists>t'. delete_at t (t_cy t * t_width t) (t_cy t * t_width t + t_width t) = Ok t' \<and>
    length (t_buf t') = 6500 \<and> t' = t\<lparr>t_buf := t_buf t'\<rparr>"
proof -
  let ?r = "t_cy t * t_width t" and ?w = "t_width t"
  have b: "t_cx t < ?w" "t_cy t < t_height t" "?w \<le> 130" "t_height t \<le> 50" "length (t_buf t) = 6500"
    using assms by (simp_all add: tty_ok_def)
  have last: "?r + (?w - 1) < 6500" using cell_in [OF b(2), of "?w - 1" ?w] b by simp
  have "\<exists>b'. rfold (shift_cell ?r) [t_cx t..<?w - 1] (t_buf t) = Ok b' \<and> length b' = 6500"
  proof (rule rfold_invariant [where I = "\<lambda>b. length b = 6500"])
    fix x and buf :: "cell list"
    assume "x \<in> set [t_cx t..<?w - 1]" and len: "length buf = 6500"
    then have "?r + x + 1 < 6500" using last by auto
    with len show "\<exists>s'. shift_cell ?r x buf = Ok s' \<and> length s' = 6500"
      by (simp add: shift_cell_def)
  qed (rule b(5))
  then obtain b' where "rfold (shift_cell ?r) [t_cx t..<?w - 1] (t_buf t) = Ok b'" "length b' = 6500" by blast
  moreover have "?r + ?w - 1 < 6500" "1 \<le> ?w" "1 \<le> ?r + ?w" using last b(1) by simp_all
  ultimately show ?thesis by (simp add: delete_at_def)
qed

lemma redraw_row_ok:
  assumes "length D \<le> isize_max" and "tty_ok t"
  shows "\<exists>t'. redraw_row D (t_cy t * t_width t) t = Ok t' \<and> tty_ok t'"
proof -
  let ?I = "\<lambda>s. same_text t s \<and> good_fb (t_fb s) \<and> t_font_height s < 4294967296"
  have b: "t_cy t < t_height t" "t_width t \<le> 130" "t_height t \<le> 50" "length (t_buf t) = 6500"
    using assms(2) by (simp_all add: tty_ok_def)
  have "\<exists>t'. redraw_row D (t_cy t * t_width t) t = Ok t' \<and> ?I t'"
    unfolding redraw_row_def
  proof (rule rfold_invariant [where I = ?I])
    fix x s assume x: "x \<in> set [0..<t_width t]" and I: "?I s"
    then have i: "t_cy t * t_width t + x < 6500" using cell_in [OF b(1)] b by simp
    have same: "t_buf s = t_buf t" "t_cy s = t_cy t" using I by (simp_all add: same_text_def)
    have pre: "uadd (t_cy t * t_width t) x = Ok (t_cy t * t_width t + x)"
      "index (t_buf s) (t_cy t * t_width t + x) = Ok (t_buf t ! (t_cy t * t_width t + x))"
      using i same b(4) by simp_all
    let ?c = "t_buf t ! (t_cy t * t_width t + x)"
    from tty_draw_ok [OF assms(1), of s x "t_cy s" "cell_ch ?c" "cell_color ?c"] I x b same obtain s' where
      "tty_draw D s x (t_cy s) (cell_ch ?c) (cell_color ?c) = Ok s'" "same_text s s'" "good_fb (t_fb s')"
      "t_font_height s' < 4294967296" by auto
    with pre I same_text_trans show "\<exists>s'. rbind (uadd (t_cy t * t_width t) x) (\<lambda>i. rbind (index (t_buf s) i) (\<lambda>c.
        tty_draw D s x (t_cy s) (cell_ch c) (cell_color c))) = Ok s' \<and> ?I s'" by fastforce
  qed (use assms(2) in \<open>simp add: tty_ok_def\<close>)
  then obtain t' where "redraw_row D (t_cy t * t_width t) t = Ok t'" "?I t'" by blast
  moreover from this assms(2) have "tty_ok t'" by (simp add: tty_ok_def same_text_def)
  ultimately show ?thesis by blast
qed

lemma tty_delete_ok:
  assumes "length D \<le> isize_max" and "tty_ok t"
  shows "\<exists>t'. tty_delete D t bksp = Ok t' \<and> tty_ok t'"
proof (cases "bksp \<and> t_cx t = 0")
  case True
  have b: "t_cx t < t_width t" "t_cy t < t_height t" "t_width t \<le> 130" "t_height t \<le> 50"
    using assms(2) by (simp_all add: tty_ok_def)
  have "t_cy t * t_width t + 0 < 6500" using b by (intro cell_in [of _ "t_height t"]) simp_all
  with True assms(2) b show ?thesis by (simp add: tty_delete_def)
next
  case False
  let ?t = "if bksp then t\<lparr>t_cx := t_cx t - 1\<rparr> else t"
  have b: "t_cx t < t_width t" "t_cy t < t_height t" "t_width t \<le> 130" "t_height t \<le> 50"
    using assms(2) by (simp_all add: tty_ok_def)
  have r: "t_cy t * t_width t + 0 < 6500" using b by (intro cell_in [of _ "t_height t"]) simp_all
  have ok: "tty_ok ?t" using assms(2) by (auto simp: tty_ok_def)
  have sel: "t_cy ?t = t_cy t" "t_width ?t = t_width t" by simp_all
  from delete_at_ok [OF ok] obtain t1 where
    t1: "delete_at ?t (t_cy t * t_width t) (t_cy t * t_width t + t_width t) = Ok t1"
    "length (t_buf t1) = 6500" "t1 = ?t\<lparr>t_buf := t_buf t1\<rparr>" unfolding sel by blast
  have ok1: "tty_ok t1" using ok t1(2) by (subst t1(3)) (simp add: tty_ok_def)
  then have "good_fb (t_fb t1)" by (simp add: tty_ok_def)
  from tty_background_ok [OF this] obtain t2 where
    t2: "tty_background t1 = Ok t2" "same_text t1 t2" "good_fb (t_fb t2)" "t_font_height t2 = t_font_height t1" by blast
  have ok2: "tty_ok t2" using ok1 t2 by (simp add: tty_ok_def same_text_def)
  have "t_cy t1 = t_cy ?t" "t_width t1 = t_width ?t" by (subst t1(3), simp)+
  then have "t_cy t2 = t_cy t" "t_width t2 = t_width t"
    using t2(2) sel by (simp_all add: same_text_def)
  with redraw_row_ok [OF assms(1) ok2] obtain t3 where
    t3: "redraw_row D (t_cy t * t_width t) t2 = Ok t3" "tty_ok t3" by auto
  from r b have "umul (t_cy t) (t_width t) = Ok (t_cy t * t_width t)"
    "uadd (t_cy t * t_width t) (t_width t) = Ok (t_cy t * t_width t + t_width t)" by simp_all
  with False b t1(1) t2(1) t3 show ?thesis by (auto simp: tty_delete_def)
qed

lemma put_char_ok:
  assumes "length D \<le> isize_max" and "tty_ok t"
  shows "\<exists>t'. put_char D t c = Ok t' \<and> tty_mid t'"
proof -
  have b: "t_cx t < t_width t" "t_cy t < t_height t" "t_width t \<le> 130" "t_height t \<le> 50"
    using assms(2) by (simp_all add: tty_ok_def)
  consider "c = 10" | "c = 13" | "c = 8" | "c = 127" | "c \<notin> {10, 13, 8, 127}" by blast
  then show ?thesis
  proof cases
    case 5
    from set_char_ok [OF assms, of c "t_fg t"] obtain t1 where
      "set_char D t (t_cx t) (t_cy t) c (t_fg t) = Ok t1"
      "same_text (t\<lparr>t_buf := (t_buf t)[t_cy t * t_width t + t_cx t := \<lparr>cell_ch = c, cell_color = t_fg t\<rparr>]\<rparr>) t1"
      "good_fb (t_fb t1)" "t_font_height t1 < 4294967296" by blast
    with 5 b assms(2) show ?thesis by (simp add: put_char_def tty_mid_def tty_ok_def same_text_def)
  qed (use assms b tty_delete_ok [OF assms, of True] tty_delete_ok [OF assms, of False] tty_ok_mid
      in \<open>auto simp: put_char_def tty_mid_def tty_ok_def\<close>)
qed

lemma wrap_cursor_ok:
  assumes "length D \<le> isize_max" and "tty_mid t"
  shows "\<exists>t'. wrap_cursor D t = Ok t' \<and> tty_ok t'"
proof -
  have "\<exists>t1. (if t_cx t \<ge> t_width t
      then rbind (uadd (t_cy t) 1) (\<lambda>y. Ok (t\<lparr>t_cx := 0, t_cy := y\<rparr>)) else Ok t) = Ok t1 \<and>
      tty_mid t1 \<and> t_cx t1 < t_width t1"
    using assms(2) by (auto simp: tty_mid_def)
  then obtain t1 where t1: "(if t_cx t \<ge> t_width t
      then rbind (uadd (t_cy t) 1) (\<lambda>y. Ok (t\<lparr>t_cx := 0, t_cy := y\<rparr>)) else Ok t) = Ok t1"
      "tty_mid t1" "t_cx t1 < t_width t1" by blast
  show ?thesis
  proof (cases "t_cy t1 \<ge> t_height t1")
    case True
    from scroll_up_text [OF assms(1) t1(2)] obtain t2 where
      "scroll_up D t1 = Ok t2" "tty_mid t2" "t_width t2 = t_width t1" "t_cx t2 = t_cx t1" by blast
    with t1 True show ?thesis by (auto simp: wrap_cursor_def tty_mid_def tty_ok_def)
  next
    case False
    with t1 show ?thesis by (auto simp: wrap_cursor_def tty_mid_def tty_ok_def)
  qed
qed

lemma write_str_ok:
  assumes "length D \<le> isize_max" and "tty_ok t"
  shows "\<exists>t'. write_str D t cs = Ok t' \<and> tty_ok t'"
  using assms
proof (induction D t cs rule: write_str.induct)
  case (1 D t)
  then show ?case by simp
next
  case (2 D t c cs)
  obtain o' rest where e: "escape c cs = (o', rest)" by (cases "escape c cs")
  show ?case
  proof (cases o')
    case (Some ds)
    have "tty_ok (t\<lparr>t_fg := ansi_color ds (t_fg t)\<rparr>)" using 2(4) by (simp add: tty_ok_def)
    with 2(2) [OF e [symmetric] Some 2(3)] e Some show ?thesis by simp
  next
    case None
    obtain t1 where t1: "put_char D t c = Ok t1" "tty_mid t1" using put_char_ok [OF 2(3,4)] by blast
    obtain t2 where t2: "wrap_cursor D t1 = Ok t2" "tty_ok t2" using wrap_cursor_ok [OF 2(3) t1(2)] by blast
    with 2(1) [OF e [symmetric] None t1(1) t2(1) 2(3) t2(2)] e None t1(1) show ?thesis by simp
  qed
qed

section \<open>Properties\<close>

text \<open>
  C20. On a screen of at least one cell, printing any string never panics, whatever characters, control
  codes and escape sequences it holds and whatever the font file contains: \<open>write_str\<close> returns, with the
  cursor on the screen again, the buffer of the same size and the framebuffer well formed.
\<close>

theorem write_str_total:
  assumes "length D \<le> isize_max" and "tty_ok t"
  shows "\<exists>t'. write_str D t cs = Ok t' \<and> tty_ok t'"
  using assms by (rule write_str_ok)

definition demo_tty :: tty where
  "demo_tty = \<lparr>t_width = 3, t_height = 2, t_buf = TTY_BUFFER, t_cx = 0, t_cy = 1, t_fg = WHITE,
     t_fb = None, t_font_height = 8\<rparr>"

lemma demo_tty_ok: "tty_ok demo_tty"
  by (simp add: tty_ok_def demo_tty_def TTY_BUFFER_def good_fb_def)

theorem write_str_total_witness:
  "\<exists>t'. write_str demo_font demo_tty [72, 105, 10, 8, 27, 91, 51, 49, 109, 127, 13] = Ok t' \<and> tty_ok t'"
  by (rule write_str_total [OF _ demo_tty_ok]) (simp add: demo_font_def)

text \<open>
  Scrolling moves every line of text up by one and leaves an empty last line: the cell at a position
  is the one that was below it, in place, without losing or duplicating a line.
\<close>

theorem scroll_up_shifts:
  assumes "length D \<le> isize_max" and "tty_ok t"
  shows "\<exists>t'. scroll_up D t = Ok t' \<and> t_cx t' = t_cx t \<and> t_cy t' = t_cy t \<and>
    (\<forall>y<t_height t. \<forall>x<t_width t. screen t' y x =
      (if y + 1 < t_height t then screen t (y + 1) x else cell_empty (t_fg t)))"
  using scroll_up_text [OF assms(1) tty_ok_mid [OF assms(2)]] by blast

theorem scroll_up_shifts_witness:
  "\<exists>t'. scroll_up demo_font demo_tty = Ok t' \<and> screen t' 1 2 = cell_empty WHITE"
proof -
  have "length demo_font \<le> isize_max" by (simp add: demo_font_def)
  from scroll_up_shifts [OF this demo_tty_ok] obtain t' where "scroll_up demo_font demo_tty = Ok t'"
    "\<forall>y<t_height demo_tty. \<forall>x<t_width demo_tty. screen t' y x =
      (if y + 1 < t_height demo_tty then screen demo_tty (y + 1) x else cell_empty (t_fg demo_tty))" by blast
  then show ?thesis by (auto simp: demo_tty_def)
qed

definition printable :: "nat \<Rightarrow> bool" where
  "printable c \<longleftrightarrow> c \<notin> {8, 10, 13, 27, 127}"




text \<open>
  A console made without a framebuffer has no cells, and printing a character on it panics: the
  cursor wraps at once, and \<open>self.height - 1\<close> underflows after the scroll.
\<close>

theorem no_framebuffer_panics:
  assumes "printable c"
  shows "write_str D (tty_new None fh TTY_BUFFER) (c # cs) = Panic ArithOverflow"
proof -
  have "escape c cs = (None, cs)" using assms by (simp add: escape_def printable_def)
  moreover have "scroll_up D (t\<lparr>t_cx := 0, t_cy := 1\<rparr>) = Ok (t\<lparr>t_cx := 0, t_cy := 1\<rparr>)"
    if "t_width t = 0" "t_height t = 0" "t_fb t = None" for t
    using that by (simp add: scroll_up_def tty_background_def)
  ultimately show ?thesis
    using assms
    by (simp add: tty_new_def put_char_def printable_def set_char_def wrap_cursor_def usub_def scroll_up_def
        tty_background_def)
qed

theorem no_framebuffer_panics_witness:
  "write_str demo_font (tty_new None 8 TTY_BUFFER) [65] = Panic ArithOverflow"
  by (rule no_framebuffer_panics) (simp add: printable_def)

end
