(* ===== verification/Console.thy ===== *)
theory Console
  imports Tty
begin

text \<open>
  Console output: the printing macros of \<open>kernel/src/logging.rs\<close>, the serial port they also write to
  (\<open>kernel/src/serial.rs\<close>), and the macros \<open>yay!\<close>, \<open>sad!\<close> and \<open>clear!\<close> of \<open>kernel/src/main.rs\<close>.

  The state is the static \<open>TTY\<close> and what the serial port has sent. A formatted text is the list of its
  pieces, which \<open>fmt::Write\<close> hands to \<open>write_str\<close> one after the other; each piece is a list of characters.
  The serial driver is the crate \<open>uart_16550\<close>, of which the model keeps the characters sent.
  \<open>loc\<close> is what \<open>file!\<close>, \<open>line!\<close> and \<open>column!\<close> expand to at the place of the macro. The font file is \<open>D\<close>.
\<close>

type_synonym ustr = "nat list"

definition lit :: "string \<Rightarrow> ustr" where
  "lit s = map of_char s"

record console =
  con_tty :: "tty option"
  con_serial :: ustr

definition tty_write_fmt :: "u8 list \<Rightarrow> ustr list \<Rightarrow> tty \<Rightarrow> tty res" where
  "tty_write_fmt D pieces t = rfold (\<lambda>s t. write_str D t s) pieces t"

definition serial_print :: "ustr list \<Rightarrow> console \<Rightarrow> console" where
  "serial_print pieces c = c\<lparr>con_serial := con_serial c @ concat pieces\<rparr>"

definition print :: "u8 list \<Rightarrow> ustr list \<Rightarrow> console \<Rightarrow> console res" where
  "print D pieces c =
     (case con_tty c of
        Some t \<Rightarrow> rbind (tty_write_fmt D pieces t) (\<lambda>t'. Ok (c\<lparr>con_tty := Some t'\<rparr>))
      | None \<Rightarrow> Ok (serial_print [lit ''No TTY available!'' @ [10]] c))"

definition println :: "u8 list \<Rightarrow> ustr list \<Rightarrow> console \<Rightarrow> console res" where
  "println D pieces c = print D (pieces @ [[10]]) c"

definition all_print :: "u8 list \<Rightarrow> ustr list \<Rightarrow> console \<Rightarrow> console res" where
  "all_print D pieces c =
     (let c1 = serial_print pieces c
      in case con_tty c1 of
           Some t \<Rightarrow> rbind (tty_write_fmt D pieces t) (\<lambda>t'. Ok (c1\<lparr>con_tty := Some t'\<rparr>))
         | None \<Rightarrow> Ok c1)"

definition all_println :: "u8 list \<Rightarrow> ustr list \<Rightarrow> console \<Rightarrow> console res" where
  "all_println D pieces c = all_print D (pieces @ [[10]]) c"

text \<open>With the default features the status faces are on.\<close>

definition info :: "u8 list \<Rightarrow> ustr list \<Rightarrow> console \<Rightarrow> console res" where
  "info D args c =
     all_println D ([27 # lit ''[34m'', lit ''(o_o) '', lit ''[INFO ]:'' @ 27 # lit ''[0m ''] @ args) c"

definition warning :: "u8 list \<Rightarrow> ustr \<Rightarrow> ustr list \<Rightarrow> console \<Rightarrow> console res" where
  "warning D loc args c =
     all_println D ([27 # lit ''[33m'', lit ''(0_0) '', lit ''[WARN ]:'' @ 27 # lit ''[0m ''] @ args @
       [lit '' ['', loc, lit '']'']) c"

definition error :: "u8 list \<Rightarrow> ustr \<Rightarrow> ustr list \<Rightarrow> console \<Rightarrow> console res" where
  "error D loc args c =
     all_println D ([27 # lit ''[31m'', lit ''(X_X) '', lit ''[ERROR]:'' @ 27 # lit ''[0m ''] @ args @
       [lit '' ['', loc, lit '']'']) c"

definition nftodo :: "u8 list \<Rightarrow> ustr \<Rightarrow> ustr list \<Rightarrow> console \<Rightarrow> console res" where
  "nftodo D loc args c =
     all_println D ([27 # lit ''[35m'', lit ''(-_-) '', lit ''[TODO ]:'' @ 27 # lit ''[0m ''] @ args @
       [lit '' ['', loc, lit '']'']) c"

definition on_tty :: "(tty \<Rightarrow> tty res) \<Rightarrow> console \<Rightarrow> console res" where
  "on_tty f c = (case con_tty c of None \<Rightarrow> Ok c | Some t \<Rightarrow> rbind (f t) (\<lambda>t'. Ok (c\<lparr>con_tty := Some t'\<rparr>)))"

definition sad_macro :: "console \<Rightarrow> console res" where
  "sad_macro = on_tty (\<lambda>t. sad t (Some RED))"

definition yay_macro :: "console \<Rightarrow> console res" where
  "yay_macro = on_tty (\<lambda>t. yay t (Some GREEN))"

definition clear_macro :: "console \<Rightarrow> console res" where
  "clear_macro = on_tty clear_tty"

section \<open>Every output operation returns\<close>

definition console_ok :: "console \<Rightarrow> bool" where
  "console_ok c \<longleftrightarrow> (case con_tty c of None \<Rightarrow> True | Some t \<Rightarrow> tty_ok t)"

lemma tty_write_fmt_ok:
  assumes "length D \<le> isize_max" "tty_ok t"
  shows "\<exists>t'. tty_write_fmt D pieces t = Ok t' \<and> tty_ok t'"
  unfolding tty_write_fmt_def
  by (rule rfold_invariant) (use assms write_str_ok in blast)+

lemma print_ok:
  assumes "length D \<le> isize_max" "console_ok c"
  shows "\<exists>c'. print D pieces c = Ok c' \<and> console_ok c'"
proof (cases "con_tty c")
  case None
  then show ?thesis by (simp add: print_def console_ok_def serial_print_def)
next
  case (Some t)
  with assms(2) have "tty_ok t" by (simp add: console_ok_def)
  from tty_write_fmt_ok [OF assms(1) this, of pieces] Some show ?thesis
    by (auto simp: print_def console_ok_def)
qed

lemma all_print_ok:
  assumes "length D \<le> isize_max" "console_ok c"
  shows "\<exists>c'. all_print D pieces c = Ok c' \<and> console_ok c'"
proof (cases "con_tty c")
  case None
  then show ?thesis by (simp add: all_print_def console_ok_def serial_print_def)
next
  case (Some t)
  with assms(2) have "tty_ok t" by (simp add: console_ok_def)
  from tty_write_fmt_ok [OF assms(1) this, of pieces] Some show ?thesis
    by (auto simp: all_print_def console_ok_def serial_print_def)
qed

lemma log_ok:
  assumes "length D \<le> isize_max" "console_ok c"
  shows "\<exists>c'. info D args c = Ok c' \<and> console_ok c'" "\<exists>c'. warning D loc args c = Ok c' \<and> console_ok c'"
    "\<exists>c'. error D loc args c = Ok c' \<and> console_ok c'" "\<exists>c'. nftodo D loc args c = Ok c' \<and> console_ok c'"
  unfolding info_def warning_def error_def nftodo_def all_println_def
  by (rule all_print_ok [OF assms])+

lemma draw_points_put_all:
  assumes "x + 8 < usize_bound" "y + 8 < usize_bound" "\<forall>(dx, dy) \<in> set ps. dx < 8 \<and> dy < 8"
  shows "draw_points fb ps x y c = put_all (map (\<lambda>(dx, dy). (x + dx, y + dy, c)) ps) fb"
  using assms(3)
proof (induction ps arbitrary: fb)
  case (Cons p ps)
  with assms(1,2) show ?case
    by (cases p) (auto simp: draw_points_def put_all_def intro!: rbind_cong)
qed (simp add: draw_points_def put_all_def)

lemma draw_face_ok:
  assumes "fb_ok fb" "x + 8 < usize_bound" "y + 8 < usize_bound" "draw \<in> {draw_smiley, draw_sad_face}"
  shows "\<exists>fb'. draw fb x y c = Ok fb' \<and> same_shape fb fb'"
proof -
  have "\<exists>fb'. draw_points fb ps x y col = Ok fb' \<and> same_shape fb fb'" if "\<forall>(dx, dy) \<in> set ps. dx < 8 \<and> dy < 8" for ps col
    unfolding draw_points_put_all [OF assms(2,3) that] using put_all_paints [OF assms(1)] by blast
  then show ?thesis
    using assms(4) by (cases c) (auto simp: draw_smiley_def draw_sad_face_def face_eyes_def same_shape_def)
qed

lemma tty_face_ok:
  assumes "tty_ok t" "draw \<in> {draw_smiley, draw_sad_face}"
  shows "\<exists>t'. tty_face draw t col = Ok t' \<and> tty_ok t'"
proof -
  let ?x = "t_cx t * 8" and ?y = "t_cy t * t_font_height t"
  have small: "t_cx t < 130" "t_cy t < 50" "t_font_height t < 4294967296"
    using assms(1) by (auto simp: tty_ok_def)
  have "?y \<le> 50 * 4294967296" using small by (intro mult_le_mono) simp_all
  then have loc: "get_cur_loc t = Ok (?x, ?y)" and y: "?y + t_font_height t div 4 + 8 < usize_bound"
    using small by (simp_all add: get_cur_loc_def)
  show ?thesis
  proof (cases "t_fb t")
    case None
    then show ?thesis using loc assms(1) by (simp add: tty_face_def)
  next
    case (Some fb)
    with assms(1) have fb: "good_fb (Some fb)" by (simp add: tty_ok_def)
    then have "fb_ok fb" by (simp add: good_fb_def)
    moreover have "?x + 8 < usize_bound" using small by simp
    ultimately obtain fb' where
      "draw fb ?x (?y + t_font_height t div 4) (case col of None \<Rightarrow> t_fg t | Some c \<Rightarrow> c) = Ok fb'" "same_shape fb fb'"
      using draw_face_ok [OF _ _ y assms(2)] by blast
    with good_fb_shape [OF fb] Some loc y small assms(1) show ?thesis
      by (auto simp: tty_face_def Let_def tty_ok_def)
  qed
qed

lemma clear_tty_ok: "tty_ok t \<Longrightarrow> \<exists>t'. clear_tty t = Ok t' \<and> tty_ok t'"
  using tty_background_ok [of t] by (auto simp: clear_tty_def tty_ok_def same_text_def)

lemma macro_ok:
  assumes "console_ok c"
  shows "\<exists>c'. sad_macro c = Ok c' \<and> console_ok c'" "\<exists>c'. yay_macro c = Ok c' \<and> console_ok c'"
    "\<exists>c'. clear_macro c = Ok c' \<and> console_ok c'"
proof -
  have "\<exists>c'. on_tty f c = Ok c' \<and> console_ok c'" if "\<And>t. tty_ok t \<Longrightarrow> \<exists>t'. f t = Ok t' \<and> tty_ok t'" for f
  proof (cases "con_tty c")
    case None
    then show ?thesis by (simp add: on_tty_def console_ok_def)
  next
    case (Some t)
    with assms that [of t] show ?thesis by (auto simp: on_tty_def console_ok_def)
  qed
  note on = this
  show "\<exists>c'. sad_macro c = Ok c' \<and> console_ok c'" unfolding sad_macro_def sad_def
    by (rule on) (rule tty_face_ok, simp_all)
  show "\<exists>c'. yay_macro c = Ok c' \<and> console_ok c'" unfolding yay_macro_def yay_def
    by (rule on) (rule tty_face_ok, simp_all)
  show "\<exists>c'. clear_macro c = Ok c' \<and> console_ok c'" unfolding clear_macro_def
    by (rule on) (rule clear_tty_ok)
qed

end
