(* ===== verification/Machine.thy ===== *)
theory Machine
  imports Prelude
begin

text \<open>
  The processor and the devices as the drivers see them: a state \<open>'hw\<close> and the accesses the source makes,
  \<open>read_volatile\<close> and \<open>write_volatile\<close> (\<open>volatile_load\<close> and \<open>volatile_store\<close>) of 32 bits at an address, the
  port instructions of 32, 16 and 8 bits, and the model-specific registers. Reading may change the state.
  What a driver relies on is stated where it is used, as a predicate on the record.
\<close>

record 'hw machine =
  read_volatile :: "'hw \<Rightarrow> addr \<Rightarrow> u32 \<times> 'hw"
  write_volatile :: "'hw \<Rightarrow> addr \<Rightarrow> u32 \<Rightarrow> 'hw"
  port_in :: "'hw \<Rightarrow> u16 \<Rightarrow> u32 \<times> 'hw"
  port_out :: "'hw \<Rightarrow> u16 \<Rightarrow> u32 \<Rightarrow> 'hw"
  port_in16 :: "'hw \<Rightarrow> u16 \<Rightarrow> u16 \<times> 'hw"
  port_out16 :: "'hw \<Rightarrow> u16 \<Rightarrow> u16 \<Rightarrow> 'hw"
  port_in8 :: "'hw \<Rightarrow> u16 \<Rightarrow> u8 \<times> 'hw"
  port_out8 :: "'hw \<Rightarrow> u16 \<Rightarrow> u8 \<Rightarrow> 'hw"
  read_msr :: "'hw \<Rightarrow> u32 \<Rightarrow> u64"
  write_msr :: "'hw \<Rightarrow> u32 \<Rightarrow> u64 \<Rightarrow> 'hw"

text \<open>A machine on which nothing happens, to be updated into the examples of devices.\<close>

definition inert_machine :: "'hw machine" where
  "inert_machine =
     \<lparr>read_volatile = \<lambda>s a. (0, s), write_volatile = \<lambda>s a v. s, port_in = \<lambda>s p. (0, s), port_out = \<lambda>s p v. s,
      port_in16 = \<lambda>s p. (0, s), port_out16 = \<lambda>s p v. s, port_in8 = \<lambda>s p. (0, s), port_out8 = \<lambda>s p v. s,
      read_msr = \<lambda>s r. 0, write_msr = \<lambda>s r v. s\<rparr>"

end
