(* ===== verification/Pci.thy ===== *)
theory Pci
  imports Machine
begin

text \<open>
  PCI configuration space (\<open>kernel/src/pci.rs\<close>): access through the memory-mapped window (ECAM) or the
  ports 0xCF8 and 0xCFC, partial reads and writes, base address registers, and the scan of the buses.
  The machine is a parameter. The static \<open>ECAM_BASE\<close> is
  the argument \<open>ecam\<close>.
\<close>

unbundle bit_operations_syntax

section \<open>Model\<close>

record pci_device =
  vendor_id :: u32
  device_id :: u32
  class_code :: u32
  sub_class :: u32
  pci_bus :: u8
  pci_slot :: u8
  pci_func :: u8

definition PCI_CMD_OFFSET :: u16 where "PCI_CMD_OFFSET = 0x04"
definition PCI_CMD_BUS_MASTER :: u16 where "PCI_CMD_BUS_MASTER = push_bit 2 1"
definition PCI_CMD_MEMORY_ENABLE :: u16 where "PCI_CMD_MEMORY_ENABLE = push_bit 0 1"

definition ecam_addr :: "usize \<Rightarrow> u8 \<Rightarrow> u8 \<Rightarrow> u8 \<Rightarrow> u16 \<Rightarrow> addr res" where
  "ecam_addr base bus slot func offset =
     rbind (uadd base (unat bus * 2 ^ 20)) (\<lambda>a.
     rbind (uadd a (unat slot * 2 ^ 15)) (\<lambda>b.
     rbind (uadd b (unat func * 2 ^ 12)) (\<lambda>c. uadd c (unat offset))))"

definition config_address :: "u8 \<Rightarrow> u8 \<Rightarrow> u8 \<Rightarrow> u16 \<Rightarrow> u32" where
  "config_address bus slot func offset =
     push_bit 31 1 OR push_bit 16 (ucast bus) OR push_bit 11 (ucast slot) OR push_bit 8 (ucast func) OR
     (ucast offset AND 0xFC)"

text \<open>In the dev profile a volatile access checks that its pointer is aligned (it is not null here, since \<open>ecam\<close> is not).\<close>

definition aligned_ptr :: "addr \<Rightarrow> addr res" where
  "aligned_ptr a = (if a mod 4 = 0 then Ok a else Panic UbCheck)"

definition ecam_read32 :: "'hw machine \<Rightarrow> usize \<Rightarrow> u8 \<Rightarrow> u8 \<Rightarrow> u8 \<Rightarrow> u16 \<Rightarrow> 'hw \<Rightarrow> (u32 \<times> 'hw) option res" where
  "ecam_read32 H ecam bus slot func offset hw =
     (if ecam = 0 then Ok None
      else rbind (ecam_addr ecam bus slot func offset) (\<lambda>a. rbind (aligned_ptr a) (\<lambda>a. Ok (Some (read_volatile H hw a)))))"

definition read_config32 :: "'hw machine \<Rightarrow> usize \<Rightarrow> u8 \<Rightarrow> u8 \<Rightarrow> u8 \<Rightarrow> u16 \<Rightarrow> 'hw \<Rightarrow> (u32 \<times> 'hw) res" where
  "read_config32 H ecam bus slot func offset hw =
     rbind (ecam_read32 H ecam bus slot func offset hw) (\<lambda>r.
       case r of
         Some v \<Rightarrow> Ok v
       | None \<Rightarrow> Ok (port_in H (port_out H hw 0xCF8 (config_address bus slot func offset)) 0xCFC))"

definition read_config :: "'hw machine \<Rightarrow> usize \<Rightarrow> pci_device \<Rightarrow> u16 \<Rightarrow> 'hw \<Rightarrow> (u32 \<times> 'hw) res" where
  "read_config H ecam dev offset hw =
     (if ecam \<noteq> 0
      then rbind (ecam_addr ecam (pci_bus dev) (pci_slot dev) (pci_func dev) offset) (\<lambda>a. rbind (aligned_ptr a) (\<lambda>a.
        Ok (read_volatile H hw a)))
      else Ok (port_in H (port_out H hw 0xCF8
             (config_address (pci_bus dev) (pci_slot dev) (pci_func dev) offset)) 0xCFC))"

definition write_config :: "'hw machine \<Rightarrow> usize \<Rightarrow> pci_device \<Rightarrow> u16 \<Rightarrow> u32 \<Rightarrow> 'hw \<Rightarrow> 'hw res" where
  "write_config H ecam dev offset v hw =
     (if ecam \<noteq> 0
      then rbind (ecam_addr ecam (pci_bus dev) (pci_slot dev) (pci_func dev) offset) (\<lambda>a. rbind (aligned_ptr a) (\<lambda>a.
        Ok (write_volatile H hw a v)))
      else Ok (port_out H (port_out H hw 0xCF8
             (config_address (pci_bus dev) (pci_slot dev) (pci_func dev) offset)) 0xCFC v))"

definition cfg_shift :: "u16 \<Rightarrow> nat" where
  "cfg_shift offset = unat (offset AND 3) * 8"

definition read_config_u16 :: "'hw machine \<Rightarrow> usize \<Rightarrow> pci_device \<Rightarrow> u16 \<Rightarrow> 'hw \<Rightarrow> (u16 \<times> 'hw) res" where
  "read_config_u16 H ecam dev offset hw =
     rbind (read_config H ecam dev (offset AND NOT 3) hw) (\<lambda>(v, hw').
       Ok (ucast (drop_bit (cfg_shift offset) v), hw'))"

definition read_config_u8 :: "'hw machine \<Rightarrow> usize \<Rightarrow> pci_device \<Rightarrow> u16 \<Rightarrow> 'hw \<Rightarrow> (u8 \<times> 'hw) res" where
  "read_config_u8 H ecam dev offset hw =
     rbind (read_config H ecam dev (offset AND NOT 3) hw) (\<lambda>(v, hw').
       Ok (ucast (drop_bit (cfg_shift offset) v), hw'))"

definition write_config_u16 :: "'hw machine \<Rightarrow> usize \<Rightarrow> pci_device \<Rightarrow> u16 \<Rightarrow> u16 \<Rightarrow> 'hw \<Rightarrow> 'hw res" where
  "write_config_u16 H ecam dev offset v hw =
     rbind (read_config H ecam dev (offset AND NOT 3) hw) (\<lambda>(old, hw').
       let m = NOT (push_bit (cfg_shift offset) 0xFFFF)
       in write_config H ecam dev (offset AND NOT 3) ((old AND m) OR push_bit (cfg_shift offset) (ucast v)) hw')"

definition write_config_u8 :: "'hw machine \<Rightarrow> usize \<Rightarrow> pci_device \<Rightarrow> u16 \<Rightarrow> u8 \<Rightarrow> 'hw \<Rightarrow> 'hw res" where
  "write_config_u8 H ecam dev offset v hw =
     rbind (read_config H ecam dev (offset AND NOT 3) hw) (\<lambda>(old, hw').
       let m = NOT (push_bit (cfg_shift offset) 0xFF)
       in write_config H ecam dev (offset AND NOT 3) ((old AND m) OR push_bit (cfg_shift offset) (ucast v)) hw')"

definition bar_offset :: "u8 \<Rightarrow> u16" where
  "bar_offset bar = 0x10 + ucast bar * 4"

text \<open>For a register number above 5 the source also prints an error; the console is not part of this model.\<close>

definition read_bar :: "'hw machine \<Rightarrow> usize \<Rightarrow> pci_device \<Rightarrow> u8 \<Rightarrow> 'hw \<Rightarrow> ((u32 \<times> bool \<times> bool) option \<times> 'hw) res" where
  "read_bar H ecam dev bar hw =
     (if bar > 5 then Ok (None, hw)
      else rbind (read_config H ecam dev (bar_offset bar) hw) (\<lambda>(low, hw').
        Ok (Some (low, low AND 1 = 0, low AND 1 = 0 \<and> drop_bit 1 low AND 3 = 2), hw')))"

definition bar_address :: "'hw machine \<Rightarrow> usize \<Rightarrow> pci_device \<Rightarrow> u8 \<Rightarrow> 'hw \<Rightarrow> (u64 option \<times> 'hw) res" where
  "bar_address H ecam dev bar hw =
     rbind (read_bar H ecam dev bar hw) (\<lambda>(r, hw1).
       case r of
         None \<Rightarrow> Ok (None, hw1)
       | Some (low, is_mem, is_64) \<Rightarrow>
           if \<not> is_mem then Ok (Some (ucast (low AND 0xFFFFFFFC)), hw1)
           else if is_64
           then rbind (read_config H ecam dev (bar_offset bar + 4) hw1) (\<lambda>(high, hw2).
             Ok (Some (push_bit 32 (ucast high) OR ucast (low AND 0xFFFFFFF0)), hw2))
           else Ok (Some (ucast (low AND 0xFFFFFFF0)), hw1))"

definition probe_bar_size :: "'hw machine \<Rightarrow> usize \<Rightarrow> pci_device \<Rightarrow> u8 \<Rightarrow> 'hw \<Rightarrow> (u64 option \<times> 'hw) res" where
  "probe_bar_size H ecam dev bar hw =
     (if bar > 5 then Ok (None, hw)
      else let offset = bar_offset bar
      in rbind (read_config H ecam dev offset hw) (\<lambda>(orig_low, hw1).
         rbind (write_config H ecam dev offset 0xFFFFFFFF hw1) (\<lambda>hw2.
         rbind (read_config H ecam dev offset hw2) (\<lambda>(masked_low, hw3).
         rbind (write_config H ecam dev offset orig_low hw3) (\<lambda>hw4.
         rbind (read_bar H ecam dev bar hw4) (\<lambda>(r, hw5).
           case r of
             None \<Rightarrow> Ok (None, hw5)
           | Some (_, is_mem, is_64) \<Rightarrow>
               if \<not> is_mem
               then let m = masked_low AND 0xFFFFFFFC
                    in if m = 0 then Ok (None, hw5) else Ok (Some (ucast (NOT m + 1)), hw5)
               else if is_64
               then rbind (read_config H ecam dev (offset + 4) hw5) (\<lambda>(orig_high, hw6).
                    rbind (write_config H ecam dev (offset + 4) 0xFFFFFFFF hw6) (\<lambda>hw7.
                    rbind (read_config H ecam dev (offset + 4) hw7) (\<lambda>(masked_high, hw8).
                    rbind (write_config H ecam dev (offset + 4) orig_high hw8) (\<lambda>hw9.
                      let full_mask = push_bit 32 (ucast masked_high) OR ucast (masked_low AND 0xFFFFFFF0) :: u64
                      in if full_mask = 0 then Ok (None, hw9) else Ok (Some (NOT full_mask + 1), hw9)))))
               else let m = masked_low AND 0xFFFFFFF0
                    in if m = 0 then Ok (None, hw5) else Ok (Some (ucast (NOT m + 1)), hw5)))))))"

definition from_bsf :: "'hw machine \<Rightarrow> usize \<Rightarrow> u8 \<Rightarrow> u8 \<Rightarrow> u8 \<Rightarrow> 'hw \<Rightarrow> (pci_device option \<times> 'hw) res" where
  "from_bsf H ecam bus slot func hw =
     rbind (read_config32 H ecam bus slot func 0x0 hw) (\<lambda>(vendor_device, hw1).
       let vid = ucast (vendor_device AND 0xFFFF) :: u16
       in if vid = 0xFFFF then Ok (None, hw1)
          else let did = ucast (drop_bit 16 vendor_device AND 0xFFFF) :: u16
          in rbind (read_config32 H ecam bus slot func 0x8 hw1) (\<lambda>(class_reg, hw2).
            Ok (Some \<lparr>vendor_id = ucast vid, device_id = ucast did,
                  class_code = drop_bit 24 class_reg AND 0xFF, sub_class = drop_bit 16 class_reg AND 0xFF,
                  pci_bus = bus, pci_slot = slot, pci_func = func\<rparr>, hw2)))"

definition prog_if :: "'hw machine \<Rightarrow> usize \<Rightarrow> pci_device \<Rightarrow> 'hw \<Rightarrow> (u8 \<times> 'hw) res" where
  "prog_if H ecam dev hw =
     rbind (read_config H ecam dev 0x08 hw) (\<lambda>(v, hw'). Ok (ucast (drop_bit 8 v AND 0xFF), hw'))"

definition enable_bus_master :: "'hw machine \<Rightarrow> usize \<Rightarrow> pci_device \<Rightarrow> 'hw \<Rightarrow> (bool \<times> 'hw) res" where
  "enable_bus_master H ecam dev hw =
     rbind (read_config_u16 H ecam dev PCI_CMD_OFFSET hw) (\<lambda>(cmd, hw1).
     rbind (write_config_u16 H ecam dev PCI_CMD_OFFSET
              (cmd OR PCI_CMD_MEMORY_ENABLE OR PCI_CMD_BUS_MASTER) hw1) (\<lambda>hw2.
     rbind (read_config_u16 H ecam dev PCI_CMD_OFFSET hw2) (\<lambda>(verify, hw3).
       Ok (verify AND PCI_CMD_BUS_MASTER \<noteq> 0, hw3))))"

text \<open>The loop over the functions of a slot, with its \<open>break\<close>, and the loops over slots and buses.\<close>

fun scan_funcs :: "'hw machine \<Rightarrow> usize \<Rightarrow> u8 \<Rightarrow> u8 \<Rightarrow> u8 list \<Rightarrow> 'hw \<Rightarrow> (pci_device list \<times> 'hw) res" where
  "scan_funcs H ecam bus slot [] hw = Ok ([], hw)"
| "scan_funcs H ecam bus slot (func # funcs) hw =
     rbind (from_bsf H ecam bus slot func hw) (\<lambda>(r, hw1).
       case r of
         None \<Rightarrow> scan_funcs H ecam bus slot funcs hw1
       | Some dev \<Rightarrow>
           rbind (if func = 0
                  then rbind (read_config32 H ecam bus slot 0 0x0 hw1) (\<lambda>(v, hw2).
                    Ok (v AND push_bit 7 1 = 0, hw2))
                  else Ok (False, hw1)) (\<lambda>(stop, hw2).
             if stop then Ok ([dev], hw2)
             else rbind (scan_funcs H ecam bus slot funcs hw2) (\<lambda>(devs, hw3). Ok (dev # devs, hw3))))"

definition scan_slot :: "'hw machine \<Rightarrow> usize \<Rightarrow> u8 \<Rightarrow> u8 \<Rightarrow> pci_device list \<times> 'hw \<Rightarrow> (pci_device list \<times> 'hw) res" where
  "scan_slot H ecam bus slot s =
     (case s of (devs, hw) \<Rightarrow>
        rbind (scan_funcs H ecam bus slot (map of_nat [0..<8]) hw) (\<lambda>(ds, hw'). Ok (devs @ ds, hw')))"

definition scan_pci_bus :: "'hw machine \<Rightarrow> usize \<Rightarrow> 'hw \<Rightarrow> (pci_device list \<times> 'hw) res" where
  "scan_pci_bus H ecam hw =
     rfold (\<lambda>bus. rfold (\<lambda>slot. scan_slot H ecam bus slot) (map of_nat [0..<32])) (map of_nat [0..<256]) ([], hw)"

text \<open>Accessors that pass on to the ones above.\<close>

definition set_ecam_base :: "usize \<Rightarrow> usize \<Rightarrow> usize" where
  "set_ecam_base base ecam = base"

definition read_pci :: "'hw machine \<Rightarrow> usize \<Rightarrow> pci_device \<Rightarrow> u8 \<Rightarrow> 'hw \<Rightarrow> (u32 \<times> 'hw) res" where
  "read_pci H ecam dev offset = read_config H ecam dev (ucast offset)"

definition write_pci :: "'hw machine \<Rightarrow> usize \<Rightarrow> pci_device \<Rightarrow> u8 \<Rightarrow> u32 \<Rightarrow> 'hw \<Rightarrow> 'hw res" where
  "write_pci H ecam dev offset v = write_config H ecam dev (ucast offset) v"

definition read_pci_config :: "'hw machine \<Rightarrow> usize \<Rightarrow> pci_device \<Rightarrow> u8 \<Rightarrow> 'hw \<Rightarrow> (u32 \<times> 'hw) res" where
  "read_pci_config H ecam dev offset = read_config H ecam dev (ucast offset)"

definition write_pci_config :: "'hw machine \<Rightarrow> usize \<Rightarrow> pci_device \<Rightarrow> u8 \<Rightarrow> u32 \<Rightarrow> 'hw \<Rightarrow> 'hw res" where
  "write_pci_config H ecam dev offset v = write_config H ecam dev (ucast offset) v"

section \<open>The configuration space\<close>

text \<open>
  What the hardware documents: a space of dwords indexed by bus, device, function and offset. The
  address port 0xCF8 selects bits 23 to 16 as the bus, 15 to 11 as the device, 10 to 8 as the function
  and 7 to 2 as the dword; the memory window has the bus in bits 27 to 20, the device in bits 19 to
  15, the function in bits 14 to 12 and the offset below; the window is aligned to a dword. A read does not change the
  space; a write of \<open>v\<close> to the dword \<open>k\<close> that held \<open>old\<close> leaves \<open>upd k old v\<close> there: a bit may be plain memory, read-only,
  or cleared by writing 1. In \<open>pci_space\<close> what a write leaves, \<open>latch k v\<close>, does not depend on the old value.
\<close>

type_synonym cfg_key = "u8 \<times> u8 \<times> u8 \<times> u16"

definition port_decode :: "u32 \<Rightarrow> cfg_key" where
  "port_decode a = (ucast (drop_bit 16 a), ucast (drop_bit 11 a AND 31), ucast (drop_bit 8 a AND 7), ucast (a AND 0xFC))"

definition window_decode :: "nat \<Rightarrow> cfg_key" where
  "window_decode d = (of_nat (d div 2 ^ 20), of_nat (d div 2 ^ 15 mod 32), of_nat (d div 2 ^ 12 mod 8), of_nat (d mod 2 ^ 12))"

definition port_space :: "'hw machine \<Rightarrow> ('hw \<Rightarrow> cfg_key \<Rightarrow> u32) \<Rightarrow> (cfg_key \<Rightarrow> u32 \<Rightarrow> u32 \<Rightarrow> u32) \<Rightarrow> bool" where
  "port_space H space upd \<longleftrightarrow>
     (\<forall>hw a. bit a 31 \<longrightarrow>
        fst (port_in H (port_out H hw 0xCF8 a) 0xCFC) = space hw (port_decode a) \<and>
        space (snd (port_in H (port_out H hw 0xCF8 a) 0xCFC)) = space hw \<and>
        (\<forall>v. space (port_out H (port_out H hw 0xCF8 a) 0xCFC v) =
               (space hw)(port_decode a := upd (port_decode a) (space hw (port_decode a)) v)))"

definition window_space :: "'hw machine \<Rightarrow> usize \<Rightarrow> ('hw \<Rightarrow> cfg_key \<Rightarrow> u32) \<Rightarrow> (cfg_key \<Rightarrow> u32 \<Rightarrow> u32 \<Rightarrow> u32) \<Rightarrow> bool" where
  "window_space H ecam space upd \<longleftrightarrow>
     ecam + 2 ^ 28 \<le> usize_bound \<and> 4 dvd ecam \<and>
     (\<forall>hw d. d < 2 ^ 28 \<longrightarrow> 4 dvd d \<longrightarrow>
        fst (read_volatile H hw (ecam + d)) = space hw (window_decode d) \<and>
        space (snd (read_volatile H hw (ecam + d))) = space hw \<and>
        (\<forall>v. space (write_volatile H hw (ecam + d) v) =
               (space hw)(window_decode d := upd (window_decode d) (space hw (window_decode d)) v)))"

definition cfg_space :: "'hw machine \<Rightarrow> usize \<Rightarrow> ('hw \<Rightarrow> cfg_key \<Rightarrow> u32) \<Rightarrow> (cfg_key \<Rightarrow> u32 \<Rightarrow> u32 \<Rightarrow> u32) \<Rightarrow> bool" where
  "cfg_space H ecam space upd \<longleftrightarrow>
     (if ecam = 0 then port_space H space upd else window_space H ecam space upd)"

abbreviation pci_space :: "'hw machine \<Rightarrow> usize \<Rightarrow> ('hw \<Rightarrow> cfg_key \<Rightarrow> u32) \<Rightarrow> (cfg_key \<Rightarrow> u32 \<Rightarrow> u32) \<Rightarrow> bool" where
  "pci_space H ecam space latch \<equiv> cfg_space H ecam space (\<lambda>k _ v. latch k v)"

definition dev_ok :: "pci_device \<Rightarrow> bool" where
  "dev_ok dev \<longleftrightarrow> pci_slot dev < 32 \<and> pci_func dev < 8"

definition reg_ok :: "u16 \<Rightarrow> bool" where
  "reg_ok offset \<longleftrightarrow> offset < 256 \<and> offset AND 3 = 0"

definition dev_key :: "pci_device \<Rightarrow> u16 \<Rightarrow> cfg_key" where
  "dev_key dev offset = (pci_bus dev, pci_slot dev, pci_func dev, offset)"

lemma config_address_bit31: "bit (config_address bus slot func offset) 31"
  by (simp add: config_address_def bit_simps)

lemma port_decode_config_address:
  assumes "slot < 32" "func < 8" "reg_ok offset"
  shows "port_decode (config_address bus slot func offset) = (bus, slot, func, offset)"
proof -
  have b: "\<not> bit slot n" if "5 \<le> n" for n
    using that assms(1) by (intro not_bit_of_less [of _ 5]) (simp_all add: word_less_nat_alt)
  have c: "\<not> bit func n" if "3 \<le> n" for n
    using that assms(2) by (intro not_bit_of_less [of _ 3]) (simp_all add: word_less_nat_alt)
  have d: "\<not> bit offset n" if "8 \<le> n" for n
    using that assms(3) by (intro not_bit_of_less [of _ 8]) (simp_all add: word_less_nat_alt reg_ok_def)
  have e: "\<not> bit offset n" if "n < 2" for n
  proof -
    have "\<not> bit (offset AND 3) n" using assms(3) by (simp add: reg_ok_def)
    with that show ?thesis by (auto simp: bit_simps less_2_cases_iff)
  qed
  note nobit = b c d e
  show ?thesis
    by (simp add: port_decode_def config_address_def bits_listed bit_simps nobit)
qed

lemma reg_ok_dvd: "reg_ok offset \<Longrightarrow> 4 dvd unat offset"
proof -
  assume "reg_ok offset"
  then have "offset AND mask 2 = 0" by (simp add: reg_ok_def mask_eq_exp_minus_1)
  then have "take_bit 2 offset = 0" by (simp add: take_bit_eq_mask)
  then have "take_bit 2 (unat offset) = 0" by (metis unsigned_0 unsigned_take_bit_eq)
  then show "4 dvd unat offset" by (simp add: take_bit_eq_mod dvd_eq_mod_eq_0)
qed

definition window_offset :: "u8 \<Rightarrow> u8 \<Rightarrow> u8 \<Rightarrow> u16 \<Rightarrow> nat" where
  "window_offset bus slot func offset = unat bus * 2 ^ 20 + unat slot * 2 ^ 15 + unat func * 2 ^ 12 + unat offset"

lemma window_arith:
  fixes b s f r :: nat
  assumes "b < 256" "s < 32" "f < 8" "r < 4096"
  defines "d \<equiv> b * 1048576 + s * 32768 + f * 4096 + r"
  shows "d < 268435456" "d div 1048576 = b" "d div 32768 mod 32 = s" "d div 4096 mod 8 = f" "d mod 4096 = r"
proof -
  have d: "d = r + 4096 * (f + 8 * (s + 32 * b))" by (simp add: d_def algebra_simps)
  show "d < 268435456" using assms by simp
  show "d mod 4096 = r" using assms(4) unfolding d by (simp only: mod_mult_self2 mod_less)
  have e1: "d div 4096 = f + 8 * (s + 32 * b)" using assms(4) by (simp add: d)
  then show "d div 4096 mod 8 = f" using assms(3) by (simp only: mod_mult_self2 mod_less)
  have e2: "d div 32768 = s + 32 * b"
    using assms(3) e1 div_mult2_eq [of d 4096 8] by simp
  then show "d div 32768 mod 32 = s" using assms(2) by simp
  show "d div 1048576 = b"
    using assms(2) e2 div_mult2_eq [of d 32768 32] by simp
qed

lemma window_decode_offset:
  assumes "slot < 32" "func < 8" "reg_ok offset"
  shows "window_decode (window_offset bus slot func offset) = (bus, slot, func, offset)"
    "window_offset bus slot func offset < 2 ^ 28" "4 dvd window_offset bus slot func offset"
proof -
  have r: "unat bus < 256" "unat slot < 32" "unat func < 8" "unat offset < 4096"
    using assms unat_u8_less [of bus] by (simp_all add: word_less_nat_alt reg_ok_def)
  note w = window_arith [OF r]
  show "window_decode (window_offset bus slot func offset) = (bus, slot, func, offset)"
    using w(2-5) by (simp add: window_decode_def window_offset_def)
  show "window_offset bus slot func offset < 2 ^ 28" using w(1) by (simp add: window_offset_def)
  show "4 dvd window_offset bus slot func offset"
    using reg_ok_dvd [OF assms(3)] by (simp add: window_offset_def dvd_add)
qed

lemma ecam_addr_ok:
  assumes "slot < 32" "func < 8" "reg_ok offset" "ecam + 2 ^ 28 \<le> usize_bound"
  shows "ecam_addr ecam bus slot func offset = Ok (ecam + window_offset bus slot func offset)"
  using window_decode_offset(2) [OF assms(1-3), of bus] assms(4)
  by (simp add: ecam_addr_def window_offset_def)

text \<open>A dword access through either mechanism reads or writes the space at the device's key.\<close>

lemma read_config_space:
  assumes "cfg_space H ecam space upd" "dev_ok dev" "reg_ok offset"
  obtains hw' where "read_config H ecam dev offset hw = Ok (space hw (dev_key dev offset), hw')" "space hw' = space hw"
proof (cases "ecam = 0")
  case True
  let ?a = "config_address (pci_bus dev) (pci_slot dev) (pci_func dev) offset"
  have "port_decode ?a = dev_key dev offset"
    using port_decode_config_address assms(2,3) by (simp add: dev_ok_def dev_key_def)
  moreover have "fst (port_in H (port_out H hw 0xCF8 ?a) 0xCFC) = space hw (port_decode ?a)"
    "space (snd (port_in H (port_out H hw 0xCF8 ?a) 0xCFC)) = space hw"
    using assms(1) True by (simp_all add: cfg_space_def port_space_def config_address_bit31)
  ultimately show thesis using True that by (simp add: read_config_def) (metis prod.collapse)
next
  case False
  let ?d = "window_offset (pci_bus dev) (pci_slot dev) (pci_func dev) offset"
  have d: "window_decode ?d = dev_key dev offset" "?d < 2 ^ 28" "4 dvd ?d"
    using window_decode_offset [of "pci_slot dev" "pci_func dev" offset "pci_bus dev"] assms(2,3)
    by (simp_all add: dev_ok_def dev_key_def)
  then have "fst (read_volatile H hw (ecam + ?d)) = space hw (window_decode ?d)"
    "space (snd (read_volatile H hw (ecam + ?d))) = space hw"
    using assms(1) False by (simp_all add: cfg_space_def window_space_def)
  moreover have "ecam_addr ecam (pci_bus dev) (pci_slot dev) (pci_func dev) offset = Ok (ecam + ?d)"
    using assms False by (intro ecam_addr_ok) (simp_all add: dev_ok_def cfg_space_def window_space_def)
  moreover have "aligned_ptr (ecam + ?d) = Ok (ecam + ?d)"
    using assms(1) False d(3) by (simp add: aligned_ptr_def cfg_space_def window_space_def dvd_eq_mod_eq_0 mod_add_eq [symmetric])
  ultimately show thesis using False that d(1) by (simp add: read_config_def) (metis prod.collapse)
qed

lemma write_config_space:
  assumes "cfg_space H ecam space upd" "dev_ok dev" "reg_ok offset"
  obtains hw' where "write_config H ecam dev offset v hw = Ok hw'"
    "space hw' = (space hw)(dev_key dev offset := upd (dev_key dev offset) (space hw (dev_key dev offset)) v)"
proof (cases "ecam = 0")
  case True
  let ?a = "config_address (pci_bus dev) (pci_slot dev) (pci_func dev) offset"
  have "port_decode ?a = dev_key dev offset"
    using port_decode_config_address assms(2,3) by (simp add: dev_ok_def dev_key_def)
  moreover have "space (port_out H (port_out H hw 0xCF8 ?a) 0xCFC v) =
      (space hw)(port_decode ?a := upd (port_decode ?a) (space hw (port_decode ?a)) v)"
    using assms(1) True by (simp add: cfg_space_def port_space_def config_address_bit31)
  ultimately show thesis using True that by (simp add: write_config_def)
next
  case False
  let ?d = "window_offset (pci_bus dev) (pci_slot dev) (pci_func dev) offset"
  have d: "window_decode ?d = dev_key dev offset" "?d < 2 ^ 28" "4 dvd ?d"
    using window_decode_offset [of "pci_slot dev" "pci_func dev" offset "pci_bus dev"] assms(2,3)
    by (simp_all add: dev_ok_def dev_key_def)
  then have "space (write_volatile H hw (ecam + ?d) v) =
      (space hw)(window_decode ?d := upd (window_decode ?d) (space hw (window_decode ?d)) v)"
    using assms(1) False by (simp add: cfg_space_def window_space_def)
  moreover have "ecam_addr ecam (pci_bus dev) (pci_slot dev) (pci_func dev) offset = Ok (ecam + ?d)"
    using assms False by (intro ecam_addr_ok) (simp_all add: dev_ok_def cfg_space_def window_space_def)
  moreover have "aligned_ptr (ecam + ?d) = Ok (ecam + ?d)"
    using assms(1) False d(3) by (simp add: aligned_ptr_def cfg_space_def window_space_def dvd_eq_mod_eq_0 mod_add_eq [symmetric])
  ultimately show thesis using False that d(1) by (simp add: write_config_def)
qed

lemma read_config32_read_config:
  "read_config32 H ecam bus slot func offset hw =
   read_config H ecam (dev\<lparr>pci_bus := bus, pci_slot := slot, pci_func := func\<rparr>) offset hw"
  by (simp add: read_config32_def read_config_def ecam_read32_def rbind_assoc)

section \<open>Partial accesses\<close>

lemma unat_and_3: "unat (offset AND 3 :: u16) = unat offset mod 4"
proof -
  have "offset AND 3 = take_bit 2 offset" by (simp add: take_bit_eq_mask mask_eq_exp_minus_1)
  then have "unat (offset AND 3) = take_bit 2 (unat offset)" by (simp only: unsigned_take_bit_eq)
  then show ?thesis by (simp add: take_bit_eq_mod)
qed

lemma reg_ok_aligned: "offset < 256 \<Longrightarrow> reg_ok (offset AND NOT 3)"
  by (auto simp: reg_ok_def bits_listed bit_simps intro: order.strict_trans1 [OF word_and_le2])

definition merge16 :: "u32 \<Rightarrow> nat \<Rightarrow> u16 \<Rightarrow> u32" where
  "merge16 old i v = (old AND NOT (push_bit (i * 8) 0xFFFF)) OR push_bit (i * 8) (ucast v)"

lemma bit_merge16:
  assumes "n < 32"
  shows "bit (merge16 old i v) n = (if i * 8 \<le> n \<and> n < i * 8 + 16 then bit v (n - i * 8) else bit old n)"
proof -
  have m: "(0xFFFF :: u32) = mask 16" by (simp add: mask_eq_exp_minus_1)
  have "\<not> bit v (n - i * 8)" if "\<not> n < i * 8 + 16"
    using that bit_imp_le_length [of v "n - i * 8"] by auto
  then show ?thesis using assms unfolding merge16_def m
    by (auto simp: bit_or_iff bit_and_iff bit_not_iff bit_push_bit_iff bit_mask_iff bit_ucast_iff)
qed

lemma write_config_u16_space:
  assumes "cfg_space H ecam space upd" "dev_ok dev" "offset < 256"
  obtains hw' where "write_config_u16 H ecam dev offset v hw = Ok hw'"
    "space hw' = (space hw)(dev_key dev (offset AND NOT 3) := upd (dev_key dev (offset AND NOT 3)) (space hw (dev_key dev (offset AND NOT 3)))
       (merge16 (space hw (dev_key dev (offset AND NOT 3))) (unat (offset AND 3)) v))"
proof -
  note r = reg_ok_aligned [OF assms(3)]
  let ?k = "dev_key dev (offset AND NOT 3)"
  let ?w = "merge16 (space hw ?k) (unat (offset AND 3)) v"
  obtain hw1 where 1: "read_config H ecam dev (offset AND NOT 3) hw = Ok (space hw ?k, hw1)" "space hw1 = space hw"
    using read_config_space [OF assms(1,2) r] .
  obtain hw2 where "write_config H ecam dev (offset AND NOT 3) ?w hw1 = Ok hw2" "space hw2 = (space hw1)(?k := upd ?k (space hw1 ?k) ?w)"
    using write_config_space [OF assms(1,2) r] .
  with 1 show thesis using that by (simp add: write_config_u16_def cfg_shift_def merge16_def Let_def)
qed

text \<open>The kinds of bits of a register: plain memory, read-only, and cleared by writing 1 to it.\<close>

definition plain_bit :: "(u32 \<Rightarrow> u32 \<Rightarrow> u32) \<Rightarrow> nat \<Rightarrow> bool" where
  "plain_bit f n \<longleftrightarrow> (\<forall>old w. bit (f old w) n = bit w n)"

definition fixed_bit :: "(u32 \<Rightarrow> u32 \<Rightarrow> u32) \<Rightarrow> nat \<Rightarrow> bool" where
  "fixed_bit f n \<longleftrightarrow> (\<forall>old w. bit (f old w) n = bit old n)"

definition write_1_clears :: "(u32 \<Rightarrow> u32 \<Rightarrow> u32) \<Rightarrow> nat \<Rightarrow> bool" where
  "write_1_clears f n \<longleftrightarrow> (\<forall>old w. bit (f old w) n = (bit old n \<and> \<not> bit w n))"

text \<open>
  C21. Writing 16 bits of configuration space, at any offset, is one write of the whole dword that holds it, and no
  other dword changes. The value written has the given 16 bits at their place (only the low 8 of them at the last byte of a
  dword, where the upper byte is dropped and the next dword is not touched), and around them what was read. So the bits
  around that are plain memory or read-only keep their value, but those that are cleared by writing 1 are cleared:
  \<open>enable_bus_master\<close>, the one caller, writes the command register and with it acknowledges every error in the
  status register, which is the other half of the dword.
\<close>

theorem write_config_u16_bytes:
  fixes offset v :: u16
  assumes "cfg_space H ecam space upd" "dev_ok dev" "offset < 256"
  shows "\<exists>hw' w. write_config_u16 H ecam dev offset v hw = Ok hw' \<and>
    (let k = dev_key dev (offset AND NOT 3); from = unat offset mod 4 * 8
     in space hw' = (space hw)(k := upd k (space hw k) w) \<and>
        (\<forall>n < 32. bit w n = (if from \<le> n \<and> n < from + 16 then bit v (n - from) else bit (space hw k) n)) \<and>
        (\<forall>n < 32. n < from \<or> from + 16 \<le> n \<longrightarrow>
          (plain_bit (upd k) n \<or> fixed_bit (upd k) n \<longrightarrow> bit (space hw' k) n = bit (space hw k) n) \<and>
          (write_1_clears (upd k) n \<longrightarrow> \<not> bit (space hw' k) n)))"
proof -
  let ?k = "dev_key dev (offset AND NOT 3)" and ?i = "unat offset mod 4"
  let ?w = "merge16 (space hw ?k) ?i v"
  obtain hw' where w: "write_config_u16 H ecam dev offset v hw = Ok hw'" "space hw' = (space hw)(?k := upd ?k (space hw ?k) ?w)"
    using write_config_u16_space [OF assms, where v = v and hw = hw] unfolding unat_and_3 .
  have outside: "(plain_bit (upd ?k) n \<or> fixed_bit (upd ?k) n \<longrightarrow> bit (space hw' ?k) n = bit (space hw ?k) n) \<and>
      (write_1_clears (upd ?k) n \<longrightarrow> \<not> bit (space hw' ?k) n)" if "n < 32" "n < ?i * 8 \<or> ?i * 8 + 16 \<le> n" for n
  proof -
    have "bit ?w n = bit (space hw ?k) n" using that bit_merge16 [OF that(1), of _ ?i v] by auto
    then show ?thesis by (auto simp: w(2) plain_bit_def fixed_bit_def write_1_clears_def)
  qed
  show ?thesis unfolding Let_def
    by (intro exI [of _ hw'] exI [of _ ?w] conjI) (use w bit_merge16 outside in blast)+
qed

text \<open>A machine that has such a space: the address register and the dwords.\<close>

definition cfg_box :: "usize \<Rightarrow> (cfg_key \<Rightarrow> u32 \<Rightarrow> u32 \<Rightarrow> u32) \<Rightarrow> (u32 \<times> (cfg_key \<Rightarrow> u32)) machine" where
  "cfg_box ecam upd =
     inert_machine
     \<lparr>read_volatile := \<lambda>(sel, sp) a. (sp (window_decode (a - ecam)), (sel, sp)),
      write_volatile := \<lambda>(sel, sp) a v. let k = window_decode (a - ecam) in (sel, sp(k := upd k (sp k) v)),
      port_in := \<lambda>(sel, sp) p. (if p = 0xCFC then sp (port_decode sel) else 0xFFFFFFFF, (sel, sp)),
      port_out := \<lambda>(sel, sp) p v.
        if p = 0xCF8 then (v, sp)
        else if p = 0xCFC then let k = port_decode sel in (sel, sp(k := upd k (sp k) v)) else (sel, sp)\<rparr>"

definition pci_box :: "usize \<Rightarrow> (cfg_key \<Rightarrow> u32 \<Rightarrow> u32) \<Rightarrow> (u32 \<times> (cfg_key \<Rightarrow> u32)) machine" where
  "pci_box ecam latch = cfg_box ecam (\<lambda>k _ v. latch k v)"

lemma cfg_box_space: "ecam + 2 ^ 28 \<le> usize_bound \<Longrightarrow> 4 dvd ecam \<Longrightarrow> cfg_space (cfg_box ecam upd) ecam snd upd"
  by (simp add: cfg_space_def port_space_def window_space_def cfg_box_def split_beta Let_def)

lemma pci_box_space: "ecam + 2 ^ 28 \<le> usize_bound \<Longrightarrow> 4 dvd ecam \<Longrightarrow> pci_space (pci_box ecam latch) ecam snd latch"
  unfolding pci_box_def by (rule cfg_box_space)

definition nic :: pci_device where
  "nic = \<lparr>vendor_id = 0x10EC, device_id = 0x8139, class_code = 2, sub_class = 0, pci_bus = 0, pci_slot = 3, pci_func = 0\<rparr>"

text \<open>The command and status registers of the specification: the command is plain, the errors of the status are cleared by writing 1.\<close>

definition command_status :: "cfg_key \<Rightarrow> u32 \<Rightarrow> u32 \<Rightarrow> u32" where
  "command_status k old w = (if k = dev_key nic 4 then (w AND 0xFFFF) OR (old AND 0xFFFF0000 AND NOT (w AND 0xF9000000)) else w)"

lemma command_status_bits:
  "plain_bit (command_status (dev_key nic 4)) 2" "fixed_bit (command_status (dev_key nic 4)) 20" "write_1_clears (command_status (dev_key nic 4)) 29"
  by (auto simp: plain_bit_def fixed_bit_def write_1_clears_def command_status_def bit_simps)

theorem write_config_u16_bytes_witness:
  "\<exists>hw'. write_config_u16 (cfg_box 0xB0000000 command_status) 0xB0000000 nic 4 0x0007 (0, \<lambda>_. 0x20100003) = Ok hw' \<and>
     bit (snd hw' (dev_key nic 4)) 20 \<and> \<not> bit (snd hw' (dev_key nic 4)) 29"
proof -
  have "4 AND NOT 3 = (4 :: u16)" by simp
  moreover have "cfg_space (cfg_box 0xB0000000 command_status) 0xB0000000 snd command_status" by (rule cfg_box_space) simp_all
  moreover have "dev_ok nic" by (simp add: dev_ok_def nic_def)
  ultimately obtain hw' where "write_config_u16 (cfg_box 0xB0000000 command_status) 0xB0000000 nic 4 0x0007 (0, \<lambda>_. 0x20100003) = Ok hw'"
    "\<forall>n < 32. n < 0 \<or> 16 \<le> n \<longrightarrow>
       (plain_bit (command_status (dev_key nic 4)) n \<or> fixed_bit (command_status (dev_key nic 4)) n \<longrightarrow>
          bit (snd hw' (dev_key nic 4)) n = bit (0x20100003 :: u32) n) \<and>
       (write_1_clears (command_status (dev_key nic 4)) n \<longrightarrow> \<not> bit (snd hw' (dev_key nic 4)) n)"
    using write_config_u16_bytes [of "cfg_box 0xB0000000 command_status" "0xB0000000" snd command_status nic 4 7 "(0, \<lambda>_. 0x20100003)"]
    by (auto simp: Let_def)
  moreover have "bit (0x20100003 :: u32) 20" by simp
  ultimately show ?thesis using command_status_bits(2,3) by (intro exI [of _ hw']) auto
qed

section \<open>Base address registers\<close>

text \<open>
  A base address register of a kind, for a region of \<open>2 ^ n\<close> bytes: its low dword keeps the address
  bits at and above \<open>n\<close> and has its type in the low bits; the high dword of a 64-bit register keeps
  the address bits above 32.
\<close>

datatype bar_kind = Io_bar | Mem32_bar | Mem64_bar

fun bar_shape :: "bar_kind \<Rightarrow> nat \<Rightarrow> u32 \<Rightarrow> u8 \<Rightarrow> bool" where
  "bar_shape Io_bar n flags bar \<longleftrightarrow> 2 \<le> n \<and> n < 32 \<and> flags = 1 \<and> bar \<le> 5"
| "bar_shape Mem32_bar n flags bar \<longleftrightarrow> 4 \<le> n \<and> n < 32 \<and> flags \<in> {0, 8} \<and> bar \<le> 5"
| "bar_shape Mem64_bar n flags bar \<longleftrightarrow> 4 \<le> n \<and> n < 64 \<and> flags \<in> {4, 12} \<and> bar \<le> 4"

definition low_latch :: "nat \<Rightarrow> u32 \<Rightarrow> u32 \<Rightarrow> u32" where
  "low_latch n flags v = (v AND ucast (NOT (mask n :: u64))) OR flags"

definition high_latch :: "nat \<Rightarrow> u32 \<Rightarrow> u32" where
  "high_latch n v = v AND ucast (drop_bit 32 (NOT (mask n :: u64)))"

definition bar_at :: "(cfg_key \<Rightarrow> u32 \<Rightarrow> u32) \<Rightarrow> pci_device \<Rightarrow> u8 \<Rightarrow> bar_kind \<Rightarrow> nat \<Rightarrow> u32 \<Rightarrow> bool" where
  "bar_at latch dev bar kind n flags \<longleftrightarrow>
     bar_shape kind n flags bar \<and>
     latch (dev_key dev (bar_offset bar)) = low_latch n flags \<and>
     (kind = Mem64_bar \<longrightarrow> latch (dev_key dev (bar_offset bar + 4)) = high_latch n)"

text \<open>The registers hold values they can hold.\<close>

definition bar_settled :: "(cfg_key \<Rightarrow> u32) \<Rightarrow> pci_device \<Rightarrow> u8 \<Rightarrow> bar_kind \<Rightarrow> nat \<Rightarrow> u32 \<Rightarrow> bool" where
  "bar_settled sp dev bar kind n flags \<longleftrightarrow>
     low_latch n flags (sp (dev_key dev (bar_offset bar))) = sp (dev_key dev (bar_offset bar)) \<and>
     (kind = Mem64_bar \<longrightarrow> high_latch n (sp (dev_key dev (bar_offset bar + 4))) = sp (dev_key dev (bar_offset bar + 4)))"

lemma u8_le_5_cases: "(bar :: u8) \<le> 5 \<Longrightarrow> bar \<in> {0, 1, 2, 3, 4, 5}"
proof -
  assume "bar \<le> 5"
  then have "unat bar \<le> 5" by (simp add: word_le_nat_alt)
  then have "unat bar \<in> {0, 1, 2, 3, 4, 5}" by (auto simp: le_Suc_eq numeral_eq_Suc)
  then show ?thesis by (simp add: word_unat_eq_iff)
qed

lemma bar_offset_ok: "bar \<le> 5 \<Longrightarrow> reg_ok (bar_offset bar) \<and> reg_ok (bar_offset bar + 4)"
  using u8_le_5_cases [of bar] by (auto simp: bar_offset_def reg_ok_def)

lemma low_latch_ones:
  assumes "unat flags < 2 ^ k" "k \<le> n"
  shows "low_latch n flags (- 1) AND NOT (mask k) = ucast (NOT (mask n :: u64))"
proof (rule bit_word_eqI)
  fix i assume "i < LENGTH(32)"
  moreover have "\<not> bit flags i" if "k \<le> i" using not_bit_of_less [OF assms(1) that] .
  ultimately show "bit (low_latch n flags (- 1) AND NOT (mask k)) i = bit (ucast (NOT (mask n :: u64)) :: u32) i"
    using assms(2) by (auto simp: low_latch_def bit_simps)
qed

lemma high_low_ones:
  "push_bit 32 (ucast (high_latch n (- 1))) OR ucast (ucast (NOT (mask n :: u64)) :: u32) = NOT (mask n :: u64)"
  by (rule bit_word_eqI) (auto simp: high_latch_def bit_simps)

lemma not_mask_size: "NOT (NOT (mask n)) + 1 = (2 ^ n :: 'a::len word)"
  by (simp add: mask_eq_exp_minus_1)

lemma not_mask_nonzero: "n < LENGTH('a) \<Longrightarrow> NOT (mask n) \<noteq> (0 :: 'a::len word)"
  by (metis bit_0_eq bit_mask_iff bit_not_iff bot_apply bot_bool_def linorder_not_less min.absorb4 not_less_iff_gr_or_eq possible_bit_word)

lemma ucast_not_mask: "n < 32 \<Longrightarrow> ucast (NOT (mask n :: u64)) = (NOT (mask n) :: u32)"
  by (rule bit_word_eqI) (auto simp: bit_simps)

lemma ucast_size: "n < 32 \<Longrightarrow> ucast (2 ^ n :: u32) = (2 ^ n :: u64)"
  by (rule bit_word_eqI) (auto simp: bit_simps)

lemma hex_masks:
  "(0xFFFFFFFF :: u32) = - 1" "(0xFFFFFFFC :: u32) = NOT (mask 2)" "(0xFFFFFFF0 :: u32) = NOT (mask 4)"
  by (simp_all add: mask_eq_exp_minus_1)

text \<open>The size that the low dword alone gives, and the size of both.\<close>

lemma size_of_low:
  assumes "unat flags < 2 ^ k" "k \<le> n" "n < 32"
  defines "m \<equiv> low_latch n flags (- 1) AND NOT (mask k)"
  shows "m \<noteq> 0" "ucast (NOT m + 1) = (2 ^ n :: u64)"
  unfolding m_def low_latch_ones [OF assms(1,2)] ucast_not_mask [OF assms(3)] not_mask_size ucast_size [OF assms(3)]
  using assms(3) by (simp_all add: not_mask_nonzero del: bit_not_int_iff)

lemma size_of_both:
  assumes "unat flags < 16" "4 \<le> n" "n < 64"
  defines "m \<equiv> push_bit 32 (ucast (high_latch n (- 1))) OR ucast (low_latch n flags (- 1) AND NOT (mask 4)) :: u64"
  shows "m \<noteq> 0" "NOT m + 1 = 2 ^ n"
proof -
  have "low_latch n flags (- 1) AND NOT (mask 4) = ucast (NOT (mask n :: u64))"
    using assms by (intro low_latch_ones) simp_all
  then have m: "m = NOT (mask n)" unfolding m_def by (simp only: high_low_ones)
  show "m \<noteq> 0" using assms(3) unfolding m by (intro not_mask_nonzero) simp
  show "NOT m + 1 = 2 ^ n" unfolding m not_mask_size ..
qed

text \<open>What \<open>read_bar\<close> reads off a settled register.\<close>

definition bar_view :: "bar_kind \<Rightarrow> bool \<times> bool" where
  "bar_view kind = (kind \<noteq> Io_bar, kind = Mem64_bar)"

lemma bar_view_low:
  assumes "bar_shape kind n flags bar" "low_latch n flags low = low"
  shows "(low AND 1 = 0, low AND 1 = 0 \<and> drop_bit 1 low AND 3 = 2) = bar_view kind"
proof -
  have low: "bit low i = bit flags i" if "i < n" "i < 3" for i
  proof -
    have "bit low i = bit (low_latch n flags low) i" using assms(2) by simp
    then show ?thesis using that by (auto simp: low_latch_def bit_simps)
  qed
  have one: "low AND 1 = 0 \<longleftrightarrow> \<not> bit low 0"
    by (simp add: bits_listed bit_simps bit_1_iff)
  have two: "drop_bit 1 low AND 3 = 2 \<longleftrightarrow> \<not> bit low 1 \<and> bit low 2"
    by (simp add: bits_listed bit_simps) blast
  show ?thesis
    using assms(1) low [of 0] low [of 1] low [of 2] unfolding one two bar_view_def
    by (cases kind) (auto simp: bit_simps)
qed

lemma bar_shape_le: "bar_shape kind n flags bar \<Longrightarrow> bar \<le> 5"
  by (cases kind) (auto intro: order.trans [of bar 4 5])

lemma probe_low:
  assumes "pci_space H ecam space latch" "dev_ok dev"
    and bar: "bar_at latch dev bar kind n flags" "bar_settled (space hw) dev bar kind n flags"
  obtains hw1 hw2 hw3 hw4 low hw5 where
    "read_config H ecam dev (bar_offset bar) hw = Ok (low, hw1)"
    "write_config H ecam dev (bar_offset bar) (- 1) hw1 = Ok hw2"
    "read_config H ecam dev (bar_offset bar) hw2 = Ok (low_latch n flags (- 1), hw3)"
    "write_config H ecam dev (bar_offset bar) low hw3 = Ok hw4"
    "read_bar H ecam dev bar hw4 = Ok (Some (low, bar_view kind), hw5)"
    "space hw5 = space hw"
proof -
  let ?k = "dev_key dev (bar_offset bar)"
  have latch: "latch ?k = low_latch n flags" and shape: "bar_shape kind n flags bar"
    using bar(1) by (simp_all add: bar_at_def)
  note b5 = bar_shape_le [OF shape]
  have settled: "low_latch n flags (space hw ?k) = space hw ?k" using bar(2) by (simp add: bar_settled_def)
  have reg: "reg_ok (bar_offset bar)" using bar_offset_ok [OF b5] by simp
  obtain hw1 where 1: "read_config H ecam dev (bar_offset bar) hw = Ok (space hw ?k, hw1)" "space hw1 = space hw"
    using read_config_space [OF assms(1,2) reg] .
  obtain hw2 where 2: "write_config H ecam dev (bar_offset bar) (- 1) hw1 = Ok hw2"
      "space hw2 = (space hw1)(?k := latch ?k (- 1))"
    using write_config_space [OF assms(1,2) reg] .
  obtain hw3 where 3: "read_config H ecam dev (bar_offset bar) hw2 = Ok (space hw2 ?k, hw3)" "space hw3 = space hw2"
    using read_config_space [OF assms(1,2) reg] .
  obtain hw4 where 4: "write_config H ecam dev (bar_offset bar) (space hw ?k) hw3 = Ok hw4"
      "space hw4 = (space hw3)(?k := latch ?k (space hw ?k))"
    using write_config_space [OF assms(1,2) reg] .
  obtain hw5 where 5: "read_config H ecam dev (bar_offset bar) hw4 = Ok (space hw4 ?k, hw5)" "space hw5 = space hw4"
    using read_config_space [OF assms(1,2) reg] .
  have low: "space hw4 ?k = space hw ?k" "space hw5 = space hw"
    using 1 2 3 4 5 by (simp_all add: latch settled)
  have "read_bar H ecam dev bar hw4 = Ok (Some (space hw ?k, bar_view kind), hw5)"
    using b5 5(1) low(1) bar_view_low [OF shape settled] by (simp add: read_bar_def)
  then show thesis using that 1 2 3 4 low latch by simp
qed

text \<open>
  C22. On a base address register that implements a region of \<open>2 ^ n\<close> bytes, in I/O space, 32-bit or
  64-bit memory space, \<open>probe_bar_size\<close> returns exactly \<open>2 ^ n\<close> and leaves the configuration space as
  it was.
\<close>

theorem probe_bar_size_exact:
  assumes "pci_space H ecam space latch" "dev_ok dev"
    and "bar_at latch dev bar kind n flags" "bar_settled (space hw) dev bar kind n flags"
  shows "\<exists>hw'. probe_bar_size H ecam dev bar hw = Ok (Some (2 ^ n), hw') \<and> space hw' = space hw"
proof -
  obtain hw1 hw2 hw3 hw4 low hw5 where p:
    "read_config H ecam dev (bar_offset bar) hw = Ok (low, hw1)"
    "write_config H ecam dev (bar_offset bar) (- 1) hw1 = Ok hw2"
    "read_config H ecam dev (bar_offset bar) hw2 = Ok (low_latch n flags (- 1), hw3)"
    "write_config H ecam dev (bar_offset bar) low hw3 = Ok hw4"
    "read_bar H ecam dev bar hw4 = Ok (Some (low, bar_view kind), hw5)" and sp: "space hw5 = space hw"
    using probe_low [OF assms] .
  have shape: "bar_shape kind n flags bar" using assms(3) by (simp add: bar_at_def)
  have b5: "\<not> bar > 5" using bar_shape_le [OF shape] by simp
  note start = probe_bar_size_def hex_masks Let_def p b5 bar_view_def
  show ?thesis
  proof (cases kind)
    case Io_bar
    with shape have "unat flags < 2 ^ 2" "2 \<le> n" "n < 32" by auto
    note size = size_of_low [OF this]
    from Io_bar sp size show ?thesis by (simp add: start)
  next
    case Mem32_bar
    with shape have "unat flags < 2 ^ 4" "4 \<le> n" "n < 32" by auto
    note size = size_of_low [OF this]
    from Mem32_bar sp size show ?thesis by (simp add: start)
  next
    case Mem64_bar
    let ?k = "dev_key dev (bar_offset bar + 4)"
    have reg: "reg_ok (bar_offset bar + 4)" using bar_offset_ok b5 by simp
    from Mem64_bar shape have "unat flags < 16" "4 \<le> n" "n < 64" by auto
    note size = size_of_both [OF this]
    have latch: "latch ?k = high_latch n" "high_latch n (space hw ?k) = space hw ?k"
      using assms(3,4) Mem64_bar by (simp_all add: bar_at_def bar_settled_def)
    obtain hw6 where 6: "read_config H ecam dev (bar_offset bar + 4) hw5 = Ok (space hw5 ?k, hw6)" "space hw6 = space hw5"
      using read_config_space [OF assms(1,2) reg] .
    obtain hw7 where 7: "write_config H ecam dev (bar_offset bar + 4) (- 1) hw6 = Ok hw7"
        "space hw7 = (space hw6)(?k := latch ?k (- 1))"
      using write_config_space [OF assms(1,2) reg] .
    obtain hw8 where 8: "read_config H ecam dev (bar_offset bar + 4) hw7 = Ok (space hw7 ?k, hw8)" "space hw8 = space hw7"
      using read_config_space [OF assms(1,2) reg] .
    obtain hw9 where 9: "write_config H ecam dev (bar_offset bar + 4) (space hw5 ?k) hw8 = Ok hw9"
        "space hw9 = (space hw8)(?k := latch ?k (space hw5 ?k))"
      using write_config_space [OF assms(1,2) reg] .
    have "space hw9 = space hw" "space hw7 ?k = high_latch n (- 1)"
      using 6 7 8 9 sp by (simp_all add: latch)
    with Mem64_bar size 6 7 8 9 show ?thesis by (simp add: start)
  qed
qed

definition nic_latch :: "cfg_key \<Rightarrow> u32 \<Rightarrow> u32" where
  "nic_latch k v =
     (if k = dev_key nic 0x10 then low_latch 14 4 v else if k = dev_key nic 0x14 then high_latch 14 v else v)"

theorem probe_bar_size_exact_witness:
  "\<exists>hw'. probe_bar_size (pci_box 0 nic_latch) 0 nic 0 (0, \<lambda>k. if k = dev_key nic 0x10 then 0xFE000004 else 0) =
     Ok (Some 0x4000, hw')"
proof -
  let ?sp = "\<lambda>k. if k = dev_key nic 0x10 then 0xFE000004 else 0"
  have "bar_at nic_latch nic 0 Mem64_bar 14 4"
    by (auto simp: bar_at_def bar_offset_def nic_latch_def dev_key_def fun_eq_iff)
  moreover have "bar_settled (snd (0 :: u32, ?sp)) nic 0 Mem64_bar 14 4"
    by (simp add: bar_settled_def bar_offset_def low_latch_def high_latch_def dev_key_def mask_eq_exp_minus_1)
  moreover have "pci_space (pci_box 0 nic_latch) 0 snd nic_latch" by (rule pci_box_space) simp_all
  moreover have "dev_ok nic" by (simp add: dev_ok_def nic_def)
  ultimately show ?thesis using probe_bar_size_exact [of "pci_box 0 nic_latch" 0 snd nic_latch nic 0 Mem64_bar 14 4 "(0, ?sp)"]
    by auto
qed

section \<open>Scanning\<close>

definition present :: "(cfg_key \<Rightarrow> u32) \<Rightarrow> u8 \<Rightarrow> u8 \<Rightarrow> u8 \<Rightarrow> bool" where
  "present sp bus slot func \<longleftrightarrow> take_bit 16 (sp (bus, slot, func, 0)) \<noteq> 0xFFFF"

definition device_at :: "(cfg_key \<Rightarrow> u32) \<Rightarrow> u8 \<Rightarrow> u8 \<Rightarrow> u8 \<Rightarrow> pci_device" where
  "device_at sp bus slot func =
     \<lparr>vendor_id = take_bit 16 (sp (bus, slot, func, 0)), device_id = drop_bit 16 (sp (bus, slot, func, 0)),
      class_code = drop_bit 24 (sp (bus, slot, func, 8)), sub_class = take_bit 8 (drop_bit 16 (sp (bus, slot, func, 8))),
      pci_bus = bus, pci_slot = slot, pci_func = func\<rparr>"

definition slot_devices :: "(cfg_key \<Rightarrow> u32) \<Rightarrow> u8 \<Rightarrow> u8 \<Rightarrow> pci_device list" where
  "slot_devices sp bus slot =
     (if present sp bus slot 0 \<and> \<not> bit (sp (bus, slot, 0, 0)) 7 then [device_at sp bus slot 0]
      else map (device_at sp bus slot) (filter (present sp bus slot) [0, 1, 2, 3, 4, 5, 6, 7]))"

lemma vendor_word:
  "ucast (ucast (v AND 0xFFFF :: u32) :: u16) = take_bit 16 v"
  "(ucast (v AND 0xFFFF :: u32) :: u16) = 0xFFFF \<longleftrightarrow> take_bit 16 v = 0xFFFF"
  "ucast (ucast (drop_bit 16 v AND 0xFFFF :: u32) :: u16) = drop_bit 16 v"
  "drop_bit 24 v AND 0xFF = drop_bit 24 (v :: u32)" "drop_bit 16 v AND 0xFF = take_bit 8 (drop_bit 16 v)"
  "v AND 128 = 0 \<longleftrightarrow> \<not> bit v 7" "take_bit 16 (drop_bit 16 v) = drop_bit 16 (v :: u32)"
  by (simp_all only: bits_listed) (simp_all add: bit_simps bits_listed)

lemma read_config32_space:
  assumes "pci_space H ecam space latch" "slot < 32" "func < 8" "reg_ok offset"
  obtains hw' where "read_config32 H ecam bus slot func offset hw = Ok (space hw (bus, slot, func, offset), hw')"
    "space hw' = space hw"
proof -
  let ?dev = "nic\<lparr>pci_bus := bus, pci_slot := slot, pci_func := func\<rparr>"
  have "dev_ok ?dev" using assms(2,3) by (simp add: dev_ok_def)
  from read_config_space [OF assms(1) this assms(4)] that show thesis
    unfolding read_config32_read_config [of H ecam bus slot func offset hw nic] by (auto simp: dev_key_def)
qed

lemma from_bsf_space:
  assumes "pci_space H ecam space latch" "slot < 32" "func < 8"
  obtains hw' where "from_bsf H ecam bus slot func hw =
      Ok (if present (space hw) bus slot func then Some (device_at (space hw) bus slot func) else None, hw')"
    "space hw' = space hw"
proof -
  have r: "reg_ok 0" "reg_ok 8" by (simp_all add: reg_ok_def)
  obtain hw1 where 1: "read_config32 H ecam bus slot func 0 hw = Ok (space hw (bus, slot, func, 0), hw1)" "space hw1 = space hw"
    using read_config32_space [OF assms r(1)] .
  obtain hw2 where 2: "read_config32 H ecam bus slot func 8 hw1 = Ok (space hw1 (bus, slot, func, 8), hw2)" "space hw2 = space hw1"
    using read_config32_space [OF assms r(2)] .
  note defs = from_bsf_def present_def device_at_def Let_def vendor_word
  show thesis
  proof (cases "present (space hw) bus slot func")
    case True
    with 1 2 show thesis using that [of hw2] by (simp add: defs)
  next
    case False
    with 1 show thesis using that [of hw1] by (simp add: defs)
  qed
qed

text \<open>Functions other than 0 are listed as far as they are present.\<close>

lemma scan_funcs_rest:
  assumes "pci_space H ecam space latch" "slot < 32" "\<forall>func \<in> set funcs. func < 8 \<and> func \<noteq> 0"
  shows "\<exists>hw'. scan_funcs H ecam bus slot funcs hw =
      Ok (map (device_at (space hw) bus slot) (filter (present (space hw) bus slot) funcs), hw') \<and> space hw' = space hw"
  using assms(3)
proof (induction funcs arbitrary: hw)
  case (Cons func funcs)
  then have f: "func < 8" "func \<noteq> 0" by simp_all
  obtain hw1 where 1: "from_bsf H ecam bus slot func hw =
      Ok (if present (space hw) bus slot func then Some (device_at (space hw) bus slot func) else None, hw1)"
    "space hw1 = space hw"
    using from_bsf_space [OF assms(1,2) f(1)] .
  obtain hw2 where 2: "scan_funcs H ecam bus slot funcs hw1 =
      Ok (map (device_at (space hw) bus slot) (filter (present (space hw) bus slot) funcs), hw2)" "space hw2 = space hw"
    using Cons.IH [of hw1] Cons.prems 1(2) by auto
  show ?case using 1 2 f(2) by simp
qed simp

lemma scan_funcs_slot:
  assumes "pci_space H ecam space latch" "slot < 32"
  shows "\<exists>hw'. scan_funcs H ecam bus slot (map of_nat [0..<8]) hw = Ok (slot_devices (space hw) bus slot, hw') \<and>
    space hw' = space hw"
proof -
  let ?sp = "space hw"
  define rest where "rest = [1, 2, 3, 4, 5, 6, 7 :: u8]"
  have funcs: "map of_nat [0..<8] = 0 # rest" "[0, 1, 2, 3, 4, 5, 6, 7] = 0 # rest"
    by (simp_all add: rest_def upt_rec)
  obtain hw1 where 1: "from_bsf H ecam bus slot 0 hw =
      Ok (if present ?sp bus slot 0 then Some (device_at ?sp bus slot 0) else None, hw1)" "space hw1 = ?sp"
    using from_bsf_space [OF assms, of 0] by auto
  obtain hw2 where 2: "read_config32 H ecam bus slot 0 0 hw1 = Ok (?sp (bus, slot, 0, 0), hw2)" "space hw2 = ?sp"
    using read_config32_space [OF assms, of 0 0 bus hw1] 1(2) by (auto simp: reg_ok_def)
  have tl: "\<exists>hw'. scan_funcs H ecam bus slot rest h =
      Ok (map (device_at ?sp bus slot) (filter (present ?sp bus slot) rest), hw') \<and> space hw' = ?sp"
    if "space h = ?sp" for h
    using scan_funcs_rest [OF assms, of rest bus h] that by (simp add: rest_def)
  show ?thesis
  proof (cases "present ?sp bus slot 0")
    case False
    with 1 tl [OF 1(2)] show ?thesis
      unfolding slot_devices_def funcs by simp
  next
    case True
    obtain hw3 where 3: "scan_funcs H ecam bus slot rest hw2 =
        Ok (map (device_at ?sp bus slot) (filter (present ?sp bus slot) rest), hw3)" "space hw3 = ?sp"
      using tl [OF 2(2)] by blast
    have "scan_funcs H ecam bus slot (0 # rest) hw =
        (if bit (?sp (bus, slot, 0, 0)) 7
         then Ok (device_at ?sp bus slot 0 # map (device_at ?sp bus slot) (filter (present ?sp bus slot) rest), hw3)
         else Ok ([device_at ?sp bus slot 0], hw2))"
      using 1 2 3 True by (simp add: vendor_word)
    then show ?thesis using True 2(2) 3(2) unfolding slot_devices_def funcs by auto
  qed
qed

lemma scan_pci_bus_run:
  assumes "pci_space H ecam space latch"
  shows "\<exists>hw'. scan_pci_bus H ecam hw =
      Ok (concat (map (\<lambda>bus. concat (map (\<lambda>slot. slot_devices (space hw) bus slot) (map of_nat [0..<32])))
            (map of_nat [0..<256])), hw') \<and> space hw' = space hw"
proof -
  let ?sp = "space hw"
  have slots: "\<exists>h'. rfold (\<lambda>slot. scan_slot H ecam bus slot) slots (devs, h) =
      Ok (devs @ concat (map (\<lambda>slot. slot_devices ?sp bus slot) slots), h') \<and> space h' = ?sp"
    if "\<forall>slot \<in> set slots. slot < 32" "space h = ?sp" for bus slots devs h
    using that
  proof (induction slots arbitrary: devs h)
    case (Cons slot slots)
    obtain h1 where "scan_funcs H ecam bus slot (map of_nat [0..<8]) h = Ok (slot_devices ?sp bus slot, h1)" "space h1 = ?sp"
      using scan_funcs_slot [OF assms, of slot bus h] Cons.prems by auto
    with Cons.IH [of h1 "devs @ slot_devices ?sp bus slot"] Cons.prems(1) show ?case
      by (simp add: scan_slot_def)
  qed simp
  have buses: "\<exists>h'. rfold (\<lambda>bus. rfold (\<lambda>slot. scan_slot H ecam bus slot) (map of_nat [0..<32])) buses (devs, h) =
      Ok (devs @ concat (map (\<lambda>bus. concat (map (\<lambda>slot. slot_devices ?sp bus slot) (map of_nat [0..<32]))) buses), h') \<and>
      space h' = ?sp"
    if "space h = ?sp" for buses devs h
    using that
  proof (induction buses arbitrary: devs h)
    case (Cons bus buses)
    have lt: "\<forall>slot \<in> set (map of_nat [0..<32]). slot < (32 :: u8)"
      by (auto simp: word_less_nat_alt unat_of_nat)
    obtain h1 where "rfold (\<lambda>slot. scan_slot H ecam bus slot) (map of_nat [0..<32]) (devs, h) =
        Ok (devs @ concat (map (\<lambda>slot. slot_devices ?sp bus slot) (map of_nat [0..<32])), h1)" "space h1 = ?sp"
      using slots [OF lt Cons.prems] by blast
    with Cons.IH [of h1 "devs @ concat (map (\<lambda>slot. slot_devices ?sp bus slot) (map of_nat [0..<32]))"] show ?case by simp
  qed simp
  show ?thesis using buses [of hw "map of_nat [0..<256]" "[]"] unfolding scan_pci_bus_def by simp
qed

text \<open>
  C23. The scan reports, in the order of the buses and slots, the devices of every slot: all functions
  present when bit 7 of the vendor and device dword of function 0 is set or function 0 is absent, and
  only function 0 when it is present and that bit is clear; it leaves the configuration space as it was.
\<close>

theorem scan_pci_bus_exact:
  assumes "pci_space H ecam space latch"
  shows "\<exists>hw'. scan_pci_bus H ecam hw =
      Ok (concat (map (\<lambda>bus. concat (map (\<lambda>slot. slot_devices (space hw) bus slot) (map of_nat [0..<32])))
            (map of_nat [0..<256])), hw') \<and> space hw' = space hw"
  using assms by (rule scan_pci_bus_run)

lemma set_concat_concat:
  assumes "x \<in> set (f (g i) (g j))" "i \<in> set xs" "j \<in> set ys"
  shows "x \<in> set (concat (map (\<lambda>b. concat (map (\<lambda>s. f b s) (map g ys))) (map g xs)))"
  using assms by auto

theorem scan_pci_bus_exact_witness:
  "\<exists>devs hw'. scan_pci_bus (pci_box 0 nic_latch) 0
       (0, \<lambda>k. if k = (0, 3, 0, 0) then 0x813910EC else if k = (0, 3, 0, 8) then 0x02000000 else 0xFFFFFFFF) =
       Ok (devs, hw') \<and> nic \<in> set devs"
proof -
  let ?sp = "\<lambda>k :: cfg_key. if k = (0, 3, 0, 0) then 0x813910EC else if k = (0, 3, 0, 8) then 0x02000000 else 0xFFFFFFFF :: u32"
  have "pci_space (pci_box 0 nic_latch) 0 snd nic_latch" by (rule pci_box_space) simp_all
  from scan_pci_bus_exact [OF this, of "(0, ?sp)"] obtain hw' where scan:
    "scan_pci_bus (pci_box 0 nic_latch) 0 (0, ?sp) =
      Ok (concat (map (\<lambda>bus. concat (map (\<lambda>slot. slot_devices ?sp bus slot) (map of_nat [0..<32])))
            (map of_nat [0..<256])), hw')" by auto
  have "nic \<in> set (slot_devices ?sp (of_nat 0) (of_nat 3))"
    by (simp add: slot_devices_def present_def device_at_def nic_def take_bit_eq_mod)
  then have "nic \<in> set (concat (map (\<lambda>bus. concat (map (\<lambda>slot. slot_devices ?sp bus slot) (map of_nat [0..<32])))
            (map of_nat [0..<256])))"
    by (rule set_concat_concat) simp_all
  with scan show ?thesis by blast
qed

end
