(* ===== verification/Apic.thy ===== *)
theory Apic
  imports Machine
begin

text \<open>
  The local APIC and the I/O APIC (\<open>kernel/src/apic.rs\<close>) and the loop of \<open>kernel_main\<close> that routes the 24
  inputs of an I/O APIC to vectors 50 to 73.

  Parameters: the machine; \<open>VirtAddr::new\<close>, \<open>PhysAddr::new\<close> and \<open>VirtAddr + u64\<close> of the crate \<open>x86_64\<close>
  (\<open>vnew\<close>, \<open>pnew\<close>, \<open>vadd\<close>, which panic on addresses that do not exist); \<open>OnceCell::get_or_init\<close> of the crate
  \<open>conquer_once\<close>, as the value the cell holds after it is called. \<open>PMO\<close> is the offset of the physical
  memory map, a static of the kernel. The registers are accessed with the intrinsics \<open>volatile_load\<close> and
  \<open>volatile_store\<close>, which, unlike \<open>read_volatile\<close> and \<open>write_volatile\<close> of the standard library, have no check of
  the pointer.
\<close>

unbundle bit_operations_syntax

section \<open>The local APIC\<close>

record local_apic =
  la_virt :: addr

definition pic_sequence :: "(u16 \<times> u8) list" where
  "pic_sequence =
     [(0x20, 0x11), (0xA0, 0x11), (0x21, 0xF0), (0xA1, 0xF8), (0x21, 0x4), (0xA1, 0x2), (0x21, 0x1), (0xA1, 0x1),
      (0x21, 0xFF), (0xA1, 0xFF)]"

text \<open>Every write to a controller is followed by a write to port 0x80.\<close>

definition disable_pic :: "'hw machine \<Rightarrow> 'hw \<Rightarrow> 'hw" where
  "disable_pic H hw = fold (\<lambda>(p, v) hw. port_out8 H (port_out8 H hw p v) 0x80 0) pic_sequence hw"

definition la_read :: "'hw machine \<Rightarrow> local_apic \<Rightarrow> u32 \<Rightarrow> 'hw \<Rightarrow> (u32 \<times> 'hw) res" where
  "la_read H la reg hw = rbind (uadd (la_virt la) (unat reg)) (\<lambda>a. Ok (read_volatile H hw a))"

definition la_write :: "'hw machine \<Rightarrow> local_apic \<Rightarrow> u32 \<Rightarrow> u32 \<Rightarrow> 'hw \<Rightarrow> 'hw res" where
  "la_write H la reg v hw = rbind (uadd (la_virt la) (unat reg)) (\<lambda>a. Ok (write_volatile H hw a v))"

definition la_init :: "'hw machine \<Rightarrow> (addr \<Rightarrow> addr res) \<Rightarrow> (local_apic \<Rightarrow> local_apic) \<Rightarrow> usize \<Rightarrow> addr \<Rightarrow> 'hw \<Rightarrow>
    (local_apic \<times> 'hw) res" where
  "la_init H vnew get_or_init PMO local_apic_address hw =
     (let hw1 = disable_pic H hw
      in rbind (rbind (uadd local_apic_address PMO) vnew) (\<lambda>virtaddr.
         let ret = get_or_init \<lparr>la_virt = virtaddr\<rparr>;
             hw2 = write_msr H hw1 0x1B (read_msr H hw1 0x1B OR push_bit 11 1)
         in rbind (la_read H ret 0xF0 hw2) (\<lambda>(v, hw3).
            rbind (la_write H ret 0xF0 (v OR 0x1FF) hw3) (\<lambda>hw4. Ok (ret, hw4)))))"

definition la_id :: "'hw machine \<Rightarrow> local_apic \<Rightarrow> 'hw \<Rightarrow> (u32 \<times> 'hw) res" where
  "la_id H la = la_read H la 0x20"

definition la_version :: "'hw machine \<Rightarrow> local_apic \<Rightarrow> 'hw \<Rightarrow> (u32 \<times> 'hw) res" where
  "la_version H la = la_read H la 0x30"

definition icr :: "'hw machine \<Rightarrow> local_apic \<Rightarrow> 'hw \<Rightarrow> (u64 \<times> 'hw) res" where
  "icr H la hw =
     rbind (la_read H la 0x310 hw) (\<lambda>(high, hw1).
     rbind (la_read H la 0x300 hw1) (\<lambda>(low, hw2). Ok (push_bit 32 (ucast high) OR ucast low, hw2)))"

definition PENDING :: u32 where "PENDING = push_bit 12 1"

text \<open>The spin loops of \<open>set_icr\<close>; \<open>None\<close> when the loop does not end.\<close>

partial_function (option) spin_pending :: "'hw machine \<Rightarrow> addr \<Rightarrow> 'hw \<Rightarrow> 'hw option" where
  "spin_pending H a hw =
     (if fst (read_volatile H hw a) AND PENDING = PENDING
      then spin_pending H a (snd (read_volatile H hw a))
      else Some (snd (read_volatile H hw a)))"

definition set_icr :: "'hw machine \<Rightarrow> local_apic \<Rightarrow> u64 \<Rightarrow> 'hw \<Rightarrow> 'hw option res" where
  "set_icr H la v hw =
     rbind (uadd (la_virt la) 0x300) (\<lambda>lo.
       case spin_pending H lo hw of
         None \<Rightarrow> Ok None
       | Some hw1 \<Rightarrow>
           rbind (la_write H la 0x310 (ucast (drop_bit 32 v)) hw1) (\<lambda>hw2.
           rbind (la_write H la 0x300 (ucast v) hw2) (\<lambda>hw3. Ok (spin_pending H lo hw3))))"

definition ipi :: "'hw machine \<Rightarrow> local_apic \<Rightarrow> usize \<Rightarrow> 'hw \<Rightarrow> 'hw option res" where
  "ipi H la apic_id = set_icr H la (0x4040 OR push_bit 56 (of_nat apic_id))"

definition ipi_nmi :: "'hw machine \<Rightarrow> local_apic \<Rightarrow> u32 \<Rightarrow> 'hw \<Rightarrow> 'hw option res" where
  "ipi_nmi H la apic_id = set_icr H la (push_bit 56 (ucast apic_id) OR push_bit 14 1 OR push_bit 8 0b100)"

definition eoi :: "'hw machine \<Rightarrow> local_apic \<Rightarrow> 'hw \<Rightarrow> 'hw res" where
  "eoi H la = la_write H la 0xB0 0"

definition esr :: "'hw machine \<Rightarrow> local_apic \<Rightarrow> 'hw \<Rightarrow> (u32 \<times> 'hw) res" where
  "esr H la hw = rbind (la_write H la 0x280 0 hw) (la_read H la 0x280)"

definition lvt_timer :: "'hw machine \<Rightarrow> local_apic \<Rightarrow> 'hw \<Rightarrow> (u32 \<times> 'hw) res" where
  "lvt_timer H la = la_read H la 0x320"

definition set_lvt_timer :: "'hw machine \<Rightarrow> local_apic \<Rightarrow> u32 \<Rightarrow> 'hw \<Rightarrow> 'hw res" where
  "set_lvt_timer H la = la_write H la 0x320"

definition init_count :: "'hw machine \<Rightarrow> local_apic \<Rightarrow> 'hw \<Rightarrow> (u32 \<times> 'hw) res" where
  "init_count H la = la_read H la 0x380"

definition set_init_count :: "'hw machine \<Rightarrow> local_apic \<Rightarrow> u32 \<Rightarrow> 'hw \<Rightarrow> 'hw res" where
  "set_init_count H la = la_write H la 0x380"

definition cur_count :: "'hw machine \<Rightarrow> local_apic \<Rightarrow> 'hw \<Rightarrow> (u32 \<times> 'hw) res" where
  "cur_count H la = la_read H la 0x390"

definition div_conf :: "'hw machine \<Rightarrow> local_apic \<Rightarrow> 'hw \<Rightarrow> (u32 \<times> 'hw) res" where
  "div_conf H la = la_read H la 0x3E0"

definition set_div_conf :: "'hw machine \<Rightarrow> local_apic \<Rightarrow> u32 \<Rightarrow> 'hw \<Rightarrow> 'hw res" where
  "set_div_conf H la = la_write H la 0x3E0"

definition lvt_error :: "'hw machine \<Rightarrow> local_apic \<Rightarrow> 'hw \<Rightarrow> (u32 \<times> 'hw) res" where
  "lvt_error H la = la_read H la 0x370"

definition set_lvt_error :: "'hw machine \<Rightarrow> local_apic \<Rightarrow> u32 \<Rightarrow> 'hw \<Rightarrow> 'hw res" where
  "set_lvt_error H la = la_write H la 0x370"

definition setup_error_int :: "'hw machine \<Rightarrow> local_apic \<Rightarrow> 'hw \<Rightarrow> 'hw res" where
  "setup_error_int H la = set_lvt_error H la 49"

text \<open>The timer set up by \<open>kernel_main\<close>; \<open>freq\<close> is what the processor reports or 1000000.\<close>

definition timer_setup :: "'hw machine \<Rightarrow> local_apic \<Rightarrow> u32 \<Rightarrow> 'hw \<Rightarrow> 'hw res" where
  "timer_setup H la freq hw =
     rbind (set_div_conf H la 0b1011 hw) (\<lambda>hw1.
     rbind (set_lvt_timer H la (push_bit 17 1 + 48) hw1) (set_init_count H la freq))"

section \<open>The I/O APIC\<close>

record io_apic =
  io_virt :: addr
  global_system_int :: u32
  io_id :: u8

definition io_init :: "(addr \<Rightarrow> addr res) \<Rightarrow> (addr \<Rightarrow> addr res) \<Rightarrow> (io_apic \<Rightarrow> io_apic) \<Rightarrow> usize \<Rightarrow> u8 \<Rightarrow> u32 \<Rightarrow> u32 \<Rightarrow>
    io_apic res" where
  "io_init pnew vnew get_or_init PMO info_id info_address info_gsi =
     rbind (rbind (pnew (unat info_address)) (\<lambda>p. rbind (uadd p PMO) vnew)) (\<lambda>virt.
       Ok (get_or_init \<lparr>io_virt = virt, global_system_int = info_gsi, io_id = info_id\<rparr>))"

definition set_sel :: "'hw machine \<Rightarrow> io_apic \<Rightarrow> u32 \<Rightarrow> 'hw \<Rightarrow> 'hw" where
  "set_sel H io reg hw = write_volatile H hw (io_virt io) reg"

definition io_read :: "'hw machine \<Rightarrow> (addr \<Rightarrow> usize \<Rightarrow> addr res) \<Rightarrow> io_apic \<Rightarrow> u32 \<Rightarrow> 'hw \<Rightarrow> (u32 \<times> 'hw) res" where
  "io_read H vadd io reg hw =
     (let hw1 = set_sel H io reg hw in rbind (vadd (io_virt io) 0x10) (\<lambda>sec. Ok (read_volatile H hw1 sec)))"

definition io_write :: "'hw machine \<Rightarrow> (addr \<Rightarrow> usize \<Rightarrow> addr res) \<Rightarrow> io_apic \<Rightarrow> u32 \<Rightarrow> u32 \<Rightarrow> 'hw \<Rightarrow> 'hw res" where
  "io_write H vadd io reg v hw =
     (let hw1 = set_sel H io reg hw in rbind (vadd (io_virt io) 0x10) (\<lambda>sec. Ok (write_volatile H hw1 sec v)))"

definition redtlb_low :: "u32 \<Rightarrow> u32 res" where
  "redtlb_low i = rbind (wmul 2 i) (wadd 0x10)"

definition redtlb_high :: "u32 \<Rightarrow> u32 res" where
  "redtlb_high i = rbind (redtlb_low i) (\<lambda>r. wadd r 1)"

definition read_redtlb :: "'hw machine \<Rightarrow> (addr \<Rightarrow> usize \<Rightarrow> addr res) \<Rightarrow> io_apic \<Rightarrow> u32 \<Rightarrow> 'hw \<Rightarrow> (u64 \<times> 'hw) res" where
  "read_redtlb H vadd io i hw =
     rbind (redtlb_low i) (\<lambda>rl. rbind (io_read H vadd io rl hw) (\<lambda>(low, hw1).
     rbind (redtlb_high i) (\<lambda>rh. rbind (io_read H vadd io rh hw1) (\<lambda>(high, hw2).
     rbind (wadd (push_bit 32 (ucast high)) (ucast low)) (\<lambda>v. Ok (v, hw2))))))"

definition write_redtlb :: "'hw machine \<Rightarrow> (addr \<Rightarrow> usize \<Rightarrow> addr res) \<Rightarrow> io_apic \<Rightarrow> u32 \<Rightarrow> u64 \<Rightarrow> 'hw \<Rightarrow> 'hw res" where
  "write_redtlb H vadd io i redtlb hw =
     rbind (redtlb_low i) (\<lambda>rl. rbind (io_write H vadd io rl (ucast (redtlb AND 0xFFFF)) hw) (\<lambda>hw1.
     rbind (redtlb_high i) (\<lambda>rh. io_write H vadd io rh (ucast (drop_bit 32 redtlb)) hw1)))"

section \<open>Redirection entries\<close>

record red_tbl =
  vector :: u8
  delivery_mode :: u8
  destination_mode :: bool
  delivery_status :: bool
  pin_polarity :: bool
  remote_irr :: bool
  trigger_mode :: bool
  rt_mask :: bool
  destination :: u8

definition red_tbl_new :: "u64 \<Rightarrow> red_tbl" where
  "red_tbl_new n =
     (let c0 = n; c1 = drop_bit 8 c0; c2 = drop_bit 2 c1; c3 = drop_bit 1 c2; c4 = drop_bit 1 c3;
          c5 = drop_bit 1 c4; c6 = drop_bit 1 c5; c7 = drop_bit 1 c6
      in \<lparr>vector = ucast (c0 AND 0xFF), delivery_mode = ucast (c1 AND 0b11), destination_mode = (c2 AND 1 \<noteq> 0),
          delivery_status = (c3 AND 1 \<noteq> 0), pin_polarity = (c4 AND 1 \<noteq> 0), remote_irr = (c5 AND 1 \<noteq> 0),
          trigger_mode = (c6 AND 1 \<noteq> 0), rt_mask = (c7 AND 1 \<noteq> 0), destination = ucast (drop_bit 56 n)\<rparr>)"

definition flag_at :: "bool \<Rightarrow> nat \<Rightarrow> u64" where
  "flag_at b k = push_bit k (if b then 1 else 0)"

definition red_tbl_store :: "red_tbl \<Rightarrow> u64 res" where
  "red_tbl_store r =
     rbind (wadd 0 (push_bit 56 (ucast (destination r)))) (\<lambda>r1.
     rbind (wadd r1 (ucast (vector r))) (\<lambda>r2.
     rbind (wadd r2 (push_bit 8 (ucast (delivery_mode r)))) (\<lambda>r3.
     rbind (wadd r3 (flag_at (destination_mode r) 10)) (\<lambda>r4.
     rbind (wadd r4 (flag_at (delivery_status r) 11)) (\<lambda>r5.
     rbind (wadd r5 (flag_at (pin_polarity r) 12)) (\<lambda>r6.
     rbind (wadd r6 (flag_at (remote_irr r) 13)) (\<lambda>r7.
     rbind (wadd r7 (flag_at (trigger_mode r) 14)) (\<lambda>r8.
     wadd r8 (flag_at (rt_mask r) 15)))))))))"

text \<open>The routing of the inputs in \<open>kernel_main\<close>.\<close>

definition route_input :: "'hw machine \<Rightarrow> (addr \<Rightarrow> usize \<Rightarrow> addr res) \<Rightarrow> io_apic \<Rightarrow> u32 \<Rightarrow> 'hw \<Rightarrow> 'hw res" where
  "route_input H vadd io i hw =
     rbind (read_redtlb H vadd io i hw) (\<lambda>(n, hw1).
     rbind (wadd 50 i) (\<lambda>v.
     rbind (red_tbl_store (red_tbl_new n\<lparr>vector := ucast v\<rparr>)) (\<lambda>stored.
     write_redtlb H vadd io i stored hw1)))"

definition route_inputs :: "'hw machine \<Rightarrow> (addr \<Rightarrow> usize \<Rightarrow> addr res) \<Rightarrow> io_apic \<Rightarrow> 'hw \<Rightarrow> 'hw res" where
  "route_inputs H vadd io hw = rfold (route_input H vadd io) (map of_nat [0..<24]) hw"

section \<open>Redirection entries as words\<close>

lemma bit_flag_at: "bit (flag_at b k) n \<longleftrightarrow> b \<and> n = k \<and> k < 64"
  by (auto simp: flag_at_def bit_simps)

definition red_word :: "red_tbl \<Rightarrow> u64" where
  "red_word r =
     push_bit 56 (ucast (destination r)) OR ucast (vector r) OR push_bit 8 (ucast (delivery_mode r)) OR
     flag_at (destination_mode r) 10 OR flag_at (delivery_status r) 11 OR flag_at (pin_polarity r) 12 OR
     flag_at (remote_irr r) 13 OR flag_at (trigger_mode r) 14 OR flag_at (rt_mask r) 15"

lemma flag_step: "\<not> bit a k \<Longrightarrow> wadd a (flag_at b k) = Ok (a OR flag_at b k)"
  by (intro wadd_disjoint bit_word_eqI) (auto simp: bit_simps bit_flag_at)

lemma red_tbl_store_word:
  assumes "delivery_mode r < 4"
  shows "red_tbl_store r = Ok (red_word r)"
proof -
  let ?dv = "push_bit 56 (ucast (destination r)) :: u64" and ?vec = "ucast (vector r) :: u64"
    and ?dm = "push_bit 8 (ucast (delivery_mode r)) :: u64"
  have dm: "\<not> bit (delivery_mode r) n" if "2 \<le> n" for n
    using that assms by (intro not_bit_of_less [of _ 2]) (simp_all add: word_less_nat_alt)
  have len: "n < 8" if "bit b n" for b :: u8 and n
    using bit_imp_le_length [OF that] by simp
  have "?dv AND ?vec = 0" by (rule bit_word_eqI) (auto simp: bit_simps dest: len)
  moreover have "(?dv OR ?vec) AND ?dm = 0" by (rule bit_word_eqI) (auto simp: bit_simps dest: len)
  ultimately have s: "wadd 0 ?dv = Ok ?dv" "wadd ?dv ?vec = Ok (?dv OR ?vec)"
    "wadd (?dv OR ?vec) ?dm = Ok (?dv OR ?vec OR ?dm)"
    using wadd_disjoint [of 0 ?dv] by (simp_all add: wadd_disjoint or.assoc)
  show ?thesis
    by (simp add: red_tbl_store_def s flag_step red_word_def bit_flag_at bit_simps dm not_bit_beyond or.assoc)
qed

lemma low_bit: "c AND 1 \<noteq> 0 \<longleftrightarrow> bit (c :: u64) 0"
  by (simp add: bits_listed bit_simps bit_1_iff)

lemma red_tbl_new_fields:
  "vector (red_tbl_new n) = ucast n" "delivery_mode (red_tbl_new n) = take_bit 2 (ucast (drop_bit 8 n))"
  "destination_mode (red_tbl_new n) = bit n 10" "delivery_status (red_tbl_new n) = bit n 11"
  "pin_polarity (red_tbl_new n) = bit n 12" "remote_irr (red_tbl_new n) = bit n 13"
  "trigger_mode (red_tbl_new n) = bit n 14" "rt_mask (red_tbl_new n) = bit n 15"
  "destination (red_tbl_new n) = ucast (drop_bit 56 n)"
  unfolding red_tbl_new_def Let_def low_bit by (simp_all add: bits_listed bit_simps)

lemma delivery_mode_new: "delivery_mode (red_tbl_new n) < 4"
proof -
  have "unat (take_bit 2 (ucast (drop_bit 8 n)) :: u8) < 4"
    unfolding unsigned_take_bit_eq by (simp add: take_bit_eq_mod)
  then show ?thesis by (simp add: red_tbl_new_fields word_less_nat_alt)
qed

lemma red_tbl_eqI: "(r = s) \<longleftrightarrow>
   vector r = vector s \<and> delivery_mode r = delivery_mode s \<and> destination_mode r = destination_mode s \<and>
   delivery_status r = delivery_status s \<and> pin_polarity r = pin_polarity s \<and> remote_irr r = remote_irr s \<and>
   trigger_mode r = trigger_mode s \<and> rt_mask r = rt_mask s \<and> destination r = (destination s :: u8)"
  for r s :: red_tbl
  by (cases r; cases s) auto

lemma red_word_new: "red_word (red_tbl_new n) = n AND 0xFF0000000000FFFF"
  by (simp only: bits_listed red_word_def red_tbl_new_fields)
    (simp add: bit_simps bit_flag_at bits_listed)

lemma red_tbl_new_word:
  assumes "delivery_mode r < 4"
  shows "red_tbl_new (red_word r) = r"
proof -
  have dm: "\<not> bit (delivery_mode r) n" if "2 \<le> n" for n
    using that assms by (intro not_bit_of_less [of _ 2]) (simp_all add: word_less_nat_alt)
  show ?thesis unfolding red_tbl_eqI red_tbl_new_fields
    by (simp add: red_word_def bit_simps bit_flag_at bits_listed dm)
qed

text \<open>
  Encoding and decoding of redirection entries: decoding an encoded entry gives the entry back for
  every delivery mode of two bits, and encoding a decoded word keeps exactly bits 0 to 15 and 56 to 63.
\<close>

theorem red_tbl_round_trip:
  "(delivery_mode r < 4 \<longrightarrow> (\<exists>w. red_tbl_store r = Ok w \<and> red_tbl_new w = r)) \<and>
   red_tbl_store (red_tbl_new n) = Ok (n AND 0xFF0000000000FFFF)"
  using delivery_mode_new [of n] by (simp add: red_tbl_store_word red_tbl_new_word red_word_new)

theorem red_tbl_round_trip_witness:
  "\<exists>w. red_tbl_store \<lparr>vector = 50, delivery_mode = 1, destination_mode = True, delivery_status = False,
      pin_polarity = False, remote_irr = True, trigger_mode = False, rt_mask = True, destination = 3\<rparr> = Ok w \<and>
    vector (red_tbl_new w) = 50 \<and> destination (red_tbl_new w) = 3 \<and> rt_mask (red_tbl_new w)"
  using red_tbl_round_trip [THEN conjunct1, of "\<lparr>vector = 50, delivery_mode = 1, destination_mode = True,
      delivery_status = False, pin_polarity = False, remote_irr = True, trigger_mode = False, rt_mask = True,
      destination = 3\<rparr>"]
  by auto

section \<open>Routing\<close>

text \<open>
  What the I/O APIC documents: writing a register number to the select register makes the window
  register at offset 0x10 stand for that register. \<open>ro r\<close> are the read-only bits of a register; a
  redirection entry has them in bits 8 to 15 of its low word (delivery status and remote IRR).
\<close>

definition io_window :: "'hw machine \<Rightarrow> addr \<Rightarrow> ('hw \<Rightarrow> u32 \<Rightarrow> u32) \<Rightarrow> (u32 \<Rightarrow> u32) \<Rightarrow> bool" where
  "io_window H base regs ro \<longleftrightarrow>
     (\<forall>hw r. fst (read_volatile H (write_volatile H hw base r) (base + 0x10)) = regs hw r \<and>
        regs (snd (read_volatile H (write_volatile H hw base r) (base + 0x10))) = regs hw \<and>
        (\<forall>v. regs (write_volatile H (write_volatile H hw base r) (base + 0x10) v) =
               (regs hw)(r := (v AND NOT (ro r)) OR (regs hw r AND ro r))))"

definition entry_ro :: "(u32 \<Rightarrow> u32) \<Rightarrow> bool" where
  "entry_ro ro \<longleftrightarrow> (\<forall>i < 24. ro (of_nat (16 + 2 * i)) AND 0xFFFF00FF = 0 \<and> ro (of_nat (17 + 2 * i)) = 0)"

lemma io_read_window:
  assumes "io_window H (io_virt io) regs ro" "vadd (io_virt io) 0x10 = Ok (io_virt io + 0x10)"
  obtains hw' where "io_read H vadd io r hw = Ok (regs hw r, hw')" "regs hw' = regs hw"
  using assms by (simp add: io_read_def set_sel_def io_window_def) (metis prod.collapse)

lemma io_write_window:
  assumes "io_window H (io_virt io) regs ro" "vadd (io_virt io) 0x10 = Ok (io_virt io + 0x10)"
  obtains hw' where "io_write H vadd io r v hw = Ok hw'"
    "regs hw' = (regs hw)(r := (v AND NOT (ro r)) OR (regs hw r AND ro r))"
  using assms by (simp add: io_write_def set_sel_def io_window_def)

lemma redtlb_regs:
  assumes "i < 24"
  shows "redtlb_low (of_nat i) = Ok (of_nat (16 + 2 * i))" "redtlb_high (of_nat i) = Ok (of_nat (17 + 2 * i))"
proof -
  have "unat (of_nat i :: u32) = i" "unat (16 + 2 * of_nat i :: u32) = 16 + 2 * i" "unat (2 * of_nat i :: u32) = 2 * i"
    using assms by (simp_all add: unat_of_nat unat_word_ariths)
  then show "redtlb_low (of_nat i) = Ok (of_nat (16 + 2 * i))" "redtlb_high (of_nat i) = Ok (of_nat (17 + 2 * i))"
    using assms by (simp_all add: redtlb_low_def redtlb_high_def wadd_def wmul_def)
qed

lemma route_word:
  fixes low high v :: u32
  assumes "unat v < 256"
  defines "w \<equiv> red_word (red_tbl_new (push_bit 32 (ucast high) OR ucast low)\<lparr>vector := ucast v\<rparr>)"
  shows "ucast (w AND 0xFFFF) = (low AND 0xFF00) OR v" "ucast (drop_bit 32 w) = high AND 0xFF000000"
proof -
  have v: "\<not> bit v n" if "8 \<le> n" for n
    using that assms(1) by (intro not_bit_of_less [of _ 8]) simp_all
  note bits = w_def red_word_def red_tbl_new_fields red_tbl.simps
  show "ucast (w AND 0xFFFF) = (low AND 0xFF00) OR v"
    by (simp add: bits bit_simps bit_flag_at bits_listed v)
  show "ucast (drop_bit 32 w) = high AND 0xFF000000"
    by (simp add: bits bit_simps bit_flag_at bits_listed v)
qed

lemma masked_by_ro:
  fixes ro old new :: u32
  assumes "ro AND 0xFFFF00FF = 0" "unat v < 256" "new = (old AND 0xFF00) OR v"
  shows "(new AND NOT ro) OR (old AND ro) = new"
proof -
  have ro: "\<not> bit ro n" if "n < 8 \<or> 16 \<le> n" "n < 32" for n
  proof -
    have "\<not> bit (ro AND 0xFFFF00FF) n" using assms(1) by simp
    moreover have "bit (0xFFFF00FF :: u32) n"
    proof -
      have "\<forall>n < 32. n < 8 \<or> 16 \<le> n \<longrightarrow> bit (0xFFFF00FF :: u32) n" by (simp add: all_less_numeral bit_simps)
      with that show ?thesis by blast
    qed
    ultimately show ?thesis by (simp add: bit_simps)
  qed
  have v: "\<not> bit v n" if "8 \<le> n" for n
    using that assms(2) by (intro not_bit_of_less [of _ 8]) simp_all
  show ?thesis unfolding assms(3) by (simp add: bits_listed bit_simps ro v) (intro conjI; blast)
qed

lemma route_input_regs:
  assumes H: "io_window H (io_virt io) regs ro" "vadd (io_virt io) 0x10 = Ok (io_virt io + 0x10)"
    and ro: "entry_ro ro" and i: "i < 24"
  obtains hw' where "route_input H vadd io (of_nat i) hw = Ok hw'"
    "regs hw' = (regs hw)(of_nat (16 + 2 * i) := (regs hw (of_nat (16 + 2 * i)) AND 0xFF00) OR of_nat (50 + i),
                          of_nat (17 + 2 * i) := regs hw (of_nat (17 + 2 * i)) AND 0xFF000000)"
proof -
  let ?l = "of_nat (16 + 2 * i) :: u32" and ?h = "of_nat (17 + 2 * i) :: u32" and ?v = "of_nat (50 + i) :: u32"
  let ?n = "push_bit 32 (ucast (regs hw ?h)) OR ucast (regs hw ?l) :: u64"
  let ?r = "red_tbl_new ?n\<lparr>vector := ucast ?v\<rparr>"
  obtain hw1 where 1: "io_read H vadd io ?l hw = Ok (regs hw ?l, hw1)" "regs hw1 = regs hw"
    using io_read_window [of H io regs ro vadd, OF H] .
  obtain hw2 where 2: "io_read H vadd io ?h hw1 = Ok (regs hw1 ?h, hw2)" "regs hw2 = regs hw1"
    using io_read_window [of H io regs ro vadd, OF H] .
  have "push_bit 32 (ucast (regs hw ?h)) AND ucast (regs hw ?l) = (0 :: u64)"
    by (rule bit_word_eqI) (auto simp: bit_simps dest: bit_imp_le_length)
  from wadd_disjoint [OF this] have n: "read_redtlb H vadd io (of_nat i) hw = Ok (?n, hw2)"
    using 1 2 redtlb_regs [OF i] by (simp add: read_redtlb_def)
  have v: "unat ?v < 256" using i by (simp add: unat_of_nat del: of_nat_add)
  have w50: "wadd 50 (of_nat i) = Ok ?v" using i by (simp add: wadd_def unat_of_nat)
  have "delivery_mode ?r < 4" using delivery_mode_new by simp
  then have st: "red_tbl_store ?r = Ok (red_word ?r)" by (rule red_tbl_store_word)
  note w = route_word [OF v, of "regs hw ?h" "regs hw ?l"]
  obtain hw3 where 3: "io_write H vadd io ?l (ucast (red_word ?r AND 0xFFFF)) hw2 = Ok hw3"
      "regs hw3 = (regs hw2)(?l := (ucast (red_word ?r AND 0xFFFF) AND NOT (ro ?l)) OR (regs hw2 ?l AND ro ?l))"
    using io_write_window [of H io regs ro vadd, OF H] .
  obtain hw4 where 4: "io_write H vadd io ?h (ucast (drop_bit 32 (red_word ?r))) hw3 = Ok hw4"
      "regs hw4 = (regs hw3)(?h := (ucast (drop_bit 32 (red_word ?r)) AND NOT (ro ?h)) OR (regs hw3 ?h AND ro ?h))"
    using io_write_window [of H io regs ro vadd, OF H] .
  have ro': "ro ?l AND 0xFFFF00FF = 0" "ro ?h = 0" using ro i by (simp_all only: entry_ro_def)
  have "route_input H vadd io (of_nat i) hw = Ok hw4"
    unfolding route_input_def n rbind_simps split w50 st write_redtlb_def redtlb_regs [OF i] 3(1) 4(1) ..
  moreover have "regs hw4 = (regs hw)(?l := (regs hw ?l AND 0xFF00) OR ?v, ?h := regs hw ?h AND 0xFF000000)"
    unfolding 4(2) 3(2) w ro'(2) 2(2) 1(2) masked_by_ro [OF ro'(1) v refl] by simp
  ultimately show thesis by (rule that)
qed

lemma route_inputs_regs:
  assumes "io_window H (io_virt io) regs ro" "vadd (io_virt io) 0x10 = Ok (io_virt io + 0x10)" "entry_ro ro"
  shows "\<exists>hw'. route_inputs H vadd io hw = Ok hw' \<and>
    (\<forall>i < 24. regs hw' (of_nat (16 + 2 * i)) = (regs hw (of_nat (16 + 2 * i)) AND 0xFF00) OR of_nat (50 + i) \<and>
       regs hw' (of_nat (17 + 2 * i)) = regs hw (of_nat (17 + 2 * i)) AND 0xFF000000) \<and>
    (\<forall>r. unat r < 16 \<or> 64 \<le> unat r \<longrightarrow> regs hw' r = regs hw r)"
proof -
  have "\<exists>hw'. rfold (route_input H vadd io) (map of_nat [0..<k]) hw = Ok hw' \<and>
    (\<forall>i < k. regs hw' (of_nat (16 + 2 * i)) = (regs hw (of_nat (16 + 2 * i)) AND 0xFF00) OR of_nat (50 + i) \<and>
       regs hw' (of_nat (17 + 2 * i)) = regs hw (of_nat (17 + 2 * i)) AND 0xFF000000) \<and>
    (\<forall>r. unat r < 16 \<or> 16 + 2 * k \<le> unat r \<longrightarrow> regs hw' r = regs hw r)" if "k \<le> 24" for k
    using that
  proof (induction k)
    case (Suc k)
    then obtain hw1 where IH: "rfold (route_input H vadd io) (map of_nat [0..<k]) hw = Ok hw1"
      "\<And>i. i < k \<Longrightarrow> regs hw1 (of_nat (16 + 2 * i)) = (regs hw (of_nat (16 + 2 * i)) AND 0xFF00) OR of_nat (50 + i)"
      "\<And>i. i < k \<Longrightarrow> regs hw1 (of_nat (17 + 2 * i)) = regs hw (of_nat (17 + 2 * i)) AND 0xFF000000"
      "\<And>r. unat r < 16 \<or> 16 + 2 * k \<le> unat r \<Longrightarrow> regs hw1 r = regs hw r" by auto
    let ?l = "of_nat (16 + 2 * k) :: u32" and ?h = "of_nat (17 + 2 * k) :: u32"
    have k: "k < 24" using Suc.prems by simp
    obtain hw2 where s: "route_input H vadd io (of_nat k) hw1 = Ok hw2"
      "regs hw2 = (regs hw1)(?l := (regs hw1 ?l AND 0xFF00) OR of_nat (50 + k), ?h := regs hw1 ?h AND 0xFF000000)"
      using route_input_regs [of H io regs ro vadd k hw1, OF assms k] .
    have u: "unat (of_nat j :: u32) = j" if "j < 100" for j using that by (simp add: unat_of_nat)
    have ne: "of_nat j \<noteq> (of_nat j' :: u32)" if "j < 100" "j' < 100" "j \<noteq> j'" for j j'
      using u [OF that(1)] u [OF that(2)] that(3) by metis
    have same: "regs hw1 ?l = regs hw ?l" "regs hw1 ?h = regs hw ?h"
      using k by (auto intro!: IH(4) simp only: u)
    have "regs hw2 r = regs hw r" if "unat r < 16 \<or> 16 + 2 * Suc k \<le> unat r" for r
    proof -
      have "r \<noteq> ?l" "r \<noteq> ?h" using that k u [of "16 + 2 * k"] u [of "17 + 2 * k"] by auto
      then show ?thesis using that IH(4) [of r] unfolding s(2) by auto
    qed
    moreover have "regs hw2 (of_nat (16 + 2 * i)) = (regs hw (of_nat (16 + 2 * i)) AND 0xFF00) OR of_nat (50 + i) \<and>
       regs hw2 (of_nat (17 + 2 * i)) = regs hw (of_nat (17 + 2 * i)) AND 0xFF000000" if "i < Suc k" for i
    proof (cases "i = k")
      case True
      have "?l \<noteq> ?h" using k by (intro ne) simp_all
      then show ?thesis unfolding s(2) same True by simp
    next
      case False
      with that k have "of_nat (16 + 2 * i) \<noteq> ?l" "of_nat (16 + 2 * i) \<noteq> ?h"
          "of_nat (17 + 2 * i) \<noteq> ?l" "of_nat (17 + 2 * i) \<noteq> ?h"
        by (intro ne; presburger)+
      with False that IH(2,3) [of i] show ?thesis unfolding s(2) by (simp del: of_nat_add of_nat_mult)
    qed
    ultimately show ?case using IH(1) s(1) by (simp add: rfold_append del: of_nat_add of_nat_mult)
  qed simp
  from this [of 24] show ?thesis by (simp add: route_inputs_def)
qed

text \<open>
  C24. The set-up of the I/O APIC ends without a panic and routes input \<open>i\<close> to vector \<open>50 + i\<close>: the low word
  of each of the 24 entries keeps its bits 8 to 15, gets the vector and loses all bits from 16 up, where
  the mask bit of the hardware is; the high word keeps the destination; no other register changes.
\<close>

theorem route_inputs_vectors:
  assumes "io_window H (io_virt io) regs ro" "vadd (io_virt io) 0x10 = Ok (io_virt io + 0x10)" "entry_ro ro"
  shows "\<exists>hw'. route_inputs H vadd io hw = Ok hw' \<and>
    (\<forall>i < 24. regs hw' (of_nat (16 + 2 * i)) = (regs hw (of_nat (16 + 2 * i)) AND 0xFF00) OR of_nat (50 + i) \<and>
       regs hw' (of_nat (17 + 2 * i)) = regs hw (of_nat (17 + 2 * i)) AND 0xFF000000) \<and>
    (\<forall>r. unat r < 16 \<or> 64 \<le> unat r \<longrightarrow> regs hw' r = regs hw r)"
  by (rule route_inputs_regs [of H io regs ro vadd hw, OF assms])

definition io_box :: "addr \<Rightarrow> (u32 \<times> (u32 \<Rightarrow> u32)) machine" where
  "io_box base =
     inert_machine
     \<lparr>read_volatile := \<lambda>(sel, regs) a. (if a = base + 0x10 then regs sel else sel, (sel, regs)),
      write_volatile := \<lambda>(sel, regs) a v.
        if a = base then (v, regs)
        else if a = base + 0x10 then (sel, regs(sel := if even (unat sel) then (v AND NOT 0x5000) OR (regs sel AND 0x5000) else v)) else (sel, regs)\<rparr>"

definition io_box_ro_bits :: "u32 \<Rightarrow> u32" where
  "io_box_ro_bits r = (if even (unat r) then 0x5000 else 0)"

lemma io_box_window: "io_virt io = base \<Longrightarrow> io_window (io_box base) (io_virt io) snd io_box_ro_bits"
  by (simp add: io_window_def io_box_def inert_machine_def split_beta io_box_ro_bits_def)

lemma io_box_ro: "entry_ro io_box_ro_bits"
  by (auto simp: entry_ro_def io_box_ro_bits_def unat_of_nat simp del: of_nat_add of_nat_mult)

theorem route_inputs_vectors_witness:
  "\<exists>hw'. route_inputs (io_box 0xFEC00000) (\<lambda>a n. Ok (a + n)) \<lparr>io_virt = 0xFEC00000, global_system_int = 0, io_id = 0\<rparr>
     (0, \<lambda>r. 0x10000) = Ok hw' \<and> snd hw' 0x12 = 51"
proof -
  let ?io = "\<lparr>io_virt = 0xFEC00000, global_system_int = 0, io_id = 0\<rparr>"
  have "io_window (io_box 0xFEC00000) (io_virt ?io) snd io_box_ro_bits" by (rule io_box_window) simp
  moreover note io_box_ro
  ultimately obtain hw' where "route_inputs (io_box 0xFEC00000) (\<lambda>a n. Ok (a + n)) ?io (0, \<lambda>r. 0x10000) = Ok hw'"
    and v: "\<forall>i < 24. snd hw' (of_nat (16 + 2 * i)) = (0x10000 AND 0xFF00) OR of_nat (50 + i)"
    using route_inputs_vectors [of "io_box 0xFEC00000" ?io snd io_box_ro_bits "\<lambda>a n. Ok (a + n)" "(0, \<lambda>r. 0x10000)"] by auto
  with v [rule_format, of 1] show ?thesis by auto
qed

section \<open>Interrupt commands\<close>

text \<open>If the delivery status clears after \<open>n\<close> reads, the spin loop ends after the next one.\<close>

lemma spin_pending_ends:
  assumes "\<forall>j < n. fst (read_volatile H (((\<lambda>s. snd (read_volatile H s a)) ^^ j) hw) a) AND PENDING = PENDING"
    and "fst (read_volatile H (((\<lambda>s. snd (read_volatile H s a)) ^^ n) hw) a) AND PENDING \<noteq> PENDING"
  shows "spin_pending H a hw = Some (((\<lambda>s. snd (read_volatile H s a)) ^^ Suc n) hw)"
  using assms
proof (induction n arbitrary: hw)
  case 0
  then show ?case by (subst spin_pending.simps) simp
next
  case (Suc n)
  let ?f = "\<lambda>s. snd (read_volatile H s a)"
  have f: "(?f ^^ j) (?f hw) = (?f ^^ Suc j) hw" for j using funpow_swap1 [of ?f j hw] by simp
  have "\<forall>j < n. fst (read_volatile H ((?f ^^ j) (?f hw)) a) AND PENDING = PENDING"
    unfolding f using Suc.prems(1) by blast
  moreover have "fst (read_volatile H ((?f ^^ n) (?f hw)) a) AND PENDING \<noteq> PENDING"
    unfolding f using Suc.prems(2) .
  ultimately have "spin_pending H a (?f hw) = Some ((?f ^^ Suc n) (?f hw))" by (rule Suc.IH)
  moreover have "spin_pending H a hw = spin_pending H a (?f hw)"
    using Suc.prems(1) [rule_format, of 0] by (subst spin_pending.simps) simp
  ultimately show ?case unfolding f by simp
qed

text \<open>A command is sent high word first, after the previous one is delivered.\<close>

lemma set_icr_sends:
  assumes "la_virt la + 0x310 < usize_bound" "spin_pending H (la_virt la + 0x300) hw = Some hw1"
  shows "set_icr H la v hw =
    Ok (spin_pending H (la_virt la + 0x300)
      (write_volatile H (write_volatile H hw1 (la_virt la + 0x310) (ucast (drop_bit 32 v))) (la_virt la + 0x300) (ucast v)))"
  using assms by (simp add: set_icr_def la_write_def)

end
