(* ===== verification/Interrupts.thy ===== *)
theory Interrupts
  imports Apic Keyboard_Input Console
begin

text \<open>
  Interrupts (\<open>kernel/src/interrupts.rs\<close>) and the waiting built on the timer (\<open>kernel/src/sleep.rs\<close>): the
  descriptor table, the handlers, \<open>TICK_COUNT\<close>, and \<open>Sleep::ms\<close> and \<open>Sleep::sec\<close>.

  The statics the handlers use are one state: the tick counter, the cell \<open>LAPIC\<close>, the keyboard's queue and
  waker, and the machine.
\<close>

section \<open>The descriptor table\<close>

datatype handler =
    BreakpointHandler | PageFaultHandler | GpFaultHandler | DoubleFaultHandler
  | GenericHandler | TimerHandler | TimerHandler2 | IoApicHandler nat | Int80Entry

definition set_all :: "nat list \<Rightarrow> (nat \<Rightarrow> handler) \<Rightarrow> (nat \<rightharpoonup> handler) \<Rightarrow> (nat \<rightharpoonup> handler)" where
  "set_all vs h idt = fold (\<lambda>v idt. idt(v \<mapsto> h v)) vs idt"

text \<open>The entries in the order the table sets them; later ones replace earlier ones.\<close>

definition IDT :: "nat \<rightharpoonup> handler" where
  "IDT =
     (let idt0 = [3 \<mapsto> BreakpointHandler, 14 \<mapsto> PageFaultHandler, 13 \<mapsto> GpFaultHandler, 8 \<mapsto> DoubleFaultHandler];
          idt1 = set_all [32..<256] (\<lambda>_. GenericHandler) idt0;
          idt2 = idt1(48 \<mapsto> TimerHandler, 49 \<mapsto> TimerHandler2);
          idt3 = set_all [50..<74] (\<lambda>v. IoApicHandler (v - 50)) idt2
      in idt3(0x80 \<mapsto> Int80Entry))"

section \<open>Handlers\<close>

record ('hw, 'q, 'w) irq_state =
  tick_count :: nat
  lapic_cell :: "local_apic option"
  irq_kb :: "('q, 'w) kb"
  irq_hw :: 'hw

definition end_of_interrupt :: "'hw machine \<Rightarrow> ('hw, 'q, 'w) irq_state \<Rightarrow> ('hw, 'q, 'w) irq_state res" where
  "end_of_interrupt H s =
     rbind (expect ''(APIC) Unable to get the LAPIC!'' (lapic_cell s)) (\<lambda>la.
     rbind (eoi H la (irq_hw s)) (\<lambda>hw. Ok (s\<lparr>irq_hw := hw\<rparr>)))"

definition timer_interrupt_handler :: "'hw machine \<Rightarrow> ('hw, 'q, 'w) irq_state \<Rightarrow> ('hw, 'q, 'w) irq_state res" where
  "timer_interrupt_handler H s =
     rbind (uadd (tick_count s) 1) (\<lambda>n. end_of_interrupt H (s\<lparr>tick_count := n\<rparr>))"

text \<open>
  Handler \<open>n\<close> of the 24 inputs. Handler 10 first passes the interrupt to the network card if the static \<open>RTL8139\<close>
  holds one; nothing in the kernel ever stores a card there (\<open>main.rs\<close> leaves it \<open>None\<close>), and that branch is left out.
\<close>

definition ioapic_handler :: "'hw machine \<Rightarrow> ('q, u8) array_queue \<Rightarrow> nat \<Rightarrow> ('hw, 'q, 'w) irq_state \<Rightarrow>
    ('hw, 'q, 'w) irq_state res" where
  "ioapic_handler H Q n s =
     (if n = 1
      then let (sc, hw) = port_in8 H (irq_hw s) 0x60
           in rbind (add_scancode Q (irq_kb s) sc) (\<lambda>kb.
                end_of_interrupt H (s\<lparr>irq_kb := kb, irq_hw := hw\<rparr>))
      else end_of_interrupt H s)"

text \<open>The handlers of faults print and stop; the texts of the frame and of the error code are arguments.\<close>

definition fault_report :: "u8 list \<Rightarrow> ustr \<Rightarrow> ustr list \<Rightarrow> console \<Rightarrow> console res" where
  "fault_report D loc text c =
     rbind (error D loc text c) (\<lambda>c1.
     rbind (on_tty (\<lambda>t. sad t (Some (243, 139, 168, 255))) c1) (\<lambda>c2. Ok (serial_print [[0x2639]] c2)))"

definition page_fault_handler :: "u8 list \<Rightarrow> ustr \<Rightarrow> ustr \<Rightarrow> ustr \<Rightarrow> ustr \<Rightarrow> console \<Rightarrow> console res" where
  "page_fault_handler D loc cr2 code frame =
     fault_report D loc [10 # lit ''Uh-oh! The Lemoncake kernel page-faulted.'' @ 10 # lit ''Here's what happened:'' @
       10 # lit ''Accessed Address: '', cr2, 10 # lit ''Error Code: '', code, 10 # lit ''Stack Frame:'' @ [10], frame]"

definition double_fault_handler :: "u8 list \<Rightarrow> ustr \<Rightarrow> ustr \<Rightarrow> ustr \<Rightarrow> console \<Rightarrow> console res" where
  "double_fault_handler D loc code frame =
     fault_report D loc [10 # lit ''Uh-oh! The Lemoncake kernel double-faulted.'' @ 10 # lit ''Here's the stack frame:'' @ [10],
       frame, 10 # lit ''Error Code: '', code]"

definition gp_fault_handler :: "u8 list \<Rightarrow> ustr \<Rightarrow> ustr \<Rightarrow> ustr \<Rightarrow> console \<Rightarrow> console res" where
  "gp_fault_handler D loc code frame =
     fault_report D loc [10 # lit ''Uh-oh! The Lemoncake kernel GP-faulted.'' @ 10 # lit ''Here's the stack frame:'' @ [10],
       frame, 10 # lit ''Error Code: '', code]"

definition breakpoint_handler :: "u8 list \<Rightarrow> ustr \<Rightarrow> console \<Rightarrow> console res" where
  "breakpoint_handler D frame = info D [lit ''Breakpoint'' @ [10], frame]"

text \<open>
  What an interrupt that returns does: the handler that the table has for its vector. The faults, the
  breakpoint and the system call are not device interrupts.
\<close>

fun run_handler :: "'hw machine \<Rightarrow> ('q, u8) array_queue \<Rightarrow> handler \<Rightarrow> ('hw, 'q, 'w) irq_state \<Rightarrow>
    ('hw, 'q, 'w) irq_state res" where
  "run_handler H Q TimerHandler s = timer_interrupt_handler H s"
| "run_handler H Q TimerHandler2 s = end_of_interrupt H s"
| "run_handler H Q GenericHandler s = end_of_interrupt H s"
| "run_handler H Q (IoApicHandler n) s = ioapic_handler H Q n s"
| "run_handler H Q _ s = Ok s"

definition deliver :: "'hw machine \<Rightarrow> ('q, u8) array_queue \<Rightarrow> nat \<Rightarrow> ('hw, 'q, 'w) irq_state \<Rightarrow>
    ('hw, 'q, 'w) irq_state res" where
  "deliver H Q v s = (case IDT v of None \<Rightarrow> Ok s | Some h \<Rightarrow> run_handler H Q h s)"

text \<open>
  \<open>disable_pics\<close>, which nothing calls; \<open>LocalApic::init\<close> masks the legacy controllers itself. The controllers are
  the crate \<open>pic8259\<close>'s: \<open>initialize\<close> and \<open>write_masks\<close>.
\<close>

definition disable_pics :: "('p \<Rightarrow> 'p) \<Rightarrow> (u8 \<Rightarrow> u8 \<Rightarrow> 'p \<Rightarrow> 'p) \<Rightarrow> 'p \<Rightarrow> 'p" where
  "disable_pics initialize write_masks pics = write_masks 0xFF 0xFF (initialize pics)"

section \<open>Waiting\<close>

text \<open>
  The loops of \<open>Sleep\<close> load \<open>TICK_COUNT\<close> again and again: \<open>obs k\<close> is what the \<open>k\<close>-th load of the program
  returns. The result is the number of loads made, \<open>None\<close> when the loop does not end.
\<close>

partial_function (option) wait_tick :: "(nat \<Rightarrow> nat) \<Rightarrow> nat \<Rightarrow> nat \<Rightarrow> nat option" where
  "wait_tick obs goal k = (if obs k \<ge> goal then Some (Suc k) else wait_tick obs goal (Suc k))"

definition sleep_ms :: "(nat \<Rightarrow> nat) \<Rightarrow> nat \<Rightarrow> nat \<Rightarrow> nat option res" where
  "sleep_ms obs ms k = rbind (uadd (obs k) ms) (\<lambda>goal. Ok (wait_tick obs goal (Suc k)))"

definition sleep_sec :: "(nat \<Rightarrow> nat) \<Rightarrow> nat \<Rightarrow> nat \<Rightarrow> nat option res" where
  "sleep_sec obs sec k =
     rbind (umul sec 1000) (\<lambda>ms. rbind (uadd (obs k) ms) (\<lambda>goal. Ok (wait_tick obs goal (Suc k))))"

lemma wait_tick_ends:
  assumes "goal \<le> obs j" "k \<le> j" "\<forall>i. k \<le> i \<and> i < j \<longrightarrow> obs i < goal"
  shows "wait_tick obs goal k = Some (Suc j)"
  using assms(2,3)
proof (induction "j - k" arbitrary: k)
  case 0
  with assms(1) show ?case by (subst wait_tick.simps) simp
next
  case (Suc n)
  then have "obs k < goal" by auto
  moreover have "wait_tick obs goal (Suc k) = Some (Suc j)" using Suc by auto
  ultimately show ?case by (subst wait_tick.simps) simp
qed

lemma wait_tick_Some: "wait_tick obs goal k = Some r \<Longrightarrow> \<exists>j \<ge> k. r = Suc j \<and> goal \<le> obs j"
proof (rule wait_tick.raw_induct [where P = "\<lambda>obs goal k r. \<exists>j \<ge> k. r = Suc j \<and> goal \<le> obs j"])
  fix wt obs goal k r
  assume "\<And>obs goal k r. wt obs goal k = Some r \<Longrightarrow> \<exists>j \<ge> k. r = Suc j \<and> goal \<le> obs j"
    and "(if goal \<le> obs k then Some (Suc k) else wt obs goal (Suc k)) = Some r"
  then show "\<exists>j \<ge> k. r = Suc j \<and> goal \<le> obs j" by (fastforce split: if_splits dest: Suc_leD)
qed

text \<open>
  C26. \<open>Sleep::ms\<close> returns exactly when some later load of the tick counter has reached the goal, and then
  at the first such load; when the counter stands still, as with interrupts off, a wait of more than
  zero milliseconds never returns.
\<close>

theorem sleep_ms_returns:
  assumes "obs k + ms < usize_bound"
  shows "(\<forall>j > k. obs k + ms \<le> obs j \<longrightarrow> (\<forall>i. k < i \<and> i < j \<longrightarrow> obs i < obs k + ms) \<longrightarrow>
      sleep_ms obs ms k = Ok (Some (Suc j))) \<and>
    ((\<forall>j > k. obs j < obs k + ms) \<longrightarrow> sleep_ms obs ms k = Ok None)"
proof -
  have eq: "sleep_ms obs ms k = Ok (wait_tick obs (obs k + ms) (Suc k))" using assms by (simp add: sleep_ms_def)
  have "wait_tick obs (obs k + ms) (Suc k) = Some (Suc j)"
    if "j > k" "obs k + ms \<le> obs j" "\<forall>i. k < i \<and> i < j \<longrightarrow> obs i < obs k + ms" for j
    using that by (intro wait_tick_ends) auto
  moreover have "wait_tick obs (obs k + ms) (Suc k) = None" if never: "\<forall>j > k. obs j < obs k + ms"
    using wait_tick_Some [of obs "obs k + ms" "Suc k"] never
    by (cases "wait_tick obs (obs k + ms) (Suc k)") (auto simp: Suc_le_eq linorder_not_le [symmetric])
  ultimately show ?thesis using eq by simp
qed

theorem sleep_ms_returns_witness:
  "sleep_ms (\<lambda>k. k div 2) 3 0 = Ok (Some 7) \<and> sleep_ms (\<lambda>k. 5) 1 0 = Ok None"
proof -
  have "sleep_ms (\<lambda>k. k div 2) 3 0 = Ok (Some (Suc 6))"
    using sleep_ms_returns [of "\<lambda>k. k div 2" 0 3, THEN conjunct1, rule_format, of 6] by force
  moreover have "sleep_ms (\<lambda>k. 5) 1 0 = Ok None"
    using sleep_ms_returns [of "\<lambda>k. 5" 0 1, THEN conjunct2] by simp
  ultimately show ?thesis by simp
qed

section \<open>Vectors and handlers\<close>

lemma set_all_upt: "set_all [a..<b] h idt v = (if a \<le> v \<and> v < b then Some (h v) else idt v)"
proof -
  have "set_all vs h idt v = (if v \<in> set vs then Some (h v) else idt v)" for vs
    unfolding set_all_def by (induction vs arbitrary: idt) auto
  then show ?thesis by simp
qed

lemma IDT_device: "i < 24 \<Longrightarrow> IDT (50 + i) = Some (IoApicHandler i)"
  unfolding IDT_def Let_def fun_upd_def set_all_upt by simp

lemma IDT_timer: "IDT 48 = Some TimerHandler"
  unfolding IDT_def Let_def fun_upd_def set_all_upt by simp

end
