(* ===== verification/Elf.thy ===== *)
theory Elf
  imports Paging
begin

text \<open>
  Loading a program (\<open>kernel/src/elf.rs\<close>): \<open>Process\<close> with its \<open>init\<close>, \<open>alloc_stack\<close> and \<open>switch\<close>.

  The parser of the crate \<open>goblin\<close> is the parameter \<open>parse\<close>, from the bytes of the file to the fields
  that the kernel reads. User memory is a function from addresses to bytes; that the addresses written
  are mapped is part of the theorems. \<open>jump_to_usermode\<close> does not return: reaching it is the result
  \<open>Jump\<close> with the entry point and the stack pointer it is given. The console is not part of this model: the error
  messages that \<open>init\<close> and \<open>switch\<close> print before they return an error are left out.
\<close>

section \<open>Model\<close>

text \<open>The type of loadable segments in the ELF format.\<close>

definition PT_LOAD :: u32 where "PT_LOAD = 1"

record program_header =
  p_type :: u32
  p_offset :: nat
  p_vaddr :: addr
  p_filesz :: nat
  p_memsz :: nat

record elf =
  program_headers :: "program_header list"
  elf_entry :: addr

record process =
  pid :: "nat option"
  stack_addr :: "addr option"
  proc_data :: "u8 list"
  entrypoint :: "addr option"

datatype proc_init_error = AllocationError | InvalidElf

datatype proc_switch_error = SwitchAllocationError | SwitchInitError

datatype switch_result = SwitchErr proc_switch_error | Jump addr addr

definition process_new :: "u8 list \<Rightarrow> process" where
  "process_new d = \<lparr>pid = None, stack_addr = None, proc_data = d, entrypoint = None\<rparr>"

definition add_segment :: "program_header \<Rightarrow> nat \<Rightarrow> nat res" where
  "add_segment ph req_sz =
     (if p_type ph \<noteq> PT_LOAD then Ok req_sz
      else rbind (if req_sz < p_vaddr ph then uadd req_sz (p_vaddr ph) else Ok req_sz) (\<lambda>sz. uadd sz (p_memsz ph)))"

definition required_size :: "program_header list \<Rightarrow> nat res" where
  "required_size phs = rfold add_segment phs 0"

definition write_bytes :: "(addr \<Rightarrow> u8) \<Rightarrow> addr \<Rightarrow> u8 list \<Rightarrow> addr \<Rightarrow> u8" where
  "write_bytes mem a bs = (\<lambda>x. if a \<le> x \<and> x < a + length bs then bs ! (x - a) else mem x)"

definition load_segment :: "u8 list \<Rightarrow> addr \<Rightarrow> program_header \<Rightarrow> (addr \<Rightarrow> u8) \<Rightarrow> (addr \<Rightarrow> u8) res" where
  "load_segment file user_base ph mem =
     (if p_type ph \<noteq> PT_LOAD then Ok mem
      else rbind (uadd user_base (p_vaddr ph)) (\<lambda>dst.
           if dst = 0 \<or> p_memsz ph > isize_max then Panic UbCheck else
           rbind (uadd (p_offset ph) (p_filesz ph)) (\<lambda>file_end.
           rbind (slice_of file (p_offset ph) file_end) (\<lambda>src.
             let copy_len = min (length src) (p_memsz ph);
                 mem' = write_bytes mem dst (take copy_len src)
             in Ok (if copy_len < p_memsz ph
                    then write_bytes mem' (dst + copy_len) (replicate (p_memsz ph - copy_len) 0)
                    else mem')))))"

definition process_init :: "('m, 'f) mapper \<Rightarrow> ('f \<Rightarrow> ('f \<times> addr option) res) \<Rightarrow> (u8 list \<Rightarrow> elf option) \<Rightarrow> process \<Rightarrow>
    ('m, 'f) vm \<Rightarrow> (addr \<Rightarrow> u8) \<Rightarrow> ((proc_init_error + unit) \<times> process \<times> ('m, 'f) vm \<times> (addr \<Rightarrow> u8)) res" where
  "process_init ops alloc parse p s mem =
     (case parse (proc_data p) of
        None \<Rightarrow> Ok (Inl InvalidElf, p, s, mem)
      | Some e \<Rightarrow>
          rbind (required_size (program_headers e)) (\<lambda>req_sz.
          rbind (page_alloc_user ops alloc s req_sz) (\<lambda>(s', r).
            case r of
              None \<Rightarrow> Ok (Inl AllocationError, p, s', mem)
            | Some user_base \<Rightarrow>
                rbind (rfold (load_segment (proc_data p) user_base) (program_headers e) mem) (\<lambda>mem'.
                rbind (uadd (elf_entry e) user_base) (\<lambda>ep.
                  Ok (Inr (), p\<lparr>entrypoint := Some ep\<rparr>, s', mem'))))))"

definition alloc_stack :: "('m, 'f) mapper \<Rightarrow> ('f \<Rightarrow> ('f \<times> addr option) res) \<Rightarrow> process \<Rightarrow> ('m, 'f) vm \<Rightarrow> usize \<Rightarrow>
    (('m, 'f) vm \<times> addr option) res" where
  "alloc_stack ops alloc p s pages = alloc_pages_user ops alloc s pages"

definition process_switch :: "('m, 'f) mapper \<Rightarrow> ('f \<Rightarrow> ('f \<times> addr option) res) \<Rightarrow> (u8 list \<Rightarrow> elf option) \<Rightarrow> process \<Rightarrow>
    usize \<Rightarrow> ('m, 'f) vm \<Rightarrow> (addr \<Rightarrow> u8) \<Rightarrow> (switch_result \<times> process \<times> ('m, 'f) vm \<times> (addr \<Rightarrow> u8)) res" where
  "process_switch ops alloc parse p pages s mem =
     rbind (if entrypoint p = None then process_init ops alloc parse p s mem else Ok (Inr (), p, s, mem))
       (\<lambda>(r, p1, s1, mem1).
         case r of
           Inl _ \<Rightarrow> Ok (SwitchErr SwitchInitError, p1, s1, mem1)
         | Inr _ \<Rightarrow>
             rbind (if stack_addr p1 = None
                    then rbind (alloc_stack ops alloc p1 s1 pages) (\<lambda>(s2, st).
                      case st of
                        None \<Rightarrow> Ok (None, p1, s2)
                      | Some a \<Rightarrow> Ok (Some (), p1\<lparr>stack_addr := Some a\<rparr>, s2))
                    else Ok (Some (), p1, s1))
               (\<lambda>(ok, p2, s2).
                 if ok = None then Ok (SwitchErr SwitchAllocationError, p2, s2, mem1)
                 else rbind (expect ''unwrap'' (entrypoint p2)) (\<lambda>entry.
                      rbind (expect ''unwrap'' (stack_addr p2)) (\<lambda>st. Ok (Jump entry st, p2, s2, mem1)))))"

section \<open>Size and contents of the image\<close>

text \<open>The size computed is enough for every segment.\<close>

lemma add_segment_mono: "add_segment ph sz = Ok sz' \<Longrightarrow> sz \<le> sz'"
  by (auto simp: add_segment_def res_iff split: if_splits)

lemma add_segment_covers: "add_segment ph sz = Ok sz' \<Longrightarrow> p_type ph = PT_LOAD \<Longrightarrow> p_vaddr ph + p_memsz ph \<le> sz'"
  by (auto simp: add_segment_def res_iff split: if_splits)

lemma rfold_add_segment:
  "rfold add_segment phs sz = Ok sz' \<Longrightarrow>
   sz \<le> sz' \<and> (\<forall>ph \<in> set phs. p_type ph = PT_LOAD \<longrightarrow> p_vaddr ph + p_memsz ph \<le> sz')"
proof (induction phs arbitrary: sz)
  case (Cons ph phs)
  then obtain sz1 where "add_segment ph sz = Ok sz1" "rfold add_segment phs sz1 = Ok sz'" by (auto simp: res_iff)
  with Cons.IH [of sz1] add_segment_mono [of ph sz sz1] add_segment_covers [of ph sz sz1] show ?case by fastforce
qed simp

lemma required_size_covers:
  "required_size phs = Ok sz \<Longrightarrow> ph \<in> set phs \<Longrightarrow> p_type ph = PT_LOAD \<Longrightarrow> p_vaddr ph + p_memsz ph \<le> sz"
  using rfold_add_segment by (auto simp: required_size_def)

text \<open>The bytes a segment stands for: those of the file, then zeros up to its size in memory.\<close>

definition segment_bytes :: "u8 list \<Rightarrow> program_header \<Rightarrow> u8 list" where
  "segment_bytes file ph =
     take (p_memsz ph) (sub_list file (p_offset ph) (p_offset ph + p_filesz ph)) @
     replicate (p_memsz ph - p_filesz ph) 0"

definition in_file :: "u8 list \<Rightarrow> program_header \<Rightarrow> bool" where
  "in_file file ph \<longleftrightarrow> p_offset ph + p_filesz ph \<le> length file"

lemma length_segment_bytes: "in_file file ph \<Longrightarrow> length (segment_bytes file ph) = p_memsz ph"
  by (simp add: segment_bytes_def in_file_def length_sub_list)

lemma write_bytes_append: "write_bytes (write_bytes mem a xs) (a + length xs) ys = write_bytes mem a (xs @ ys)"
  by (auto simp: write_bytes_def fun_eq_iff nth_append)

lemma load_segment_eq:
  assumes "p_type ph = PT_LOAD" "in_file file ph" "length file < usize_bound" "base + p_vaddr ph < usize_bound"
    "0 < base" "p_memsz ph \<le> isize_max"
  shows "load_segment file base ph mem = Ok (write_bytes mem (base + p_vaddr ph) (segment_bytes file ph))"
proof -
  define src where "src = sub_list file (p_offset ph) (p_offset ph + p_filesz ph)"
  have len: "length src = p_filesz ph" and slice: "slice_of file (p_offset ph) (p_offset ph + p_filesz ph) = Ok src"
    and uadds: "uadd (p_offset ph) (p_filesz ph) = Ok (p_offset ph + p_filesz ph)"
      "uadd base (p_vaddr ph) = Ok (base + p_vaddr ph)"
    using assms by (simp_all add: in_file_def length_sub_list src_def)
  note defs = load_segment_def uadds slice segment_bytes_def src_def [symmetric] Let_def len
  show ?thesis
  proof (cases "p_filesz ph < p_memsz ph")
    case True
    then show ?thesis using assms(1,5,6) write_bytes_append [of mem "base + p_vaddr ph" src] len by (simp add: defs)
  next
    case False
    then show ?thesis using assms(1,5,6) by (simp add: defs)
  qed
qed

lemma nth_segment_bytes:
  assumes "in_file file ph" "j < p_memsz ph"
  shows "segment_bytes file ph ! j = (if j < p_filesz ph then file ! (p_offset ph + j) else 0)"
  using assms by (auto simp: segment_bytes_def in_file_def nth_append sub_list_def length_sub_list)

text \<open>Loading all segments.\<close>

definition load_all :: "u8 list \<Rightarrow> addr \<Rightarrow> program_header list \<Rightarrow> (addr \<Rightarrow> u8) \<Rightarrow> addr \<Rightarrow> u8" where
  "load_all file base phs mem =
     fold (\<lambda>ph m. if p_type ph = PT_LOAD then write_bytes m (base + p_vaddr ph) (segment_bytes file ph) else m) phs mem"

definition loadable :: "u8 list \<Rightarrow> addr \<Rightarrow> program_header \<Rightarrow> bool" where
  "loadable file base ph \<longleftrightarrow> (p_type ph = PT_LOAD \<longrightarrow> in_file file ph \<and> base + p_vaddr ph < usize_bound \<and> 0 < base \<and> p_memsz ph \<le> isize_max)"

lemma rfold_load_segment:
  assumes "\<forall>ph \<in> set phs. loadable file base ph" "length file < usize_bound"
  shows "rfold (load_segment file base) phs mem = Ok (load_all file base phs mem)"
  using assms(1)
proof (induction phs arbitrary: mem)
  case (Cons ph phs)
  then show ?case
    using load_segment_eq [OF _ _ assms(2), of ph base mem]
    by (cases "p_type ph = PT_LOAD") (simp_all add: load_all_def loadable_def load_segment_def)
qed (simp add: load_all_def)

fun apart :: "program_header \<Rightarrow> program_header \<Rightarrow> bool" where
  "apart ph q \<longleftrightarrow> p_type ph \<noteq> PT_LOAD \<or> p_type q \<noteq> PT_LOAD \<or>
     p_vaddr ph + p_memsz ph \<le> p_vaddr q \<or> p_vaddr q + p_memsz q \<le> p_vaddr ph"

fun segments_apart :: "program_header list \<Rightarrow> bool" where
  "segments_apart [] \<longleftrightarrow> True"
| "segments_apart (ph # phs) \<longleftrightarrow> (\<forall>q \<in> set phs. apart ph q) \<and> segments_apart phs"

lemma load_all_outside:
  assumes "\<forall>ph \<in> set phs. loadable file base ph"
    and "\<forall>ph \<in> set phs. p_type ph = PT_LOAD \<longrightarrow> x < base + p_vaddr ph \<or> base + p_vaddr ph + p_memsz ph \<le> x"
  shows "load_all file base phs mem x = mem x"
  using assms
proof (induction phs arbitrary: mem)
  case (Cons ph phs)
  then show ?case by (auto simp: load_all_def loadable_def write_bytes_def length_segment_bytes)
qed (simp add: load_all_def)

lemma load_all_inside:
  assumes "\<forall>ph \<in> set phs. loadable file base ph" "segments_apart phs"
    and "ph \<in> set phs" "p_type ph = PT_LOAD" "j < p_memsz ph"
  shows "load_all file base phs mem (base + p_vaddr ph + j) = segment_bytes file ph ! j"
  using assms(1-3)
proof (induction phs arbitrary: mem)
  case (Cons q phs)
  show ?case
  proof (cases "ph \<in> set phs")
    case True
    with Cons show ?thesis by (simp add: load_all_def)
  next
    case False
    with Cons.prems have q: "q = ph" by simp
    have len: "length (segment_bytes file ph) = p_memsz ph"
      using Cons.prems(1) assms(4) by (intro length_segment_bytes) (simp add: q loadable_def)
    let ?m = "write_bytes mem (base + p_vaddr ph) (segment_bytes file ph)"
    have "load_all file base (q # phs) mem (base + p_vaddr ph + j) = load_all file base phs ?m (base + p_vaddr ph + j)"
      using assms(4) by (simp add: load_all_def q)
    also have "\<dots> = ?m (base + p_vaddr ph + j)"
      using Cons.prems(1,2) assms(4,5) by (intro load_all_outside) (auto simp: q)
    also have "\<dots> = segment_bytes file ph ! j" using assms(5) len by (simp add: write_bytes_def)
    finally show ?thesis .
  qed
qed simp

section \<open>Properties\<close>

lemma boot_alloc_pages_user:
  assumes "addresses_ok ops" and "map_to_ok ops tr plain (boot_ready fr) boot_pool"
    and "boot_ready fr (vm_frames s)"
    and "room tr plain (vm_mapper s) (next_virt_user s) n" and "4 * n \<le> length (boot_pool (vm_frames s))"
  obtains s' fs where "alloc_pages_user ops (allocate_frame fr) s n = Ok (s', Some (next_virt_user s))"
    "mapped_run (tr (vm_mapper s)) (tr (vm_mapper s'))
      (map (\<lambda>j. next_virt_user s + j * 4096) [0..<n]) fs {PRESENT, WRITABLE, USER_ACCESSIBLE}"
    "next_virt_user s' = next_virt_user s + n * 4096"
proof -
  have "distinct (boot_pool (vm_frames s))"
    using assms(3) distinct_frame_addresses by (simp add: boot_ready_def boot_pool_def)
  from boot.alloc_pages_user_ok [OF assms(1-3) this assms(4,5)] that show thesis by blast
qed

text \<open>A program file that can be loaded: loadable segments lie in the file and do not overlap.\<close>

definition well_formed :: "u8 list \<Rightarrow> elf \<Rightarrow> bool" where
  "well_formed file e \<longleftrightarrow> length file < usize_bound \<and> segments_apart (program_headers e) \<and>
     (\<forall>ph \<in> set (program_headers e). p_type ph = PT_LOAD \<longrightarrow> in_file file ph)"

text \<open>
  C25. Loading a well-formed program into free address space succeeds: the run of pages mapped for the
  user is large enough for every loadable segment, each segment's bytes are those of the file followed
  by zeros, no byte outside of the segments is written, neither beyond the run nor between them, the entry point is
  relocated to the run, and the address counter moves just past it.
\<close>

theorem process_init_loads:
  fixes s :: "('m, boot_frames) vm"
  assumes "addresses_ok ops" and "map_to_ok ops tr plain (boot_ready fr) boot_pool" and "boot_ready fr (vm_frames s)"
    and "parse (proc_data p) = Some e" and "well_formed (proc_data p) e"
    and "required_size (program_headers e) = Ok sz" and "0 < sz" and "n = max (div_ceil sz 4096) 2"
    and "room tr plain (vm_mapper s) (next_virt_user s) n" and "4 * n \<le> length (boot_pool (vm_frames s))"
    and "elf_entry e + next_virt_user s < usize_bound"
  shows "\<exists>p' s' mem' fs. process_init ops (allocate_frame fr) parse p s mem = Ok (Inr (), p', s', mem') \<and>
    entrypoint p' = Some (elf_entry e + next_virt_user s) \<and> next_virt_user s' = next_virt_user s + n * 4096 \<and>
    mapped_run (tr (vm_mapper s)) (tr (vm_mapper s'))
      (map (\<lambda>j. next_virt_user s + j * 4096) [0..<n]) fs {PRESENT, WRITABLE, USER_ACCESSIBLE} \<and>
    (\<forall>ph \<in> set (program_headers e). p_type ph = PT_LOAD \<longrightarrow> p_vaddr ph + p_memsz ph \<le> n * 4096 \<and>
       (\<forall>j < p_memsz ph. mem' (next_virt_user s + p_vaddr ph + j) =
          (if j < p_filesz ph then proc_data p ! (p_offset ph + j) else 0))) \<and>
    (\<forall>x. (\<forall>ph \<in> set (program_headers e). p_type ph = PT_LOAD \<longrightarrow>
       x < next_virt_user s + p_vaddr ph \<or> next_virt_user s + p_vaddr ph + p_memsz ph \<le> x) \<longrightarrow> mem' x = mem x)"
proof -
  let ?base = "next_virt_user s" and ?phs = "program_headers e" and ?file = "proc_data p"
  obtain s' fs where al: "alloc_pages_user ops (allocate_frame fr) s n = Ok (s', Some ?base)"
    and run: "mapped_run (tr (vm_mapper s)) (tr (vm_mapper s'))
      (map (\<lambda>j. ?base + j * 4096) [0..<n]) fs {PRESENT, WRITABLE, USER_ACCESSIBLE}"
    and nv: "next_virt_user s' = ?base + n * 4096"
    using boot_alloc_pages_user [OF assms(1-3,9,10)] .
  have "sz \<le> div_ceil sz 4096 * 4096" by (rule div_ceil_le_mult) simp
  also have "\<dots> \<le> n * 4096" unfolding assms(8) by (rule mult_le_mono1) simp
  finally have fits: "sz \<le> n * 4096" .
  have cover: "p_vaddr ph + p_memsz ph \<le> n * 4096" if "ph \<in> set ?phs" "p_type ph = PT_LOAD" for ph
    using required_size_covers [OF assms(6) that] fits by simp
  have ok: "\<forall>ph \<in> set ?phs. loadable ?file ?base ph"
  proof
    fix ph assume ph: "ph \<in> set ?phs"
    have "18446603336221196288 \<le> ?base" "?base + n * 4096 < usize_bound" using assms(9) by (simp_all add: room_def)
    then show "loadable ?file ?base ph" using assms(5) cover [OF ph] ph by (auto simp: loadable_def well_formed_def)
  qed
  have fold: "rfold (load_segment ?file ?base) ?phs mem = Ok (load_all ?file ?base ?phs mem)"
    using ok assms(5) by (intro rfold_load_segment) (auto simp: well_formed_def)
  have init: "process_init ops (allocate_frame fr) parse p s mem =
      Ok (Inr (), p\<lparr>entrypoint := Some (elf_entry e + ?base)\<rparr>, s', load_all ?file ?base ?phs mem)"
    using assms(4,6,7,11) al fold by (simp add: process_init_def page_alloc_user_def assms(8))
  have bytes: "load_all ?file ?base ?phs mem (?base + p_vaddr ph + j) =
      (if j < p_filesz ph then ?file ! (p_offset ph + j) else 0)"
    if ph: "ph \<in> set ?phs" "p_type ph = PT_LOAD" and j: "j < p_memsz ph" for ph j
  proof -
    have "segments_apart ?phs" "in_file ?file ph" using assms(5) ph by (auto simp: well_formed_def)
    with load_all_inside [OF ok _ ph j] nth_segment_bytes [OF _ j] show ?thesis by simp
  qed
  note outside = load_all_outside [OF ok]
  show ?thesis
    using init run nv cover bytes outside
    by (intro exI [of _ "p\<lparr>entrypoint := Some (elf_entry e + ?base)\<rparr>"] exI [of _ s']
        exI [of _ "load_all ?file ?base ?phs mem"] exI [of _ fs]) simp
qed

definition demo_elf :: elf where
  "demo_elf = \<lparr>program_headers = [\<lparr>p_type = 6, p_offset = 0, p_vaddr = 64, p_filesz = 8, p_memsz = 8\<rparr>,
      \<lparr>p_type = PT_LOAD, p_offset = 2, p_vaddr = 4096, p_filesz = 3, p_memsz = 5\<rparr>], elf_entry = 4096\<rparr>"

lemma demo_room_user: "room (\<lambda>m. m) (\<lambda>_ _. True) Map.empty 18446744071830503424 2"
  by (simp add: room_def)

theorem process_init_loads_witness:
  "\<exists>p' s' mem'. process_init demo_mapper (allocate_frame Ok) (\<lambda>_. Some demo_elf) (process_new [1, 2, 3, 4, 5])
      demo_vm (\<lambda>_. 9) = Ok (Inr (), p', s', mem') \<and>
    mem' (18446744071830503424 + 4096) = 3 \<and> mem' (18446744071830503424 + 4096 + 4) = 0"
proof -
  let ?p = "process_new [1, 2, 3, 4, 5]"
  have "required_size (program_headers demo_elf) = Ok 4101"
    by (simp add: required_size_def demo_elf_def add_segment_def PT_LOAD_def)
  moreover have "well_formed (proc_data ?p) demo_elf"
    by (simp add: well_formed_def demo_elf_def PT_LOAD_def in_file_def process_new_def)
  ultimately obtain p' s' mem' where
    init: "process_init demo_mapper (allocate_frame Ok) (\<lambda>_. Some demo_elf) ?p demo_vm (\<lambda>_. 9) = Ok (Inr (), p', s', mem')"
    and mem: "\<forall>ph \<in> set (program_headers demo_elf). p_type ph = PT_LOAD \<longrightarrow> p_vaddr ph + p_memsz ph \<le> 2 * 4096 \<and>
       (\<forall>j < p_memsz ph. mem' (next_virt_user demo_vm + p_vaddr ph + j) =
          (if j < p_filesz ph then proc_data ?p ! (p_offset ph + j) else 0))"
    using process_init_loads [OF demo_addresses_ok demo_map_to_ok, of Ok demo_vm "\<lambda>_. Some demo_elf" ?p demo_elf 4101 2 "\<lambda>_. 9"]
      demo_ready demo_room_user demo_pool length_demo_frames by (auto simp: demo_elf_def div_ceil_def)
  let ?ph = "\<lparr>p_type = PT_LOAD, p_offset = 2, p_vaddr = 4096, p_filesz = 3, p_memsz = 5\<rparr>"
  have "?ph \<in> set (program_headers demo_elf)" by (simp add: demo_elf_def)
  with mem have "\<forall>j < 5. mem' (18446744071830503424 + 4096 + j) = (if j < 3 then [1, 2, 3, 4, 5] ! (2 + j) else 0)"
    by (auto simp: process_new_def dest!: bspec [of _ _ ?ph])
  from this [rule_format, of 0] this [rule_format, of 4] init show ?thesis by auto
qed

text \<open>
  Switching to a process that is loaded and has no stack yet allocates the stack pages and jumps to
  the entry point, with the lowest address of the new pages as the stack pointer: the pages that are
  mapped lie at and above it, and everything that the program pushes goes below it.
\<close>

theorem process_switch_stack:
  fixes s :: "('m, boot_frames) vm"
  assumes "addresses_ok ops" and "map_to_ok ops tr plain (boot_ready fr) boot_pool" and "boot_ready fr (vm_frames s)"
    and "entrypoint p = Some entry" and "stack_addr p = None"
    and "room tr plain (vm_mapper s) (next_virt_user s) pages" and "4 * pages \<le> length (boot_pool (vm_frames s))"
  shows "\<exists>s' fs. process_switch ops (allocate_frame fr) parse p pages s mem =
      Ok (Jump entry (next_virt_user s), p\<lparr>stack_addr := Some (next_virt_user s)\<rparr>, s', mem) \<and>
    mapped_run (tr (vm_mapper s)) (tr (vm_mapper s'))
      (map (\<lambda>j. next_virt_user s + j * 4096) [0..<pages]) fs {PRESENT, WRITABLE, USER_ACCESSIBLE} \<and>
    (\<forall>q < next_virt_user s. tr (vm_mapper s') q = tr (vm_mapper s) q)"
proof -
  obtain s' fs where al: "alloc_pages_user ops (allocate_frame fr) s pages = Ok (s', Some (next_virt_user s))"
    and run: "mapped_run (tr (vm_mapper s)) (tr (vm_mapper s'))
      (map (\<lambda>j. next_virt_user s + j * 4096) [0..<pages]) fs {PRESENT, WRITABLE, USER_ACCESSIBLE}"
    using boot_alloc_pages_user [OF assms(1-3,6,7)] .
  have "process_switch ops (allocate_frame fr) parse p pages s mem =
      Ok (Jump entry (next_virt_user s), p\<lparr>stack_addr := Some (next_virt_user s)\<rparr>, s', mem)"
    using al assms(4,5) by (simp add: process_switch_def alloc_stack_def)
  moreover have "\<forall>q < next_virt_user s. tr (vm_mapper s') q = tr (vm_mapper s) q"
  proof (intro allI impI)
    fix q assume "q < next_virt_user s"
    then have "q \<notin> set (map (\<lambda>j. next_virt_user s + j * 4096) [0..<pages])" by auto
    with run show "tr (vm_mapper s') q = tr (vm_mapper s) q" by (simp add: mapped_run_def)
  qed
  ultimately show ?thesis using run by blast
qed

theorem process_switch_stack_witness:
  "\<exists>s'. process_switch demo_mapper (allocate_frame Ok) (\<lambda>_. None)
      \<lparr>pid = None, stack_addr = None, proc_data = [], entrypoint = Some 4096\<rparr> 2 demo_vm (\<lambda>_. 0) =
    Ok (Jump 4096 18446744071830503424,
      \<lparr>pid = None, stack_addr = Some 18446744071830503424, proc_data = [], entrypoint = Some 4096\<rparr>, s', \<lambda>_. 0)"
  using process_switch_stack [OF demo_addresses_ok demo_map_to_ok, of Ok demo_vm
      "\<lparr>pid = None, stack_addr = None, proc_data = [], entrypoint = Some 4096\<rparr>" 4096 2 "\<lambda>_. None" "\<lambda>_. 0"]
    demo_ready demo_room_user demo_pool length_demo_frames by auto

end
