(* ===== verification/Syscall.thy ===== *)
theory Syscall
  imports Interrupts Rust_Str Bump
begin

text \<open>
  System calls (\<open>kernel/src/syscall.rs\<close>): the stub behind interrupt 0x80, the dispatch of the calls and what
  each of them does to the console and to memory.

  The state is the console, the kernel's heap, memory (a partial map: an address that is not mapped faults), the
  source of \<open>rdrand\<close> and the number of times the tick counter was loaded. A call that never returns is \<open>None\<close>.
  \<open>loc n\<close> is the text of the place of a macro on line \<open>n\<close> of the file.

  The calls use the pointers of the program without a check, and the kernel's own objects (its stack and the frame
  of the interrupt on it, its heap, its statics and the screen) lie in the same address space. \<open>env_kernel\<close> is the set
  of their addresses. The memory of the state describes the rest: a call whose buffer reaches into kernel memory
  reads what the call itself is changing, or overwrites it, and the model stops there with \<open>Undefined\<close>.
\<close>

definition MAX_PRINT :: usize where
  "MAX_PRINT = 4096"

type_synonym mem = "addr \<rightharpoonup> u8"

record 'r sys =
  sys_con :: console
  sys_heap :: bump
  sys_mem :: mem
  sys_rng :: 'r
  sys_loads :: nat

text \<open>The environment of the kernel: font, places of macros, \<open>rdrand\<close>, the loads of the tick counter and the kernel's memory.\<close>

record 'r sys_env =
  env_font :: "u8 list"
  env_loc :: "nat \<Rightarrow> ustr"
  env_rdrand :: "'r \<Rightarrow> u64 option \<times> 'r"
  env_ticks :: "nat \<Rightarrow> nat"
  env_kernel :: "addr \<Rightarrow> bool"

definition in_kernel :: "'r sys_env \<Rightarrow> addr \<Rightarrow> usize \<Rightarrow> bool" where
  "in_kernel E p n = list_ex (\<lambda>i. env_kernel E (p + i)) [0..<n]"

section \<open>Slices of raw memory\<close>

definition from_raw_parts :: "addr \<Rightarrow> usize \<Rightarrow> unit res" where
  "from_raw_parts p n = (if p = 0 \<or> n > isize_max then Panic UbCheck else Ok ())"

primrec load_bytes :: "mem \<Rightarrow> addr \<Rightarrow> usize \<Rightarrow> u8 list res" where
  "load_bytes mem p 0 = Ok []"
| "load_bytes mem p (Suc n) =
     (case mem p of
        None \<Rightarrow> Panic (PageFault p)
      | Some b \<Rightarrow> rbind (load_bytes mem (Suc p) n) (\<lambda>bs. Ok (b # bs)))"

primrec store_bytes :: "mem \<Rightarrow> addr \<Rightarrow> u8 list \<Rightarrow> mem res" where
  "store_bytes mem p [] = Ok mem"
| "store_bytes mem p (b # bs) =
     (case mem p of
        None \<Rightarrow> Panic (PageFault p)
      | Some _ \<Rightarrow> store_bytes (mem(p \<mapsto> b)) (Suc p) bs)"

section \<open>The calls\<close>

definition usize_max :: usize where
  "usize_max = usize_bound - 1"

definition on_con :: "(console \<Rightarrow> console res) \<Rightarrow> 'r sys \<Rightarrow> 'r sys res" where
  "on_con f s = rbind (f (sys_con s)) (\<lambda>c. Ok (s\<lparr>sys_con := c\<rparr>))"

definition sys_read :: "usize \<Rightarrow> usize \<Rightarrow> 'r sys \<Rightarrow> (usize \<times> 'r sys) res" where
  "sys_read rdi rsi s = rbind (from_raw_parts rdi rsi) (\<lambda>_. Ok (0, s))"

definition sys_write :: "'r sys_env \<Rightarrow> usize \<Rightarrow> usize \<Rightarrow> usize \<Rightarrow> 'r sys \<Rightarrow> (usize \<times> 'r sys) res" where
  "sys_write E rdi rsi rdx s =
     (let D = env_font E; loc = env_loc E
      in if rdx = 0 \<or> rdx > MAX_PRINT \<or> rsi = 0
      then rbind (on_con (error D (loc 44) [lit ''(SYSCALL) Bad print args! (Length '', decimal rdx, lit '' at '',
                 hex_alternate rsi, lit '')'']) s) (\<lambda>s'. Ok (usize_max, s'))
      else rbind (from_raw_parts rsi rdx) (\<lambda>_.
        if in_kernel E rsi rdx then Panic Undefined else
        rbind (load_bytes (sys_mem s) rsi rdx) (\<lambda>bytes.
          case from_utf8 bytes of
            Some str \<Rightarrow>
              (let text = [utf8_chars str]; done = (\<lambda>f. rbind (on_con f s) (\<lambda>s'. Ok (rdx, s')))
               in if rdi = 1 then done (print D text)
                  else if rdi = 2 then done (info D text)
                  else if rdi = 3 then done (warning D (loc 53) text)
                  else if rdi = 4 then done (error D (loc 54) text)
                  else if rdi = 5 then done (nftodo D (loc 55) text)
                  else Ok (usize_max, s))
          | None \<Rightarrow>
              rbind (on_con (warning D (loc 59) [lit ''Seemingly garbage data at '', hex_alternate rsi, lit ''. Size: '',
                       decimal rdx, lit '' bytes'']) s) (\<lambda>s'. Ok (rdx, s')))))"

text \<open>The message of the panic is the text at the pointer; the model does not keep it.\<close>

definition sys_panic :: "usize \<Rightarrow> usize \<Rightarrow> 'r sys \<Rightarrow> (usize \<times> 'r sys) res" where
  "sys_panic rdi rsi s = rbind (from_raw_parts rdi rsi) (\<lambda>_. Panic (ExplicitPanic ''system call 2''))"

definition sys_sleep :: "'r sys_env \<Rightarrow> usize \<Rightarrow> 'r sys \<Rightarrow> (usize \<times> 'r sys) res option" where
  "sys_sleep E rdi s =
     (case sleep_ms (env_ticks E) rdi (sys_loads s) of
        Panic e \<Rightarrow> Some (Panic e)
      | Ok None \<Rightarrow> None
      | Ok (Some k) \<Rightarrow> Some (Ok (0, s\<lparr>sys_loads := k\<rparr>)))"

primrec sys_random :: "'r sys_env \<Rightarrow> nat \<Rightarrow> 'r sys \<Rightarrow> usize \<times> 'r sys" where
  "sys_random E 0 s = (usize_max, s)"
| "sys_random E (Suc n) s =
     (case env_rdrand E (sys_rng s) of
        (None, g) \<Rightarrow> sys_random E n (s\<lparr>sys_rng := g\<rparr>)
      | (Some v, g) \<Rightarrow> (unat v, s\<lparr>sys_rng := g\<rparr>))"

text \<open>
  \<open>format!\<close> of a number writes its digits at once into an empty \<open>String\<close>, which allocates room for them and for at
  least eight bytes; the string is dropped when the call returns.
\<close>

definition string_layout :: "usize \<Rightarrow> layout" where
  "string_layout n = \<lparr>l_size = max 8 n, l_align = 1\<rparr>"

definition format_string :: "usize \<Rightarrow> bump \<Rightarrow> (bump \<times> addr) res" where
  "format_string n h =
     rbind (bump_alloc h (string_layout n)) (\<lambda>(h', p). if p = 0 then Panic alloc_failed else Ok (h', p))"

definition sys_inttostr :: "'r sys_env \<Rightarrow> usize \<Rightarrow> usize \<Rightarrow> usize \<Rightarrow> 'r sys \<Rightarrow> (usize \<times> 'r sys) res" where
  "sys_inttostr E rdi rsi rdx s =
     (let istr = map of_nat (decimal rdx); to_write = min (length istr) rsi
      in rbind (format_string (length istr) (sys_heap s)) (\<lambda>(heap, p).
         let drop_string = bump_dealloc heap p (string_layout (length istr))
         in if to_write = 0 then rbind drop_string (\<lambda>heap. Ok (usize_max, s\<lparr>sys_heap := heap\<rparr>))
         else rbind (from_raw_parts rdi to_write) (\<lambda>_.
           rbind (slice_of istr 0 to_write) (\<lambda>src.
           if in_kernel E rdi to_write then Panic Undefined else
           rbind (store_bytes (sys_mem s) rdi src) (\<lambda>mem.
           rbind drop_string (\<lambda>heap. Ok (to_write, s\<lparr>sys_heap := heap, sys_mem := mem\<rparr>)))))))"

definition sys_emoticon :: "usize \<Rightarrow> 'r sys \<Rightarrow> (usize \<times> 'r sys) res" where
  "sys_emoticon rdi s =
     (if rdi = 1 then rbind (on_con yay_macro s) (\<lambda>s'. Ok (0, s'))
      else if rdi = 2 then rbind (on_con sad_macro s) (\<lambda>s'. Ok (0, s'))
      else Ok (usize_max, s))"

definition syscall_handler ::
  "'r sys_env \<Rightarrow> usize \<Rightarrow> usize \<Rightarrow> usize \<Rightarrow> usize \<Rightarrow> usize \<Rightarrow> usize \<Rightarrow> usize \<Rightarrow> 'r sys \<Rightarrow> (usize \<times> 'r sys) res option" where
  "syscall_handler E rax rdi rsi rdx r10 r8 r9 s =
     (if rax = 0 then Some (sys_read rdi rsi s)
      else if rax = 1 then Some (sys_write E rdi rsi rdx s)
      else if rax = 2 then Some (sys_panic rdi rsi s)
      else if rax = 3 then sys_sleep E rdi s
      else if rax = 4 then Some (Ok (sys_random E 25 s))
      else if rax = 5 then Some (sys_inttostr E rdi rsi rdx s)
      else if rax = 6 then Some (sys_emoticon rdi s)
      else if rax = 7 then
        Some (rbind (on_con (nftodo (env_font E) (env_loc E 113) [lit ''(SYSCALL) Syscall 7 (listdir)'']) s) (\<lambda>s'. Ok (0, s')))
      else if rax = 8 then
        Some (rbind (on_con (nftodo (env_font E) (env_loc E 118) [lit ''(SYSCALL) Syscall 8 (filesize)'']) s) (\<lambda>s'. Ok (0, s')))
      else
        Some (rbind (on_con (error (env_font E) (env_loc E 123)
            [lit ''(SYSCALL) Invalid syscall number '', decimal rax, lit ''!'']) s) (\<lambda>s'. Ok (usize_max, s'))))"

section \<open>The stub\<close>

text \<open>
  \<open>int80_entry\<close> pushes the registers, passes the stack pointer as a pointer to \<open>Regs\<close> and removes what it
  pushed; the stack is the list of its 64-bit cells, the top first, and a field of \<open>Regs\<close> is the cell at its
  offset. The stack is kernel memory, which no call of the model changes through a pointer of the program.
\<close>

record regs =
  reg_rax :: u64
  reg_rdi :: u64
  reg_rsi :: u64
  reg_rdx :: u64
  reg_r10 :: u64
  reg_r8 :: u64
  reg_r9 :: u64

definition regs_at :: "u64 list \<Rightarrow> regs" where
  "regs_at st = \<lparr>reg_rax = st ! 0, reg_rdi = st ! 1, reg_rsi = st ! 2, reg_rdx = st ! 3, reg_r10 = st ! 4, reg_r8 = st ! 5, reg_r9 = st ! 6\<rparr>"

definition syscall_from_stub :: "'r sys_env \<Rightarrow> u64 list \<Rightarrow> 'r sys \<Rightarrow> (usize \<times> 'r sys) res option" where
  "syscall_from_stub E st s =
     (let r = regs_at st
      in syscall_handler E (unat (reg_rax r)) (unat (reg_rdi r)) (unat (reg_rsi r)) (unat (reg_rdx r)) (unat (reg_r10 r)) (unat (reg_r8 r)) (unat (reg_r9 r)) s)"

definition int80_entry ::
  "'r sys_env \<Rightarrow> regs \<Rightarrow> u64 list \<Rightarrow> 'r sys \<Rightarrow> (u64 \<times> u64 list \<times> 'r sys) res option" where
  "int80_entry E u frame s =
     (let st = fold (\<lambda>r st. r # st) [reg_r9 u, reg_r8 u, reg_r10 u, reg_rdx u, reg_rsi u, reg_rdi u, reg_rax u] frame
      in case syscall_from_stub E st s of
           None \<Rightarrow> None
         | Some (Panic e) \<Rightarrow> Some (Panic e)
         | Some (Ok (ret, s')) \<Rightarrow> Some (Ok (of_nat ret, drop 7 st, s')))"

lemma int80_entry_registers:
  "int80_entry E u frame s =
     (case syscall_handler E (unat (reg_rax u)) (unat (reg_rdi u)) (unat (reg_rsi u)) (unat (reg_rdx u)) (unat (reg_r10 u)) (unat (reg_r8 u))
         (unat (reg_r9 u)) s of
        None \<Rightarrow> None
      | Some (Panic e) \<Rightarrow> Some (Panic e)
      | Some (Ok (ret, s')) \<Rightarrow> Some (Ok (of_nat ret, frame, s')))"
  by (simp add: int80_entry_def syscall_from_stub_def regs_at_def Let_def split: option.splits res.splits)

section \<open>Memory\<close>

definition mapped :: "mem \<Rightarrow> addr \<Rightarrow> usize \<Rightarrow> bool" where
  "mapped mem p n \<longleftrightarrow> (\<forall>i < n. p + i \<in> dom mem)"

lemma mapped_Suc: "mapped mem p (Suc n) \<longleftrightarrow> (\<exists>b. mem p = Some b) \<and> mapped mem (Suc p) n"
proof -
  have "(\<forall>i < Suc n. p + i \<in> dom mem) \<longleftrightarrow> p \<in> dom mem \<and> (\<forall>i < n. Suc p + i \<in> dom mem)"
    by (auto simp: less_Suc_eq_0_disj)
  then show ?thesis unfolding mapped_def by blast
qed

lemma load_bytes_ok: "mapped mem p n \<Longrightarrow> \<exists>bs. load_bytes mem p n = Ok bs \<and> length bs = n \<and> (\<forall>i < n. mem (p + i) = Some (bs ! i))"
proof (induction n arbitrary: p)
  case (Suc n)
  then obtain b where "mem p = Some b" "mapped mem (Suc p) n" by (auto simp: mapped_Suc)
  moreover from Suc.IH [OF this(2)] obtain bs where "load_bytes mem (Suc p) n = Ok bs" "length bs = n"
    "\<forall>i < n. mem (Suc p + i) = Some (bs ! i)" by blast
  ultimately have "load_bytes mem p (Suc n) = Ok (b # bs)" "length (b # bs) = Suc n"
    "\<forall>i < Suc n. mem (p + i) = Some ((b # bs) ! i)" by (auto simp: less_Suc_eq_0_disj)
  then show ?case by blast
qed simp

lemma store_bytes_ok:
  "mapped mem p (length bs) \<Longrightarrow>
     store_bytes mem p bs = Ok (\<lambda>a. if p \<le> a \<and> a < p + length bs then Some (bs ! (a - p)) else mem a)"
proof (induction bs arbitrary: p mem)
  case (Cons b bs)
  then have "mapped (mem(p \<mapsto> b)) (Suc p) (length bs)" by (auto simp: mapped_Suc mapped_def dom_def)
  note IH = Cons.IH [OF this]
  have "store_bytes mem p (b # bs) = store_bytes (mem(p \<mapsto> b)) (Suc p) bs"
    using Cons.prems by (auto simp: mapped_Suc)
  also note IH
  also have "(\<lambda>a. if Suc p \<le> a \<and> a < Suc p + length bs then Some (bs ! (a - Suc p)) else (mem(p \<mapsto> b)) a) =
      (\<lambda>a. if p \<le> a \<and> a < p + length (b # bs) then Some ((b # bs) ! (a - p)) else mem a)"
    by (auto simp: fun_eq_iff nth_Cons')
  finally show ?case .
qed (auto simp: fun_eq_iff)

lemma store_bytes_outside:
  "store_bytes mem p bs = Ok mem' \<Longrightarrow> a < p \<or> p + length bs \<le> a \<Longrightarrow> mem' a = mem a"
  by (induction bs arbitrary: p mem) (auto split: option.splits)

section \<open>No call changes kernel memory through a pointer\<close>

lemma on_con_mem: "on_con f s = Ok s' \<Longrightarrow> sys_mem s' = sys_mem s"
  by (auto simp: on_con_def res_iff)

lemma sys_write_mem: "sys_write E rdi rsi rdx s = Ok (r, s') \<Longrightarrow> sys_mem s' = sys_mem s"
  by (auto simp: sys_write_def Let_def res_iff on_con_mem split: if_splits option.splits)

lemma sys_inttostr_mem:
  assumes "sys_inttostr E rdi rsi rdx s = Ok (r, s')" "env_kernel E a"
  shows "sys_mem s' a = sys_mem s a"
proof (cases "min (length (decimal rdx)) rsi = 0")
  case True
  with assms(1) show ?thesis by (auto simp: sys_inttostr_def Let_def res_iff split: prod.splits)
next
  case False
  let ?src = "take (min (length (decimal rdx)) rsi) (map of_nat (decimal rdx)) :: u8 list"
  from False assms(1) obtain mem heap where ok: "\<not> in_kernel E rdi (min (length (decimal rdx)) rsi)"
    "store_bytes (sys_mem s) rdi ?src = Ok mem" "s' = s\<lparr>sys_heap := heap, sys_mem := mem\<rparr>"
    by (auto simp: sys_inttostr_def Let_def res_iff sub_list_def split: prod.splits if_splits)
  define src where "src = ?src"
  have src: "length src = min (length (decimal rdx)) rsi" by (simp add: src_def)
  have "a < rdi \<or> rdi + length src \<le> a"
  proof (rule ccontr)
    assume "\<not> (a < rdi \<or> rdi + length src \<le> a)"
    then have "a - rdi < min (length (decimal rdx)) rsi" "rdi + (a - rdi) = a" using src by linarith+
    then show False using ok(1) assms(2) unfolding in_kernel_def list_ex_iff by (metis atLeastLessThan_iff set_upt zero_le)
  qed
  with store_bytes_outside [OF ok(2) [folded src_def]] ok(3) show ?thesis by simp
qed

lemma sys_random_mem: "sys_random E n s = (v, s') \<Longrightarrow> sys_mem s' = sys_mem s"
  by (induction n arbitrary: s) (auto split: prod.splits option.splits)

lemma syscall_keeps_kernel:
  assumes "syscall_handler E rax rdi rsi rdx r10 r8 r9 s = Some (Ok (r, s'))" "env_kernel E a"
  shows "sys_mem s' a = sys_mem s a"
  using assms(1) sys_inttostr_mem [OF _ assms(2)]
  unfolding syscall_handler_def
  by (auto simp: sys_read_def sys_panic_def sys_emoticon_def sys_sleep_def res_iff on_con_mem sys_write_mem sys_random_mem
      split: if_splits res.splits option.splits)

section \<open>Every call that is meant to return does\<close>

text \<open>
  The buffers a program passes: mapped, not null and outside of the kernel's memory where the call uses them; and
  room on the heap for the digits of \<open>inttostr\<close>.
\<close>

definition heap_room :: "bump \<Rightarrow> usize \<Rightarrow> bool" where
  "heap_room h n \<longleftrightarrow> 0 < bump_next h \<and> bump_next h + max 8 n \<le> heap_end h \<and> heap_end h \<le> isize_max \<and> allocations h < isize_max"

definition buffers_ok :: "'r sys_env \<Rightarrow> 'r sys \<Rightarrow> usize \<Rightarrow> usize \<Rightarrow> usize \<Rightarrow> usize \<Rightarrow> bool" where
  "buffers_ok E s rax rdi rsi rdx \<longleftrightarrow>
     (rax = 0 \<longrightarrow> rdi \<noteq> 0 \<and> rsi \<le> isize_max) \<and>
     (rax = 1 \<longrightarrow> rdx \<le> MAX_PRINT \<longrightarrow> mapped (sys_mem s) rsi rdx \<and> \<not> in_kernel E rsi rdx) \<and>
     (rax = 5 \<longrightarrow> heap_room (sys_heap s) (length (decimal rdx)) \<and>
        (let n = min (length (decimal rdx)) rsi in rdi \<noteq> 0 \<and> mapped (sys_mem s) rdi n \<and> \<not> in_kernel E rdi n))"

text \<open>The heap after a string of \<open>n\<close> bytes was made and dropped: memory comes back only when nothing else is allocated.\<close>

definition after_string :: "usize \<Rightarrow> bump \<Rightarrow> bump" where
  "after_string n h = h\<lparr>bump_next := (if allocations h = 0 then heap_start h else bump_next h + max 8 n)\<rparr>"

lemma string_dropped:
  assumes "heap_room h n"
  shows "\<exists>h'. format_string n h = Ok (h', bump_next h) \<and> bump_dealloc h' (bump_next h) (string_layout n) = Ok (after_string n h)"
proof -
  have h: "0 < bump_next h" "bump_next h + max 8 n \<le> heap_end h" "heap_end h \<le> isize_max" "allocations h < isize_max"
    using assms by (simp_all add: heap_room_def)
  have "pow2 1" by (auto simp: pow2_def intro: exI [of _ 0])
  then have "align_up (bump_next h) 1 = Ok (bump_next h)" using h by (intro align_up_id) simp_all
  with h show ?thesis
    by (simp add: format_string_def bump_alloc_def string_layout_def checked_add_def uadd_def bump_dealloc_def usub_def after_string_def Let_def)
qed

text \<open>The values returned in \<open>rax\<close>, with the console left out; \<open>None\<close> for the random number.\<close>

definition syscall_ret :: "mem \<Rightarrow> usize \<Rightarrow> usize \<Rightarrow> usize \<Rightarrow> usize \<Rightarrow> usize option" where
  "syscall_ret mem rax rdi rsi rdx =
     (if rax = 1 then
        Some (if rdx = 0 \<or> rdx > MAX_PRINT \<or> rsi = 0 \<or>
                rdi \<notin> {1..5} \<and> utf8_valid (map (\<lambda>i. the (mem (rsi + i))) [0..<rdx])
              then usize_max else rdx)
      else if rax = 4 then None
      else if rax = 5 then Some (if rsi = 0 then usize_max else min (length (decimal rdx)) rsi)
      else if rax = 6 then Some (if rdi \<in> {1, 2} then 0 else usize_max)
      else if rax \<in> {0, 7, 8} then Some 0 else Some usize_max)"

lemma on_con_ok:
  assumes "\<exists>c. f (sys_con s) = Ok c \<and> console_ok c"
  shows "\<exists>s'. on_con f s = Ok s' \<and> console_ok (sys_con s') \<and> sys_mem s' = sys_mem s \<and> sys_heap s' = sys_heap s"
  using assms by (auto simp: on_con_def)

lemma on_con_out_ok:
  assumes "length D \<le> isize_max" "console_ok (sys_con s)"
  shows "\<exists>s'. on_con (print D text) s = Ok s' \<and> console_ok (sys_con s') \<and> sys_mem s' = sys_mem s \<and> sys_heap s' = sys_heap s"
    "\<exists>s'. on_con (info D text) s = Ok s' \<and> console_ok (sys_con s') \<and> sys_mem s' = sys_mem s \<and> sys_heap s' = sys_heap s"
    "\<exists>s'. on_con (warning D loc text) s = Ok s' \<and> console_ok (sys_con s') \<and> sys_mem s' = sys_mem s \<and> sys_heap s' = sys_heap s"
    "\<exists>s'. on_con (error D loc text) s = Ok s' \<and> console_ok (sys_con s') \<and> sys_mem s' = sys_mem s \<and> sys_heap s' = sys_heap s"
    "\<exists>s'. on_con (nftodo D loc text) s = Ok s' \<and> console_ok (sys_con s') \<and> sys_mem s' = sys_mem s \<and> sys_heap s' = sys_heap s"
    "\<exists>s'. on_con yay_macro s = Ok s' \<and> console_ok (sys_con s') \<and> sys_mem s' = sys_mem s \<and> sys_heap s' = sys_heap s"
    "\<exists>s'. on_con sad_macro s = Ok s' \<and> console_ok (sys_con s') \<and> sys_mem s' = sys_mem s \<and> sys_heap s' = sys_heap s"
  by (rule on_con_ok, rule print_ok log_ok macro_ok, (rule assms)+)+

text \<open>Returning a value after the output.\<close>

lemma rbind_ret_ok:
  "\<exists>s'. m = Ok s' \<and> P s' \<Longrightarrow> \<exists>s'. rbind m (\<lambda>s'. Ok (r, s')) = Ok (r, s') \<and> P s'"
  by auto

lemma sys_random_ok: "\<exists>v s'. sys_random E n s = (v, s') \<and> sys_con s' = sys_con s \<and> sys_mem s' = sys_mem s \<and> sys_heap s' = sys_heap s \<and> v < usize_bound"
proof (induction n arbitrary: s)
  case 0
  then show ?case by (simp add: usize_max_def)
next
  case (Suc n)
  show ?case
  proof (cases "env_rdrand E (sys_rng s)")
    case (Pair r g)
    with Suc.IH [of "s\<lparr>sys_rng := g\<rparr>"] show ?thesis
      using unsigned_less [where 'a = nat and 'b = 64] by (cases r) auto
  qed
qed

lemma sys_write_ok:
  assumes "length (env_font E) \<le> isize_max" "console_ok (sys_con s)" "rdx \<le> MAX_PRINT \<longrightarrow> mapped (sys_mem s) rsi rdx \<and> \<not> in_kernel E rsi rdx"
  shows "\<exists>s'. sys_write E rdi rsi rdx s = Ok (the (syscall_ret (sys_mem s) 1 rdi rsi rdx), s') \<and>
    console_ok (sys_con s') \<and> sys_mem s' = sys_mem s \<and> sys_heap s' = sys_heap s"
proof (cases "rdx = 0 \<or> rdx > MAX_PRINT \<or> rsi = 0")
  case True
  then have "the (syscall_ret (sys_mem s) 1 rdi rsi rdx) = usize_max" by (auto simp: syscall_ret_def)
  with True show ?thesis
    by (simp add: sys_write_def rbind_ret_ok [OF on_con_out_ok(4)] assms(1,2))
next
  case False
  with assms(3) obtain bs where bs: "load_bytes (sys_mem s) rsi rdx = Ok bs" "length bs = rdx"
    "\<forall>i < rdx. sys_mem s (rsi + i) = Some (bs ! i)" using load_bytes_ok by (metis not_less)
  then have eq: "map (\<lambda>i. the (sys_mem s (rsi + i))) [0..<rdx] = bs" by (auto intro: nth_equalityI)
  have raw: "from_raw_parts rsi rdx = Ok ()" "\<not> in_kernel E rsi rdx" using False assms(3) by (auto simp: from_raw_parts_def MAX_PRINT_def)
  have "rdi \<in> {1..5} \<longleftrightarrow> rdi = 1 \<or> rdi = 2 \<or> rdi = 3 \<or> rdi = 4 \<or> rdi = 5" by auto
  then show ?thesis using False bs(1) raw
    by (simp add: sys_write_def Let_def syscall_ret_def eq from_utf8_def assms(1,2) rbind_ret_ok [OF on_con_out_ok(1)]
      rbind_ret_ok [OF on_con_out_ok(2)] rbind_ret_ok [OF on_con_out_ok(3)] rbind_ret_ok [OF on_con_out_ok(4)]
      rbind_ret_ok [OF on_con_out_ok(5)])
qed

lemma sys_inttostr_ok:
  assumes "rsi \<noteq> 0" "rdi \<noteq> 0" "rdx < usize_bound" "mapped (sys_mem s) rdi (min (length (decimal rdx)) rsi)"
    "\<not> in_kernel E rdi (min (length (decimal rdx)) rsi)" "heap_room (sys_heap s) (length (decimal rdx))"
  shows "sys_inttostr E rdi rsi rdx s =
    (let n = min (length (decimal rdx)) rsi
     in Ok (n, s\<lparr>sys_heap := after_string (length (decimal rdx)) (sys_heap s), sys_mem := \<lambda>a. if rdi \<le> a \<and> a < rdi + n then Some (of_nat (decimal rdx ! (a - rdi))) else sys_mem s a\<rparr>))"
proof -
  let ?n = "min (length (decimal rdx)) rsi" and ?d = "map of_nat (decimal rdx) :: u8 list"
  have "length (decimal rdx) \<le> 20" using assms(3) length_decimal [of rdx 19] by simp
  moreover have "0 < ?n" using assms(1) by simp
  ultimately have raw: "from_raw_parts rdi ?n = Ok ()" "?n \<noteq> 0" using assms(2) by (simp_all add: from_raw_parts_def)
  have n: "length (take ?n ?d) = ?n" by simp
  have "store_bytes (sys_mem s) rdi (take ?n ?d) =
      Ok (\<lambda>a. if rdi \<le> a \<and> a < rdi + ?n then Some (take ?n ?d ! (a - rdi)) else sys_mem s a)"
    using store_bytes_ok [of "sys_mem s" rdi "take ?n ?d", unfolded n, OF assms(4)] .
  also have "(\<lambda>a. if rdi \<le> a \<and> a < rdi + ?n then Some (take ?n ?d ! (a - rdi)) else sys_mem s a) =
      (\<lambda>a. if rdi \<le> a \<and> a < rdi + ?n then Some (of_nat (decimal rdx ! (a - rdi))) else sys_mem s a)"
  proof -
    have "take ?n ?d ! (a - rdi) = of_nat (decimal rdx ! (a - rdi))" if "rdi \<le> a" "a < rdi + ?n" for a
    proof -
      have "a - rdi < ?n" using that by linarith
      then show ?thesis by simp
    qed
    then show ?thesis by (auto simp: fun_eq_iff)
  qed
  finally have store: "store_bytes (sys_mem s) rdi (take ?n ?d) = Ok (\<lambda>a. if rdi \<le> a \<and> a < rdi + ?n
      then Some (of_nat (decimal rdx ! (a - rdi))) else sys_mem s a)" .
  have "slice_of ?d 0 ?n = Ok (take ?n ?d)" by (simp add: sub_list_def)
  moreover obtain h where h: "format_string (length (decimal rdx)) (sys_heap s) = Ok (h, bump_next (sys_heap s))"
    "bump_dealloc h (bump_next (sys_heap s)) (string_layout (length (decimal rdx))) = Ok (after_string (length (decimal rdx)) (sys_heap s))"
    using string_dropped [OF assms(6)] by blast
  moreover define n where "n = ?n"
  ultimately show ?thesis using raw store assms(5) unfolding sys_inttostr_def Let_def length_map h(1) n_def [symmetric]
    by (simp add: h(2))
qed

text \<open>
  C28. Every system call other than the panic and the sleep, whatever its number and its arguments, returns with the
  value the code gives it (0 for \<open>read\<close>, which reads nothing, and for the two stubs), keeps the console well formed
  and changes no byte of memory outside the buffer of \<open>inttostr\<close>. This holds under three conditions on the call that
  the kernel does not check: its buffer is mapped where the call uses it, lies outside of the kernel's own memory (its
  stack, heap, statics and screen), and there is room on the kernel's heap for the digits of \<open>inttostr\<close>. That room
  does not come back: unless nothing else is allocated, each \<open>inttostr\<close> leaves the heap at least eight bytes smaller.
\<close>

theorem syscall_returns:
  assumes "length (env_font E) \<le> isize_max" "console_ok (sys_con s)" "rdx < usize_bound"
    and "buffers_ok E s rax rdi rsi rdx" and "rax \<noteq> 2" "rax \<noteq> 3"
  shows "\<exists>ret s'. syscall_handler E rax rdi rsi rdx r10 r8 r9 s = Some (Ok (ret, s')) \<and> ret < usize_bound \<and>
    (\<forall>v. syscall_ret (sys_mem s) rax rdi rsi rdx = Some v \<longrightarrow> ret = v) \<and> console_ok (sys_con s') \<and>
    (\<forall>a. sys_mem s' a \<noteq> sys_mem s a \<longrightarrow> rax = 5 \<and> rdi \<le> a \<and> a < rdi + ret) \<and>
    sys_heap s' = (if rax = 5 then after_string (length (decimal rdx)) (sys_heap s) else sys_heap s)"
proof -
  have known: "\<exists>ret s'. syscall_handler E rax rdi rsi rdx r10 r8 r9 s = Some (Ok (ret, s')) \<and> ret < usize_bound \<and>
    (\<forall>v. syscall_ret (sys_mem s) rax rdi rsi rdx = Some v \<longrightarrow> ret = v) \<and> console_ok (sys_con s') \<and>
    (\<forall>a. sys_mem s' a \<noteq> sys_mem s a \<longrightarrow> rax = 5 \<and> rdi \<le> a \<and> a < rdi + ret) \<and>
    sys_heap s' = (if rax = 5 then after_string (length (decimal rdx)) (sys_heap s) else sys_heap s)"
    if "syscall_handler E rax rdi rsi rdx r10 r8 r9 s = Some m"
      "\<exists>s'. m = Ok (v, s') \<and> console_ok (sys_con s') \<and> sys_mem s' = sys_mem s \<and> sys_heap s' = sys_heap s"
      "syscall_ret (sys_mem s) rax rdi rsi rdx = Some v" "v < usize_bound" "rax \<noteq> 5" for m v
    using that by auto
  note max = usize_max_def
  consider "rax = 0" | "rax = 1" | "rax = 4" | "rax = 5" "rsi = 0" | "rax = 5" "rsi \<noteq> 0" | "rax = 6" | "rax = 7" | "rax = 8" | "rax > 8"
    using assms(5,6) by fastforce
  then show ?thesis
  proof cases
    case 1
    with assms(2,4) show ?thesis
      by (simp add: syscall_handler_def sys_read_def from_raw_parts_def buffers_ok_def syscall_ret_def)
  next
    case 2
    then have eq: "syscall_handler E rax rdi rsi rdx r10 r8 r9 s = Some (sys_write E rdi rsi rdx s)"
      by (simp add: syscall_handler_def)
    have m: "rdx \<le> MAX_PRINT \<longrightarrow> mapped (sys_mem s) rsi rdx \<and> \<not> in_kernel E rsi rdx" using assms(4) 2 by (simp add: buffers_ok_def)
    show ?thesis
      by (rule known [OF eq sys_write_ok [OF assms(1,2) m]]) (use assms(3) 2 in \<open>simp_all add: syscall_ret_def max\<close>)
  next
    case 3
    with sys_random_ok [of E 25 s] assms(2) show ?thesis by (auto simp: syscall_handler_def syscall_ret_def)
  next
    case 4
    then have "heap_room (sys_heap s) (length (decimal rdx))" using assms(4) by (simp add: buffers_ok_def)
    from string_dropped [OF this] 4 assms(2) show ?thesis
      by (auto simp: syscall_handler_def sys_inttostr_def syscall_ret_def Let_def max)
  next
    case 5
    then have eq: "syscall_handler E rax rdi rsi rdx r10 r8 r9 s = Some (sys_inttostr E rdi rsi rdx s)"
      by (simp add: syscall_handler_def)
    have "length (decimal rdx) \<le> 20" using assms(3) length_decimal [of rdx 19] by simp
    moreover have ok: "rdi \<noteq> 0" "mapped (sys_mem s) rdi (min (length (decimal rdx)) rsi)"
      "\<not> in_kernel E rdi (min (length (decimal rdx)) rsi)" "heap_room (sys_heap s) (length (decimal rdx))"
      using assms(4) 5 by (simp_all add: buffers_ok_def Let_def)
    ultimately show ?thesis unfolding eq sys_inttostr_ok [OF 5(2) ok(1) assms(3) ok(2-4)]
      using 5 assms(2) by (auto simp: syscall_ret_def Let_def)
  next
    case 6
    then show ?thesis
    proof (cases "rdi \<in> {1, 2}")
      case True
      with 6 show ?thesis
        by (intro known) (auto simp: syscall_handler_def sys_emoticon_def syscall_ret_def
          intro!: rbind_ret_ok [OF on_con_out_ok(6) [OF assms(1,2)]] rbind_ret_ok [OF on_con_out_ok(7) [OF assms(1,2)]])
    next
      case False
      with 6 assms(2) show ?thesis by (simp add: syscall_handler_def sys_emoticon_def syscall_ret_def max)
    qed
  next
    case 7
    then show ?thesis by (intro known [OF _ rbind_ret_ok [OF on_con_out_ok(5) [OF assms(1,2)]]])
      (auto simp: syscall_handler_def syscall_ret_def)
  next
    case 8
    then show ?thesis by (intro known [OF _ rbind_ret_ok [OF on_con_out_ok(5) [OF assms(1,2)]]])
      (auto simp: syscall_handler_def syscall_ret_def)
  next
    case 9
    then show ?thesis by (intro known [OF _ rbind_ret_ok [OF on_con_out_ok(4) [OF assms(1,2)]]])
      (auto simp: syscall_handler_def syscall_ret_def max)
  qed
qed

definition quiet_env :: "unit sys_env" where
  "quiet_env = \<lparr>env_font = demo_font, env_loc = \<lambda>_. [], env_rdrand = \<lambda>g. (None, g), env_ticks = \<lambda>_. 0,
     env_kernel = \<lambda>a. 8192 \<le> a\<rparr>"

definition demo_sys :: "unit sys" where
  "demo_sys = \<lparr>sys_con = \<lparr>con_tty = Some demo_tty, con_serial = []\<rparr>,
     sys_heap = kernel_bump, sys_mem = \<lambda>a. if 4096 \<le> a \<and> a < 8192 then Some 65 else None, sys_rng = (), sys_loads = 0\<rparr>"

lemma demo_sys_ok: "length (env_font quiet_env) \<le> isize_max" "console_ok (sys_con demo_sys)"
  by (simp_all add: quiet_env_def demo_font_def demo_sys_def console_ok_def demo_tty_ok)

lemma demo_buffer: "p + n \<le> 8192 \<Longrightarrow> \<not> in_kernel quiet_env p n"
  by (auto simp: in_kernel_def list_ex_iff quiet_env_def)

lemma demo_heap_room: "n \<le> 20 \<Longrightarrow> heap_room (sys_heap demo_sys) n"
  by (simp add: heap_room_def demo_sys_def HEAP_START_def HEAP_SIZE_def)

theorem syscall_returns_witness:
  "\<exists>ret s'. syscall_handler quiet_env 1 1 4096 3 0 0 0 demo_sys = Some (Ok (ret, s')) \<and> ret = 3 \<and> console_ok (sys_con s')"
proof -
  have "buffers_ok quiet_env demo_sys 1 1 4096 3"
    using demo_buffer [of 4096 3] by (auto simp: buffers_ok_def mapped_def demo_sys_def MAX_PRINT_def dom_def)
  moreover have "syscall_ret (sys_mem demo_sys) 1 1 4096 3 = Some 3"
    by (simp add: syscall_ret_def MAX_PRINT_def)
  ultimately show ?thesis
    using syscall_returns [OF demo_sys_ok, of 3 1 1 4096 0 0 0] by auto
qed

text \<open>
  C29. The numbers that \<open>inttostr\<close> writes read back: through the stub, with the number in \<open>rdx\<close>, a buffer of at least
  20 bytes outside of the kernel's memory and room on the heap, the call leaves the stack as it found it and returns how many bytes it wrote, and those
  bytes are the decimal digits of the number.
\<close>

theorem inttostr_round_trip:
  assumes "reg_rax u = 5" "reg_rdi u \<noteq> 0" "20 \<le> reg_rsi u" "mapped (sys_mem s) (unat (reg_rdi u)) 20"
    and "\<not> in_kernel E (unat (reg_rdi u)) 20" "heap_room (sys_heap s) 20"
  shows "\<exists>n s' bs. int80_entry E u frame s = Some (Ok (n, frame, s')) \<and>
    load_bytes (sys_mem s') (unat (reg_rdi u)) (unat n) = Ok bs \<and>
    undecimal (map unat bs) = unat (reg_rdx u) \<and> (\<forall>b \<in> set bs. is_ascii_digit b)"
proof -
  let ?p = "unat (reg_rdi u)" and ?ds = "decimal (unat (reg_rdx u))"
  let ?n = "length ?ds" and ?bs = "map of_nat ?ds :: u8 list"
  let ?s = "s\<lparr>sys_heap := after_string ?n (sys_heap s), sys_mem := \<lambda>a. if ?p \<le> a \<and> a < ?p + ?n then Some (of_nat (?ds ! (a - ?p))) else sys_mem s a\<rparr>"
  have x: "unat (reg_rdx u) < usize_bound" using unsigned_less [of "reg_rdx u", where 'a = nat] by simp
  then have n: "?n \<le> 20" using length_decimal [of _ 19] by simp
  have rsi: "20 \<le> unat (reg_rsi u)" using assms(3) by (simp add: word_le_nat_alt)
  with n have min: "min ?n (unat (reg_rsi u)) = ?n" by simp
  have p: "?p \<noteq> 0" using assms(2) by (simp add: unat_eq_zero)
  have "mapped (sys_mem s) ?p ?n" using assms(4) n by (simp add: mapped_def)
  moreover have "\<not> in_kernel E ?p ?n" "heap_room (sys_heap s) ?n" using assms(5,6) n by (auto simp: in_kernel_def list_ex_iff heap_room_def)
  ultimately have "sys_inttostr E ?p (unat (reg_rsi u)) (unat (reg_rdx u)) s = Ok (?n, ?s)"
    using sys_inttostr_ok [of "unat (reg_rsi u)" ?p "unat (reg_rdx u)" s E, unfolded min Let_def, OF _ p x] rsi by fastforce
  then have call: "int80_entry E u frame s = Some (Ok (of_nat ?n, frame, ?s))"
    using assms(1) by (simp add: int80_entry_registers syscall_handler_def)
  have un: "unat (of_nat ?n :: u64) = ?n" using n by (simp add: unat_of_nat)
  have "mapped (sys_mem ?s) ?p ?n" by (auto simp: mapped_def)
  then obtain bs where bs: "load_bytes (sys_mem ?s) ?p ?n = Ok bs" "length bs = ?n" "\<forall>i < ?n. sys_mem ?s (?p + i) = Some (bs ! i)"
    using load_bytes_ok by blast
  then have "bs = ?bs" by (auto intro: nth_equalityI)
  moreover have "unat (of_nat d :: u8) = d \<and> is_ascii_digit (of_nat d)" if "d \<in> set ?ds" for d
    using decimal_digits [OF that] by (simp add: is_ascii_digit_def word_le_nat_alt unat_of_nat)
  then have "map unat ?bs = ?ds" "\<forall>b \<in> set ?bs. is_ascii_digit b" by (auto simp: map_idI)
  ultimately show ?thesis using call bs(1) un by (intro exI conjI) (assumption | simp)+
qed

theorem inttostr_round_trip_witness:
  "\<exists>n s' bs. int80_entry quiet_env \<lparr>reg_rax = 5, reg_rdi = 4096, reg_rsi = 64, reg_rdx = 18446744073709551615,
       reg_r10 = 0, reg_r8 = 0, reg_r9 = 0\<rparr> [1, 2, 3] demo_sys = Some (Ok (n, [1, 2, 3], s')) \<and>
     load_bytes (sys_mem s') 4096 (unat n) = Ok bs \<and> undecimal (map unat bs) = 18446744073709551615"
proof -
  have "mapped (sys_mem demo_sys) 4096 20" by (auto simp: mapped_def demo_sys_def dom_def)
  with demo_buffer [of 4096 20] demo_heap_room [of 20] inttostr_round_trip [of "\<lparr>reg_rax = 5, reg_rdi = 4096, reg_rsi = 64, reg_rdx = 18446744073709551615,
       reg_r10 = 0, reg_r8 = 0, reg_r9 = 0\<rparr>" demo_sys quiet_env "[1, 2, 3]"]
  show ?thesis by fastforce
qed

end
