(* ===== verification/Commandline.thy ===== *)
theory Commandline
  imports Console Rust_Str Machine Ustar Keyboard_Input
begin

text \<open>
  The kernel shell (\<open>kernel/src/commandline.rs\<close>): the registry of commands, every command, the dispatch of a
  line and the loop that edits the line key by key.

  The state holds the statics the commands use: the console, the archive \<open>FS\<close> (its bytes), the geometry of
  \<open>FRAMEBUFFER\<close>, \<open>COMMAND_REGISTRY\<close> and the machine. Texts are lists of characters. Of the standard library the
  lower-case mapping of characters beyond ASCII is the argument \<open>sh_lower\<close> (Unicode data), and what printing
  does with bytes that are not UTF-8, which \<open>from_utf8_unchecked\<close> leaves undefined, is the argument
  \<open>sh_unchecked\<close>. \<open>loc n\<close> is the text of the place of a macro on line \<open>n\<close>.

  The heap is not part of the state: the growth of the line, the vectors of words and arguments, the copy of a
  file and the texts of \<open>help\<close>, \<open>ls\<close> and \<open>shutdown\<close> are allocated on the kernel's heap, which other tasks use too.
  Whether one of the allocations fails that are made while the scancode number \<open>n\<close> is handled (0 for the building
  of the registry) is the argument \<open>sh_oom\<close>; the loop then ends in the panic of the standard library for a failed
  allocation.
\<close>

section \<open>State\<close>

datatype cmd_func = LicenseF | CreditsF | SmileyF | SadF | ClearF | WhoamiF | HelpF | ShutdownF | PanicF | ResF | LsF | CatF

record command =
  c_name :: ustr
  c_aliases :: "ustr list"
  c_help :: ustr
  c_func :: cmd_func

type_synonym registry = "command list"

record 'hw shell =
  sh_con :: console
  sh_fs :: "u8 list option"
  sh_fb :: "(usize \<times> usize) option"
  sh_registry :: "registry option"
  sh_hw :: 'hw

record 'hw shell_env =
  sh_font :: "u8 list"
  sh_loc :: "nat \<Rightarrow> ustr"
  sh_lower :: "nat \<Rightarrow> nat list"
  sh_unchecked :: "u8 list \<Rightarrow> nat list"
  sh_oom :: "nat \<Rightarrow> bool"
  sh_machine :: "'hw machine"

definition sh_print :: "'hw shell_env \<Rightarrow> ustr list \<Rightarrow> 'hw shell \<Rightarrow> 'hw shell res" where
  "sh_print E text s = rbind (print (sh_font E) text (sh_con s)) (\<lambda>c. Ok (s\<lparr>sh_con := c\<rparr>))"

definition sh_println :: "'hw shell_env \<Rightarrow> ustr list \<Rightarrow> 'hw shell \<Rightarrow> 'hw shell res" where
  "sh_println E text s = rbind (println (sh_font E) text (sh_con s)) (\<lambda>c. Ok (s\<lparr>sh_con := c\<rparr>))"

definition sh_error :: "'hw shell_env \<Rightarrow> nat \<Rightarrow> ustr list \<Rightarrow> 'hw shell \<Rightarrow> 'hw shell res" where
  "sh_error E line text s = rbind (error (sh_font E) (sh_loc E line) text (sh_con s)) (\<lambda>c. Ok (s\<lparr>sh_con := c\<rparr>))"

definition sh_con_op :: "(console \<Rightarrow> console res) \<Rightarrow> 'hw shell \<Rightarrow> 'hw shell res" where
  "sh_con_op f s = rbind (f (sh_con s)) (\<lambda>c. Ok (s\<lparr>sh_con := c\<rparr>))"

definition ret :: "int \<Rightarrow> 'hw shell res \<Rightarrow> (int \<times> 'hw shell) res" where
  "ret i m = rbind m (\<lambda>s. Ok (i, s))"

text \<open>Lines of a literal that are separated by a newline.\<close>

fun text_lines :: "string list \<Rightarrow> ustr" where
  "text_lines [] = []"
| "text_lines [l] = lit l"
| "text_lines (l # ls) = lit l @ 10 # text_lines ls"

section \<open>The registry\<close>

definition command_new :: "string \<Rightarrow> string list \<Rightarrow> string \<Rightarrow> cmd_func \<Rightarrow> command" where
  "command_new name aliases help f = \<lparr>c_name = lit name, c_aliases = map lit aliases, c_help = lit help, c_func = f\<rparr>"

definition registry_new :: registry where
  "registry_new = []"

definition registry_push :: "registry \<Rightarrow> command \<Rightarrow> registry" where
  "registry_push reg c = reg @ [c]"

definition registry_pop :: "registry \<Rightarrow> registry \<times> command option" where
  "registry_pop reg = (if reg = [] then (reg, None) else (butlast reg, Some (last reg)))"

definition get_help :: "registry \<Rightarrow> ustr" where
  "get_help reg = (lit ''=| Help |==============='' @ [10]) @
     concat (map (\<lambda>c. c_name c @ lit '' | '' @ c_help c @ [10]) reg)"

definition search :: "registry \<Rightarrow> ustr \<Rightarrow> command option" where
  "search reg name = find (\<lambda>c. c_name c = name \<or> name \<in> set (c_aliases c)) reg"

section \<open>Commands\<close>

definition shutdown_usage :: ustr where
  "shutdown_usage = text_lines [''Usage:'', ''  shutdown <vm_type>'', ''  poweroff <vm_type>'', ''Examples:'', ''  shutdown qemu'',
     ''  shutdown bochs'', ''  poweroff vbox'', ''  poweroff old_qemu'', ''Note: old_qemu is the same as bochs.'']"

definition to_lowercase :: "(nat \<Rightarrow> nat list) \<Rightarrow> ustr \<Rightarrow> ustr" where
  "to_lowercase lower s = concat (map (\<lambda>c. if c < 128 then [if 65 \<le> c \<and> c \<le> 90 then c + 32 else c] else lower c) s)"

definition cmd_license :: "'hw shell_env \<Rightarrow> 'hw shell \<Rightarrow> (int \<times> 'hw shell) res" where
  "cmd_license E s = ret 0 (sh_println E [text_lines [''Lemoncake is licensed under the 2-Clause (simplified) BSD License'',
     ''(c) SniverDaBest 2025'', '''', ''Spleen (the font used) is also licensed under the 2-Clause (simplified) BSD License.'']] s)"

definition cmd_credits :: "'hw shell_env \<Rightarrow> 'hw shell \<Rightarrow> (int \<times> 'hw shell) res" where
  "cmd_credits E s = ret 0 (sh_println E [text_lines [''Lemoncake is developed by SniverDaBest, and uses some external crates/libraries, most of which are developed by the Rust OSDev community.'',
     ''It uses some code from Ruddle/Fomos on GitHub for the APIC and IOAPIC.'',
     ''The font used be default is called \"Spleen\", and can be found at fcambus/spleen on GitHub.'']] s)"

definition cmd_smiley :: "'hw shell_env \<Rightarrow> 'hw shell \<Rightarrow> (int \<times> 'hw shell) res" where
  "cmd_smiley E s = ret 0 (rbind (sh_con_op yay_macro s) (sh_print E [[10]]))"

definition cmd_sad :: "'hw shell_env \<Rightarrow> 'hw shell \<Rightarrow> (int \<times> 'hw shell) res" where
  "cmd_sad E s = ret 0 (rbind (sh_con_op sad_macro s) (sh_print E [[10]]))"

definition cmd_clear :: "'hw shell \<Rightarrow> (int \<times> 'hw shell) res" where
  "cmd_clear s = ret 0 (sh_con_op clear_macro s)"

definition cmd_whoami :: "'hw shell_env \<Rightarrow> 'hw shell \<Rightarrow> (int \<times> 'hw shell) res" where
  "cmd_whoami E s = ret 0 (sh_println E [lit (''You're the user... why would you need to ask who you are? I feel like you should be able to figure that out by yourself. '' @
     ''If you can't, then go see a doctor, or maybe go to the ER.'')] s)"

definition print_help :: "'hw shell_env \<Rightarrow> registry \<Rightarrow> 'hw shell \<Rightarrow> 'hw shell res" where
  "print_help E reg s = sh_println E [get_help reg] s"

definition cmd_help :: "'hw shell_env \<Rightarrow> registry \<Rightarrow> 'hw shell \<Rightarrow> (int \<times> 'hw shell) res" where
  "cmd_help E reg s = ret 0 (print_help E reg s)"

definition out32 :: "'hw shell_env \<Rightarrow> u16 \<Rightarrow> u32 \<Rightarrow> 'hw shell \<Rightarrow> 'hw shell res" where
  "out32 E p v s = Ok (s\<lparr>sh_hw := port_out (sh_machine E) (sh_hw s) p v\<rparr>)"

definition cmd_shutdown :: "'hw shell_env \<Rightarrow> ustr list \<Rightarrow> 'hw shell \<Rightarrow> (int \<times> 'hw shell) res" where
  "cmd_shutdown E args s =
     (if length args \<noteq> 1 then ret 1 (sh_println E [shutdown_usage] s)
      else let t = to_lowercase (sh_lower E) (args ! 0)
           in ret 0
             (if t = lit ''qemu'' then out32 E 0x604 0x2000 s
              else if t = lit ''bochs'' \<or> t = lit ''old_qemu'' then out32 E 0xB004 0x2000 s
              else if t = lit ''vbox'' \<or> t = lit ''virtualbox'' then out32 E 0x4004 0x3400 s
              else sh_println E [lit ''Type \"'', t, lit ''\" is invalid!'' @ 10 # shutdown_usage] s))"

definition cmd_panic :: "(int \<times> 'hw shell) res" where
  "cmd_panic = Panic (ExplicitPanic ''Panic initiated from command line.'')"

definition cmd_res :: "'hw shell_env \<Rightarrow> 'hw shell \<Rightarrow> (int \<times> 'hw shell) res" where
  "cmd_res E s =
     (case sh_fb s of
        Some (w, h) \<Rightarrow> ret 0 (sh_println E [lit ''Current resolution: '', decimal w, lit ''x'', decimal h] s)
      | None \<Rightarrow> ret 1 (sh_println E [lit ''Unable to get the framebuffer!''] s))"

text \<open>A name in an archive is valid UTF-8, since the iterator checked it. The listing stops after 1001 files.\<close>

definition cmd_ls :: "'hw shell_env \<Rightarrow> 'hw shell \<Rightarrow> (int \<times> 'hw shell) res" where
  "cmd_ls E s =
     (case sh_fs s of
        None \<Rightarrow> ret 1 (sh_println E [lit ''Filesystem is not initialized!''] s)
      | Some data \<Rightarrow>
          rbind (ustar_files data) (\<lambda>fs.
            let files = take 1001 fs
            in ret 0 (rbind (sh_println E [lit ''Found '', decimal (length files), lit '' files''] s)
                 (rfold (\<lambda>f. sh_println E [utf8_chars (uf_name f), lit '': '', decimal (uf_size f), lit '' bytes'']) files))))"

definition cmd_cat :: "'hw shell_env \<Rightarrow> ustr list \<Rightarrow> 'hw shell \<Rightarrow> (int \<times> 'hw shell) res" where
  "cmd_cat E args s =
     (if length args \<noteq> 1 then ret 1 (sh_println E [lit ''Usage: cat <filename>''] s)
      else case sh_fs s of
        None \<Rightarrow> ret 1 (sh_println E [lit ''Filesystem is not initialized!''] s)
      | Some data \<Rightarrow>
          rbind (read_file data (as_bytes (args ! 0))) (\<lambda>content.
            case content of
              Some f \<Rightarrow>
                (let bytes = ustar_read_all f
                 in ret 0 (sh_println E [if utf8_valid bytes then utf8_chars bytes else sh_unchecked E bytes] s))
            | None \<Rightarrow> ret 1 (sh_println E [lit ''Couldn't read file '', args ! 0, lit ''!''] s)))"

definition run_func :: "'hw shell_env \<Rightarrow> registry \<Rightarrow> cmd_func \<Rightarrow> ustr list \<Rightarrow> 'hw shell \<Rightarrow> (int \<times> 'hw shell) res" where
  "run_func E reg f args s =
     (case f of
        LicenseF \<Rightarrow> cmd_license E s | CreditsF \<Rightarrow> cmd_credits E s | SmileyF \<Rightarrow> cmd_smiley E s | SadF \<Rightarrow> cmd_sad E s
      | ClearF \<Rightarrow> cmd_clear s | WhoamiF \<Rightarrow> cmd_whoami E s | HelpF \<Rightarrow> cmd_help E reg s
      | ShutdownF \<Rightarrow> cmd_shutdown E args s | PanicF \<Rightarrow> cmd_panic | ResF \<Rightarrow> cmd_res E s | LsF \<Rightarrow> cmd_ls E s
      | CatF \<Rightarrow> cmd_cat E args s)"

definition exec_command :: "'hw shell_env \<Rightarrow> registry \<Rightarrow> ustr list \<Rightarrow> 'hw shell \<Rightarrow> (int option \<times> 'hw shell) res" where
  "exec_command E reg input s =
     (case input of
        [] \<Rightarrow> Ok (None, s)
      | name # args \<Rightarrow>
          (case search reg name of
             None \<Rightarrow> Ok (None, s)
           | Some c \<Rightarrow> rbind (run_func E reg (c_func c) args s) (\<lambda>(i, s'). Ok (Some i, s'))))"

definition init_command_registry :: registry where
  "init_command_registry =
     (let license_cmd = command_new ''license'' [''lic'', ''l''] ''Displays the Lemoncake license and copyright information.'' LicenseF;
          credits_cmd = command_new ''credits'' [''cred'', ''c''] ''Displays credits to the contributer(s) of Lemoncake.'' CreditsF;
          smiley_cmd = command_new ''smiley'' [''yay'', '':D'', '':)''] ''Prints a smiley face :)'' SmileyF;
          sad_cmd = command_new ''sad'' [''nay'', ''D:'', '':(''] ''Prints a sad face :('' SadF;
          clear_cmd = command_new ''clear'' [''claer'', ''clera'', ''cear''] ''Clears the TTY.'' ClearF;
          whoami_cmd = command_new ''whoami'' [] ''Tells you who you are.'' WhoamiF;
          panic_cmd = command_new ''panic'' [] ''Panics the system.'' PanicF;
          shutdown_cmd = command_new ''shutdown'' [''poweroff''] ''Powers off the VM. (does not work on real hw!)'' ShutdownF;
          help_cmd = command_new ''help'' [''hlep'', ''h'', ''?''] ''Displays this message.'' HelpF;
          res_cmd = command_new ''res'' [''resolution''] ''Displays the current resolution.'' ResF;
          ls_cmd = command_new ''ls'' [''listdir''] ''Lists all files in filesystem.'' LsF;
          cat_cmd = command_new ''cat'' [''readfile''] ''Reads data from a file.'' CatF
      in foldl registry_push registry_new
           [license_cmd, credits_cmd, smiley_cmd, sad_cmd, clear_cmd, whoami_cmd, panic_cmd, shutdown_cmd,
            res_cmd, ls_cmd, cat_cmd, help_cmd])"

section \<open>Lines\<close>

text \<open>\<open>char::is_whitespace\<close>, \<open>str::trim\<close> and \<open>str::split(' ')\<close>.\<close>

definition is_whitespace :: "nat \<Rightarrow> bool" where
  "is_whitespace c \<longleftrightarrow> 9 \<le> c \<and> c \<le> 13 \<or> c = 32 \<or> c = 0x85 \<or> c = 0xA0 \<or> c = 0x1680 \<or> 0x2000 \<le> c \<and> c \<le> 0x200A \<or>
     c \<in> {0x2028, 0x2029, 0x202F, 0x205F, 0x3000}"

definition trim :: "ustr \<Rightarrow> ustr" where
  "trim s = rev (dropWhile is_whitespace (rev (dropWhile is_whitespace s)))"

fun split_at :: "nat \<Rightarrow> ustr \<Rightarrow> ustr list" where
  "split_at sep [] = [[]]"
| "split_at sep (c # cs) =
     (if c = sep then [] # split_at sep cs
      else case split_at sep cs of w # ws \<Rightarrow> (c # w) # ws | [] \<Rightarrow> [[c]])"

text \<open>The registry is looked at twice; nothing removes it in between, so the last branch of the source is not reached.\<close>

definition process_command :: "'hw shell_env \<Rightarrow> ustr \<Rightarrow> int \<Rightarrow> 'hw shell \<Rightarrow> (int \<times> 'hw shell) res" where
  "process_command E buf prev_ret_code s =
     (if take 1 (trim buf) = lit ''#'' \<or> trim buf = [] then Ok (prev_ret_code, s)
      else case sh_registry s of
        None \<Rightarrow> ret (- 2) (sh_error E 365 [lit ''(CMDLINE) Command registry is uninitialized!''] s)
      | Some reg \<Rightarrow>
          (let data = split_at 32 (trim buf); cmd_name = (case data of [] \<Rightarrow> [] | w # _ \<Rightarrow> w)
           in rbind (exec_command E reg data s) (\<lambda>(x, s').
                case x of
                  Some i \<Rightarrow> Ok (i, s')
                | None \<Rightarrow> ret (- 1) (sh_println E [lit ''Command '' @ [39], cmd_name, [39] @ lit '' not found.''] s'))))"

section \<open>The loop\<close>

record 'hw cli =
  input_buffer :: ustr
  prev_ret :: int
  cl_shell :: "'hw shell"

definition prompt :: "'hw shell_env \<Rightarrow> int \<Rightarrow> 'hw shell \<Rightarrow> 'hw shell res" where
  "prompt E code s = sh_print E [lit ''['', decimal_int code, lit ''] > ''] s"


text \<open>What a character does when memory lasts.\<close>

definition on_char :: "'hw shell_env \<Rightarrow> nat \<Rightarrow> 'hw cli \<Rightarrow> 'hw cli res" where
  "on_char E c st =
     (if c = 8 then
        rbind (sh_print E [[8]] (cl_shell st)) (\<lambda>s. Ok (st\<lparr>input_buffer := butlast (input_buffer st), cl_shell := s\<rparr>))
      else if c = 10 then
        rbind (sh_print E [[10]] (cl_shell st)) (\<lambda>s1.
        rbind (process_command E (input_buffer st) (prev_ret st) s1) (\<lambda>(code, s2).
        rbind (prompt E code s2) (\<lambda>s3. Ok \<lparr>input_buffer = [], prev_ret = code, cl_shell = s3\<rparr>)))
      else
        rbind (sh_print E [[c]] (cl_shell st)) (\<lambda>s. Ok (st\<lparr>input_buffer := input_buffer st @ [c], cl_shell := s\<rparr>)))"





section \<open>The shell goes on\<close>

definition shell_ok :: "'hw shell \<Rightarrow> bool" where
  "shell_ok s \<longleftrightarrow> console_ok (sh_con s) \<and> (\<forall>data. sh_fs s = Some data \<longrightarrow> length data \<le> isize_max)"

lemma shell_out_ok:
  assumes "length (sh_font E) \<le> isize_max" "shell_ok s"
  shows "\<exists>s'. sh_print E text s = Ok s' \<and> shell_ok s'" "\<exists>s'. sh_println E text s = Ok s' \<and> shell_ok s'"
    "\<exists>s'. sh_error E n text s = Ok s' \<and> shell_ok s'"
    "\<exists>s'. sh_con_op (warning (sh_font E) loc text) s = Ok s' \<and> shell_ok s'"
proof -
  have c: "console_ok (sh_con s)" using assms(2) by (simp add: shell_ok_def)
  show "\<exists>s'. sh_print E text s = Ok s' \<and> shell_ok s'"
    using print_ok [OF assms(1) c, of "text"] assms(2) by (auto simp: sh_print_def shell_ok_def)
  show "\<exists>s'. sh_println E text s = Ok s' \<and> shell_ok s'"
    using print_ok [OF assms(1) c, of "text @ [[10]]"] assms(2) by (auto simp: sh_println_def println_def shell_ok_def)
  show "\<exists>s'. sh_error E n text s = Ok s' \<and> shell_ok s'"
    using log_ok(3) [OF assms(1) c, of "sh_loc E n" "text"] assms(2) by (auto simp: sh_error_def shell_ok_def)
  show "\<exists>s'. sh_con_op (warning (sh_font E) loc text) s = Ok s' \<and> shell_ok s'"
    using log_ok(2) [OF assms(1) c, of loc "text"] assms(2) by (auto simp: sh_con_op_def shell_ok_def)
qed


lemma ret_ok: "\<exists>s'. m = Ok s' \<and> shell_ok s' \<Longrightarrow> \<exists>s'. ret i m = Ok (i, s') \<and> shell_ok s'"
  by (auto simp: ret_def)








definition cli_ok :: "'hw cli \<Rightarrow> bool" where
  "cli_ok st \<longleftrightarrow> shell_ok (cl_shell st) \<and> (\<forall>c \<in> set (input_buffer st). scalar_value c)"











definition demo_env :: "nat list shell_env" where
  "demo_env = \<lparr>sh_font = demo_font, sh_loc = \<lambda>_. [], sh_lower = \<lambda>c. [c], sh_unchecked = \<lambda>_. [], sh_oom = \<lambda>_. False,
     sh_machine = inert_machine\<lparr>port_out := \<lambda>hw p v. unat p # hw\<rparr>\<rparr>"

definition demo_shell :: "nat list shell" where
  "demo_shell = \<lparr>sh_con = \<lparr>con_tty = Some demo_tty, con_serial = []\<rparr>, sh_fs = None, sh_fb = Some (3, 2),
     sh_registry = None, sh_hw = []\<rparr>"

lemma demo_shell_ok: "length (sh_font demo_env) \<le> isize_max" "shell_ok demo_shell"
  by (simp_all add: demo_env_def demo_font_def demo_shell_def shell_ok_def console_ok_def demo_tty_ok)


section \<open>Typing a command\<close>

definition words_line :: "ustr list \<Rightarrow> ustr" where
  "words_line ws = concat (map (\<lambda>w. w @ [32]) (butlast ws)) @ last ws"

definition word_ok :: "ustr \<Rightarrow> bool" where
  "word_ok w \<longleftrightarrow> w \<noteq> [] \<and> list_all (\<lambda>c. \<not> is_whitespace c \<and> c \<noteq> 8) w"

text \<open>No name or alias is shadowed by an earlier command, and each can be typed.\<close>

definition names_ok :: "registry \<Rightarrow> bool" where
  "names_ok reg \<longleftrightarrow> list_all (\<lambda>c. list_all (\<lambda>n. search reg n = Some c \<and> word_ok n \<and> take 1 n \<noteq> lit ''#'') (c_name c # c_aliases c)) reg"

lemma lit_eq_iff: "lit a = lit b \<longleftrightarrow> a = b"
proof -
  have "inj (map (of_char :: char \<Rightarrow> nat))" by (intro injI) (auto simp: list_eq_iff_nth_eq)
  then show ?thesis unfolding lit_def by (auto dest: injD)
qed

lemma word_ok_lit: "word_ok (lit n) \<longleftrightarrow> n \<noteq> [] \<and> list_all (\<lambda>c. \<not> is_whitespace (of_char c) \<and> of_char c \<noteq> (8 :: nat)) n"
  by (simp add: word_ok_def lit_def list_all_iff)

lemma init_registry_eq: "init_command_registry =
    [command_new ''license'' [''lic'', ''l''] ''Displays the Lemoncake license and copyright information.'' LicenseF,
     command_new ''credits'' [''cred'', ''c''] ''Displays credits to the contributer(s) of Lemoncake.'' CreditsF,
     command_new ''smiley'' [''yay'', '':D'', '':)''] ''Prints a smiley face :)'' SmileyF,
     command_new ''sad'' [''nay'', ''D:'', '':(''] ''Prints a sad face :('' SadF,
     command_new ''clear'' [''claer'', ''clera'', ''cear''] ''Clears the TTY.'' ClearF,
     command_new ''whoami'' [] ''Tells you who you are.'' WhoamiF,
     command_new ''panic'' [] ''Panics the system.'' PanicF,
     command_new ''shutdown'' [''poweroff''] ''Powers off the VM. (does not work on real hw!)'' ShutdownF,
     command_new ''res'' [''resolution''] ''Displays the current resolution.'' ResF,
     command_new ''ls'' [''listdir''] ''Lists all files in filesystem.'' LsF,
     command_new ''cat'' [''readfile''] ''Reads data from a file.'' CatF,
     command_new ''help'' [''hlep'', ''h'', ''?''] ''Displays this message.'' HelpF]"
  by (simp add: init_command_registry_def registry_push_def registry_new_def)

lemma command_new_sel: "c_name (command_new n as h f) = lit n" "c_aliases (command_new n as h f) = map lit as"
  by (simp_all add: command_new_def)

lemma take_lit: "take k (lit n) = lit (take k n)"
  by (simp add: lit_def take_map)

lemma init_registry_names: "names_ok init_command_registry"
  unfolding names_ok_def init_registry_eq
  by (simp add: search_def command_new_sel lit_eq_iff word_ok_lit is_whitespace_def take_lit)

lemma split_at_word: "sep \<notin> set w \<Longrightarrow> split_at sep (w @ sep # s) = w # split_at sep s" "sep \<notin> set w \<Longrightarrow> split_at sep w = [w]"
  by (induction w) auto

lemma words_line_Cons: "ws \<noteq> [] \<Longrightarrow> words_line (w # ws) = w @ 32 # words_line ws"
  by (simp add: words_line_def)

lemma split_words_line: "ws \<noteq> [] \<Longrightarrow> \<forall>w \<in> set ws. word_ok w \<Longrightarrow> split_at 32 (words_line ws) = ws"
proof (induction ws)
  case (Cons w ws)
  have "32 \<notin> set w" using Cons.prems(2) by (auto simp: word_ok_def list_all_iff is_whitespace_def)
  with Cons show ?case by (cases "ws = []") (simp_all add: words_line_Cons split_at_word words_line_def)
qed simp

lemma trim_words_line:
  assumes "ws \<noteq> []" "\<forall>w \<in> set ws. word_ok w"
  shows "trim (words_line ws) = words_line ws"
proof -
  have "word_ok (hd ws)" "word_ok (last ws)" using assms by simp_all
  then have h: "hd ws \<noteq> []" "\<not> is_whitespace (hd (hd ws))" and l: "last ws \<noteq> []" "\<not> is_whitespace (last (last ws))"
    by (auto simp: word_ok_def list_all_iff)
  have "hd (words_line ws) = hd (hd ws)" "words_line ws \<noteq> []"
    using assms(1) h(1) l(1) by (cases ws; cases "tl ws"; simp add: words_line_def)+
  moreover have "last (words_line ws) = last (last ws)" using l(1) by (simp add: words_line_def)
  ultimately have "dropWhile is_whitespace (words_line ws) = words_line ws"
    "dropWhile is_whitespace (rev (words_line ws)) = rev (words_line ws)"
    using h(2) l(2) by (simp_all add: dropWhile_eq_self_iff hd_rev)
  then show ?thesis by (simp add: trim_def)
qed

lemma set_words_line: "ws \<noteq> [] \<Longrightarrow> x \<in> set (words_line ws) \<Longrightarrow> x = 32 \<or> (\<exists>w \<in> set ws. x \<in> set w)"
proof (induction ws)
  case (Cons w ws)
  then show ?case
    by (cases "ws = []") (auto simp: words_line_Cons, simp add: words_line_def)
qed simp

lemma take_words_line: "word_ok w \<Longrightarrow> take 1 (words_line (w # ws)) = take 1 w"
  by (cases w; cases ws) (auto simp: words_line_def word_ok_def)

lemma process_typed:
  assumes "names_ok reg" "sh_registry s = Some reg" "c \<in> set reg" "n \<in> set (c_name c # c_aliases c)"
    and "\<forall>w \<in> set args. word_ok w"
  shows "process_command E (words_line (n # args)) prev s = run_func E reg (c_func c) args s"
proof -
  have n: "search reg n = Some c" "word_ok n" "take 1 n \<noteq> lit ''#''"
    using assms(1,3,4) by (auto simp: names_ok_def list_all_iff)
  then have ws: "\<forall>w \<in> set (n # args). word_ok w" using assms(5) by simp
  have "words_line (n # args) \<noteq> []" using n(2) by (cases args) (auto simp: words_line_def word_ok_def)
  with n take_words_line [OF n(2), of args] assms(2) show ?thesis
    by (simp add: process_command_def trim_words_line [OF _ ws] split_words_line [OF _ ws] exec_command_def
        rbind_assoc)
       (cases "run_func E reg (c_func c) args s"; simp add: split_beta)
qed

lemma print_only_con: "sh_print E pieces s = Ok s' \<Longrightarrow> \<exists>con. s' = s\<lparr>sh_con := con\<rparr>"
  by (auto simp: sh_print_def res_iff)

lemma echo_ok:
  assumes "length (sh_font E) \<le> isize_max" "shell_ok (cl_shell st)" "\<forall>c \<in> set cs. c \<noteq> 8 \<and> c \<noteq> 10"
  shows "\<exists>con. rfold (on_char E) cs st =
      Ok (st\<lparr>input_buffer := input_buffer st @ cs, cl_shell := (cl_shell st)\<lparr>sh_con := con\<rparr>\<rparr>) \<and>
    shell_ok ((cl_shell st)\<lparr>sh_con := con\<rparr>)"
  using assms(2,3)
proof (induction cs arbitrary: st)
  case Nil
  then show ?case by (intro exI [of _ "sh_con (cl_shell st)"]) simp
next
  case (Cons c cs)
  from shell_out_ok(1) [OF assms(1) Cons.prems(1), of "[[c]]"] obtain s' where s': "sh_print E [[c]] (cl_shell st) = Ok s'" "shell_ok s'"
    by blast
  from print_only_con [OF s'(1)] obtain con where con: "s' = (cl_shell st)\<lparr>sh_con := con\<rparr>" by blast
  let ?st = "st\<lparr>input_buffer := input_buffer st @ [c], cl_shell := s'\<rparr>"
  have "on_char E c st = Ok ?st" using s'(1) Cons.prems(2) by (simp add: on_char_def)
  moreover have "shell_ok (cl_shell ?st)" using s'(2) by simp
  ultimately show ?case using Cons.IH [of ?st] Cons.prems(2) con by simp
qed

text \<open>
  C31. What is typed is what runs: at an empty line of the shell started by the kernel, typing the name or any
  alias of a command of the registry and its arguments, and then Enter, echoes the line and runs exactly that
  command on exactly those arguments, on a state of which only the console has changed; then the line is empty
  again and the prompt shows the code that the command returned. No alias is hidden by another command.
\<close>

theorem typed_command_runs:
  assumes "length (sh_font E) \<le> isize_max" "cli_ok st" "input_buffer st = []"
    and "sh_registry (cl_shell st) = Some init_command_registry"
    and "c \<in> set init_command_registry" "n = c_name c \<or> n \<in> set (c_aliases c)" "\<forall>w \<in> set args. word_ok w"
  shows "\<exists>con. shell_ok ((cl_shell st)\<lparr>sh_con := con\<rparr>) \<and>
    rfold (on_char E) (words_line (n # args) @ [10]) st =
      rbind (run_func E init_command_registry (c_func c) args ((cl_shell st)\<lparr>sh_con := con\<rparr>)) (\<lambda>(code, s).
      rbind (prompt E code s) (\<lambda>s'. Ok \<lparr>input_buffer = [], prev_ret = code, cl_shell = s'\<rparr>))"
proof -
  let ?line = "words_line (n # args)"
  have n: "n \<in> set (c_name c # c_aliases c)" using assms(6) by auto
  then have "word_ok n" using init_registry_names assms(5) unfolding names_ok_def list_all_iff by blast
  then have "\<forall>w \<in> set (n # args). word_ok w" using assms(7) by simp
  then have typed: "c \<noteq> 8 \<and> c \<noteq> 10" if "w \<in> set (n # args)" "c \<in> set w" for w c
    using that unfolding word_ok_def list_all_iff is_whitespace_def by fastforce
  have keys: "\<forall>c \<in> set ?line. c \<noteq> 8 \<and> c \<noteq> 10"
  proof
    fix x assume "x \<in> set ?line"
    then have "x = 32 \<or> (\<exists>w \<in> set (n # args). x \<in> set w)" by (intro set_words_line) simp
    then show "x \<noteq> 8 \<and> x \<noteq> 10" by (elim disjE bexE) (simp, rule typed)
  qed
  have "shell_ok (cl_shell st)" using assms(2) by (simp add: cli_ok_def)
  from echo_ok [OF assms(1) this keys] obtain con1 where echo:
    "rfold (on_char E) ?line st = Ok (st\<lparr>input_buffer := ?line, cl_shell := (cl_shell st)\<lparr>sh_con := con1\<rparr>\<rparr>)"
    and s1: "shell_ok ((cl_shell st)\<lparr>sh_con := con1\<rparr>)" using assms(3) by auto
  from shell_out_ok(1) [OF assms(1) s1, of "[[10]]"] obtain s2 where
    s2: "sh_print E [[10]] ((cl_shell st)\<lparr>sh_con := con1\<rparr>) = Ok s2" "shell_ok s2" by blast
  from print_only_con [OF s2(1)] obtain con where con: "s2 = (cl_shell st)\<lparr>sh_con := con\<rparr>" by auto
  have "process_command E ?line (prev_ret st) s2 = run_func E init_command_registry (c_func c) args s2"
    using con assms(4) by (intro process_typed [OF init_registry_names _ assms(5) n assms(7)]) simp
  then have "rfold (on_char E) (?line @ [10]) st =
      rbind (run_func E init_command_registry (c_func c) args s2) (\<lambda>(code, s).
      rbind (prompt E code s) (\<lambda>s'. Ok \<lparr>input_buffer = [], prev_ret = code, cl_shell = s'\<rparr>))"
    using s2(1) by (simp add: rfold_append echo on_char_def rbind_rfold_Nil)
  with s2(2) con show ?thesis by blast
qed

theorem typed_command_runs_witness:
  "\<exists>con st. rfold (on_char demo_env) (words_line [lit ''poweroff'', lit ''QEMU''] @ [10])
      \<lparr>input_buffer = [], prev_ret = 3, cl_shell = demo_shell\<lparr>sh_registry := Some init_command_registry\<rparr>\<rparr> = Ok st \<and>
    prev_ret st = 0 \<and> sh_hw (cl_shell st) = [0x604]"
proof -
  let ?s = "demo_shell\<lparr>sh_registry := Some init_command_registry\<rparr>" and ?a = "[lit ''QEMU'']"
  let ?st = "\<lparr>input_buffer = [], prev_ret = 3, cl_shell = ?s\<rparr>" and ?n = "lit ''poweroff''"
  let ?c = "command_new ''shutdown'' [''poweroff''] ''Powers off the VM. (does not work on real hw!)'' ShutdownF"
  have "cli_ok ?st" using demo_shell_ok(2) by (simp add: cli_ok_def shell_ok_def)
  moreover have "?c \<in> set init_command_registry" by (simp add: init_registry_eq)
  moreover have "?n \<in> set (c_aliases ?c)" by (simp add: command_new_sel)
  moreover have "\<forall>w \<in> set ?a. word_ok w" by (simp add: word_ok_lit is_whitespace_def)
  ultimately obtain con where con: "shell_ok (?s\<lparr>sh_con := con\<rparr>)"
    "rfold (on_char demo_env) (words_line (?n # ?a) @ [10]) ?st =
      rbind (run_func demo_env init_command_registry (c_func ?c) ?a (?s\<lparr>sh_con := con\<rparr>)) (\<lambda>(code, s).
      rbind (prompt demo_env code s) (\<lambda>s'. Ok \<lparr>input_buffer = [], prev_ret = code, cl_shell = s'\<rparr>))"
    using typed_command_runs [OF demo_shell_ok(1), of ?st ?c ?n ?a] by auto
  let ?s2 = "?s\<lparr>sh_con := con, sh_hw := [0x604]\<rparr>"
  have "to_lowercase (sh_lower demo_env) (lit ''QEMU'') = lit ''qemu''"
    by (simp add: to_lowercase_def lit_def)
  then have "run_func demo_env init_command_registry (c_func ?c) ?a (?s\<lparr>sh_con := con\<rparr>) = Ok (0, ?s2)"
    by (simp add: run_func_def command_new_def cmd_shutdown_def ret_def out32_def demo_env_def demo_shell_def)
  moreover have "shell_ok ?s2" using con(1) by (simp add: shell_ok_def)
  then obtain con' where "prompt demo_env 0 ?s2 = Ok (?s2\<lparr>sh_con := con'\<rparr>)"
    using shell_out_ok(1) [OF demo_shell_ok(1)] print_only_con unfolding prompt_def by metis
  ultimately show ?thesis using con(2) by auto
qed

end
