(* ===== verification/Driver.thy ===== *)
theory Driver
  imports Machine
begin

text \<open>
  Programs of the drivers: a state is passed through a sequence of steps, each of which may panic or never
  return (\<open>None\<close>). The combinators are sequencing, loops over a list, loops that wait for a condition, and
  locks: a spin lock that is taken while it is held never returns, since nothing releases it.
\<close>

type_synonym ('s, 'a) drv = "'s \<Rightarrow> ('a \<times> 's) res option"

definition dret :: "'a \<Rightarrow> ('s, 'a) drv" where
  "dret x s = Some (Ok (x, s))"

definition dbind :: "('s, 'a) drv \<Rightarrow> ('a \<Rightarrow> ('s, 'b) drv) \<Rightarrow> ('s, 'b) drv" where
  "dbind m f s =
     (case m s of
        None \<Rightarrow> None
      | Some (Panic e) \<Rightarrow> Some (Panic e)
      | Some (Ok (x, s')) \<Rightarrow> f x s')"

definition dpanic :: "panic \<Rightarrow> ('s, 'a) drv" where
  "dpanic e s = Some (Panic e)"

definition dlift :: "'a res \<Rightarrow> ('s, 'a) drv" where
  "dlift m s = Some (rbind m (\<lambda>x. Ok (x, s)))"

definition dget :: "('s \<Rightarrow> 'a) \<Rightarrow> ('s, 'a) drv" where
  "dget f s = Some (Ok (f s, s))"

definition dmod :: "('s \<Rightarrow> 's) \<Rightarrow> ('s, unit) drv" where
  "dmod f s = Some (Ok ((), f s))"

text \<open>A step on the state, as the device accesses are.\<close>

definition dstep :: "('s \<Rightarrow> 'a \<times> 's) \<Rightarrow> ('s, 'a) drv" where
  "dstep f s = Some (Ok (f s))"

text \<open>A block of statements, and a loop over a list.\<close>

primrec dall :: "('s, unit) drv list \<Rightarrow> ('s, unit) drv" where
  "dall [] = dret ()"
| "dall (m # ms) = dbind m (\<lambda>_. dall ms)"

primrec dfor :: "('a \<Rightarrow> ('s, unit) drv) \<Rightarrow> 'a list \<Rightarrow> ('s, unit) drv" where
  "dfor f [] = dret ()"
| "dfor f (x # xs) = dbind (f x) (\<lambda>_. dfor f xs)"

text \<open>A loop whose body may leave the function: the first value that is returned ends it.\<close>

primrec dfor_ret :: "('a \<Rightarrow> ('s, 'r option) drv) \<Rightarrow> 'a list \<Rightarrow> ('s, 'r option) drv" where
  "dfor_ret f [] = dret None"
| "dfor_ret f (x # xs) = dbind (f x) (\<lambda>r. case r of Some v \<Rightarrow> dret (Some v) | None \<Rightarrow> dfor_ret f xs)"

text \<open>\<open>loop { x = m; if stop(x) { break x } }\<close>.\<close>

partial_function (option) dwait :: "('s, 'a) drv \<Rightarrow> ('a \<Rightarrow> bool) \<Rightarrow> ('s, 'a) drv" where
  "dwait m stop s =
     (case m s of
        None \<Rightarrow> None
      | Some (Panic e) \<Rightarrow> Some (Panic e)
      | Some (Ok (x, s')) \<Rightarrow> if stop x then Some (Ok (x, s')) else dwait m stop s')"

text \<open>
  A statement that takes a lock and keeps it to its end: \<open>held\<close> reads and \<open>mark\<close> changes the flag of the lock.
\<close>

definition dlocked :: "('s \<Rightarrow> bool) \<Rightarrow> (bool \<Rightarrow> 's \<Rightarrow> 's) \<Rightarrow> ('s, 'a) drv \<Rightarrow> ('s, 'a) drv" where
  "dlocked held mark m s =
     (if held s then None else dbind m (\<lambda>x. dbind (dmod (mark False)) (\<lambda>_. dret x)) (mark True s))"

section \<open>Rules\<close>

named_theorems drv \<open>running the steps of a driver\<close>

lemma dret_run [drv]: "dret x s = Some (Ok (x, s))"
  by (simp add: dret_def)

lemma dbind_run:
  "m s = Some (Ok (x, s')) \<Longrightarrow> dbind m f s = f x s'"
  "m s = None \<Longrightarrow> dbind m f s = None"
  "m s = Some (Panic e) \<Longrightarrow> dbind m f s = Some (Panic e)"
  by (simp_all add: dbind_def)

lemma dbind_steps [drv]:
  "dbind (dret x) f s = f x s" "dbind (dlift (Ok x)) f s = f x s" "dbind (dpanic e) f s = Some (Panic e)"
  "dbind (dlift (Panic e)) f s = Some (Panic e)"
  by (simp_all add: dbind_def dret_def dpanic_def dlift_def)

lemma dbind_state [drv]:
  "dbind (dget g) f s = f (g s) s" "dbind (dmod h) k s = k () (h s)" "dbind (dstep d) n s = n (fst (d s)) (snd (d s))"
  by (simp_all add: dbind_def dget_def dmod_def dstep_def split_beta)

lemma dbind_assoc [drv]: "dbind (dbind m g) f s = dbind m (\<lambda>x. dbind (g x) f) s"
  by (simp add: dbind_def split: option.splits res.splits)

lemma dmod_run [drv]: "dmod f s = Some (Ok ((), f s))" and dlift_run [drv]: "dlift (Ok x) s = Some (Ok (x, s))"
  and dget_run [drv]: "dget g s = Some (Ok (g s, s))" and dstep_run [drv]: "dstep k s = Some (Ok (k s))"
  by (simp_all add: dmod_def dlift_def dget_def dstep_def)

lemma dlift_Ok_iff: "dlift m s = Some (Ok (x, s')) \<longleftrightarrow> m = Ok x \<and> s' = s"
  by (cases m) (auto simp: dlift_def)

lemma dbind_Ok_iff: "dbind m f s = Some (Ok r) \<longleftrightarrow> (\<exists>x s'. m s = Some (Ok (x, s')) \<and> f x s' = Some (Ok r))"
  by (auto simp: dbind_def split: option.splits res.splits)

lemma dall_run [drv]: "dall [] s = Some (Ok ((), s))" "dall (m # ms) s = dbind m (\<lambda>_. dall ms) s"
  by (simp_all add: dret_def)

lemma dlocked_held [drv]: "held s \<Longrightarrow> dlocked held mark m s = None"
  by (simp add: dlocked_def)

lemma dlocked_free [drv]: "\<not> held s \<Longrightarrow> dlocked held mark m s = dbind m (\<lambda>x. dbind (dmod (mark False)) (\<lambda>_. dret x)) (mark True s)"
  by (simp add: dlocked_def)

lemma dbind_locked [drv]:
  "held s \<Longrightarrow> dbind (dlocked held mark m) f s = None"
  "\<not> held s \<Longrightarrow> dbind (dlocked held mark m) f s = dbind m (\<lambda>x. dbind (dmod (mark False)) (\<lambda>_. f x)) (mark True s)"
  by (simp_all add: dlocked_def dbind_def dmod_def dret_def split: option.splits res.splits)

lemma dwait_stops:
  assumes "m s = Some (Ok (x, s'))" "stop x"
  shows "dwait m stop s = Some (Ok (x, s'))"
  using assms by (subst dwait.simps) simp

lemma dwait_next:
  assumes "m s = Some (Ok (x, s'))" "\<not> stop x"
  shows "dwait m stop s = dwait m stop s'"
  using assms by (subst dwait.simps) simp

text \<open>A wait whose condition never comes true does not end.\<close>

lemma dwait_Some:
  "dwait m stop s = Some r \<Longrightarrow> (\<forall>s. I s \<longrightarrow> (\<exists>x s'. m s = Some (Ok (x, s')) \<and> \<not> stop x \<and> I s')) \<longrightarrow> \<not> I s"
proof (rule dwait.raw_induct [where P = "\<lambda>m stop s r. (\<forall>s. I s \<longrightarrow> (\<exists>x s'. m s = Some (Ok (x, s')) \<and> \<not> stop x \<and> I s')) \<longrightarrow> \<not> I s"])
  fix w m stop s r
  assume IH: "\<And>m stop s r. w m stop s = Some r \<Longrightarrow>
      (\<forall>s. I s \<longrightarrow> (\<exists>x s'. m s = Some (Ok (x, s')) \<and> \<not> stop x \<and> I s')) \<longrightarrow> \<not> I s"
    and w: "(case m s of None \<Rightarrow> None | Some (Ok (x, s')) \<Rightarrow> if stop x then Some (Ok (x, s')) else w m stop s'
        | Some (Panic e) \<Rightarrow> Some (Panic e)) = Some r"
  show "(\<forall>s. I s \<longrightarrow> (\<exists>x s'. m s = Some (Ok (x, s')) \<and> \<not> stop x \<and> I s')) \<longrightarrow> \<not> I s"
  proof (intro impI notI)
    assume step: "\<forall>s. I s \<longrightarrow> (\<exists>x s'. m s = Some (Ok (x, s')) \<and> \<not> stop x \<and> I s')" and "I s"
    then obtain x s' where "m s = Some (Ok (x, s'))" "\<not> stop x" "I s'" by blast
    with w IH [of m stop s' r] step show False by simp
  qed
qed

lemma dwait_forever:
  assumes "I s" "\<And>s. I s \<Longrightarrow> \<exists>x s'. m s = Some (Ok (x, s')) \<and> \<not> stop x \<and> I s'"
  shows "dwait m stop s = None"
  using dwait_Some [of m stop s _ I] assms by (cases "dwait m stop s") auto

section \<open>Programs that return\<close>

definition returns :: "('s, 'a) drv \<Rightarrow> 's \<Rightarrow> bool" where
  "returns m s \<longleftrightarrow> (\<exists>r. m s = Some (Ok r))"

lemma returns_dbind: "returns (dbind m f) s \<longleftrightarrow> (\<exists>x s'. m s = Some (Ok (x, s')) \<and> returns (f x) s')"
  by (auto simp: returns_def dbind_def split: option.splits res.splits)

text \<open>A sequence does not return if its first part does not, or if what follows does not.\<close>

lemma stuck_first: "\<not> returns m s \<Longrightarrow> \<not> returns (dbind m f) s"
  by (auto simp: returns_dbind) (auto simp: returns_def)

lemma stuck_then: "(\<And>x s'. m s = Some (Ok (x, s')) \<Longrightarrow> \<not> returns (f x) s') \<Longrightarrow> \<not> returns (dbind m f) s"
  by (auto simp: returns_dbind)

end
