(* ===== verification/Ide.thy ===== *)
theory Ide
  imports Driver Pci Interrupts Rust_Str
begin

text \<open>
  The IDE driver (\<open>kernel/src/drivers/ide.rs\<close>): the registers of a channel, polling, error codes, the
  addressing of sectors, transfers to and from ATA and ATAPI drives, and the detection of drives.

  The statics of the module are one state. \<open>CHANNELS\<close> and \<open>IDE_BUF\<close> are spin locks whose guards live to the end of
  the statement (or of the scope) that takes them, so the state records whether each is held; the other
  locks are never taken twice. \<open>ide_ready k\<close> says whether \<open>ide_irq\<close> runs before the \<open>k\<close>-th look at
  \<open>IDE_IRQ_INVOKED\<close>. Memory is the memory that the string instructions read and write.
\<close>

unbundle bit_operations_syntax

section \<open>Constants\<close>

abbreviation (input) ATA_SR_BSY :: u8 where "ATA_SR_BSY \<equiv> 0x80"
abbreviation (input) ATA_SR_DF :: u8 where "ATA_SR_DF \<equiv> 0x20"
abbreviation (input) ATA_SR_DRQ :: u8 where "ATA_SR_DRQ \<equiv> 0x08"
abbreviation (input) ATA_SR_ERR :: u8 where "ATA_SR_ERR \<equiv> 0x01"
abbreviation (input) ATA_REG_DATA :: u8 where "ATA_REG_DATA \<equiv> 0x00"
abbreviation (input) ATA_REG_ERROR :: u8 where "ATA_REG_ERROR \<equiv> 0x01"
abbreviation (input) ATA_REG_FEATURES :: u8 where "ATA_REG_FEATURES \<equiv> 0x01"
abbreviation (input) ATA_REG_SECCOUNT0 :: u8 where "ATA_REG_SECCOUNT0 \<equiv> 0x02"
abbreviation (input) ATA_REG_LBA0 :: u8 where "ATA_REG_LBA0 \<equiv> 0x03"
abbreviation (input) ATA_REG_LBA1 :: u8 where "ATA_REG_LBA1 \<equiv> 0x04"
abbreviation (input) ATA_REG_LBA2 :: u8 where "ATA_REG_LBA2 \<equiv> 0x05"
abbreviation (input) ATA_REG_HDDEVSEL :: u8 where "ATA_REG_HDDEVSEL \<equiv> 0x06"
abbreviation (input) ATA_REG_COMMAND :: u8 where "ATA_REG_COMMAND \<equiv> 0x07"
abbreviation (input) ATA_REG_STATUS :: u8 where "ATA_REG_STATUS \<equiv> 0x07"
abbreviation (input) ATA_REG_SECCOUNT1 :: u8 where "ATA_REG_SECCOUNT1 \<equiv> 0x08"
abbreviation (input) ATA_REG_LBA3 :: u8 where "ATA_REG_LBA3 \<equiv> 0x09"
abbreviation (input) ATA_REG_LBA4 :: u8 where "ATA_REG_LBA4 \<equiv> 0x0A"
abbreviation (input) ATA_REG_LBA5 :: u8 where "ATA_REG_LBA5 \<equiv> 0x0B"
abbreviation (input) ATA_REG_CONTROL :: u8 where "ATA_REG_CONTROL \<equiv> 0x0C"
abbreviation (input) ATA_REG_ALTSTATUS :: u8 where "ATA_REG_ALTSTATUS \<equiv> 0x0C"

section \<open>State\<close>

record ide_channel =
  ch_base :: u16
  ch_ctrl :: u16
  ch_bmide :: u16
  ch_nien :: u8

record ide_device =
  rsv0 :: u8
  dev_channel :: u8
  dev_drive :: u8
  dev_typ :: u16
  dev_sig :: u16
  capabilities :: u16
  cmdsets :: u32
  dev_sz :: u32
  dev_model :: "u8 list"

record 'hw ide =
  channels :: "ide_channel list"
  channels_held :: bool
  ide_buf :: "u8 list"
  buf_held :: bool
  irq_invoked :: u8
  irq_loads :: nat
  atapi_packet :: "u8 list"
  ide_devices :: "ide_device list"
  ide_mem :: "addr \<Rightarrow> u8"
  ide_con :: console
  ide_loads :: nat
  ide_hw :: 'hw

record 'hw ide_env =
  ide_machine :: "'hw machine"
  ide_font :: "u8 list"
  ide_loc :: "nat \<Rightarrow> ustr"
  ide_ticks :: "nat \<Rightarrow> nat"
  ide_ready :: "nat \<Rightarrow> bool"

section \<open>Registers\<close>

text \<open>\<open>CHANNELS.lock()[channel]\<close> inside the statement that holds the lock.\<close>

definition channel_at :: "u8 \<Rightarrow> ('hw ide, ide_channel) drv" where
  "channel_at channel = dbind (dget channels) (\<lambda>cs. dlift (index cs (unat channel)))"

definition lock_channels :: "('hw ide, 'a) drv \<Rightarrow> ('hw ide, 'a) drv" where
  "lock_channels = dlocked channels_held (\<lambda>b. channels_held_update (\<lambda>_. b))"

definition lock_buf :: "('hw ide, 'a) drv \<Rightarrow> ('hw ide, 'a) drv" where
  "lock_buf = dlocked buf_held (\<lambda>b. buf_held_update (\<lambda>_. b))"

definition out8 :: "'hw ide_env \<Rightarrow> u16 \<Rightarrow> u8 \<Rightarrow> ('hw ide, unit) drv" where
  "out8 E p v = dmod (\<lambda>s. s\<lparr>ide_hw := port_out8 (ide_machine E) (ide_hw s) p v\<rparr>)"

definition in8 :: "'hw ide_env \<Rightarrow> u16 \<Rightarrow> ('hw ide, u8) drv" where
  "in8 E p = dstep (\<lambda>s. let (v, hw) = port_in8 (ide_machine E) (ide_hw s) p in (v, s\<lparr>ide_hw := hw\<rparr>))"

text \<open>The port of a register; the source computes it from \<open>base\<close> in every branch of \<open>ide_write\<close> and \<open>ide_read\<close>.\<close>

definition base_port :: "ide_channel \<Rightarrow> u8 \<Rightarrow> u16 option res" where
  "base_port c reg =
     (if reg < 0x08 then rbind (wadd (ch_base c) (ucast reg)) (\<lambda>p. Ok (Some p))
      else if reg < 0x0C then rbind (wadd (ch_base c) (ucast reg)) (\<lambda>p. rbind (wsub p 0x06) (\<lambda>p. Ok (Some p)))
      else if reg < 0x0E then rbind (wadd (ch_base c) (ucast reg)) (\<lambda>p. rbind (wsub p 0x0A) (\<lambda>p. Ok (Some p)))
      else if reg < 0x16 then rbind (wadd (ch_base c) (ucast reg)) (\<lambda>p. rbind (wsub p 0x0E) (\<lambda>p. Ok (Some p)))
      else Ok None)"

definition write_port :: "'hw ide_env \<Rightarrow> u8 \<Rightarrow> u8 \<Rightarrow> u8 \<Rightarrow> ('hw ide, unit) drv" where
  "write_port E channel reg data =
     (if reg < 0x16
      then lock_channels (dbind (channel_at channel) (\<lambda>c. dbind (dlift (base_port c reg)) (\<lambda>p.
             case p of Some p \<Rightarrow> out8 E p data | None \<Rightarrow> dret ())))
      else dret ())"

text \<open>
  For the registers 8 to 11 \<open>ide_write\<close> calls itself on the control register, where it is \<open>write_port\<close>; the
  guard of the lock that reads \<open>nien\<close> is a temporary of the calling statement and is still held.
\<close>

definition write_control :: "'hw ide_env \<Rightarrow> u8 \<Rightarrow> u8 \<Rightarrow> ('hw ide, unit) drv" where
  "write_control E channel flags =
     lock_channels (dbind (channel_at channel) (\<lambda>c. write_port E channel ATA_REG_CONTROL (flags OR ch_nien c)))"

definition extended :: "u8 \<Rightarrow> bool" where
  "extended reg \<longleftrightarrow> 0x07 < reg \<and> reg < 0x0C"

definition ide_write :: "'hw ide_env \<Rightarrow> u8 \<Rightarrow> u8 \<Rightarrow> u8 \<Rightarrow> ('hw ide, unit) drv" where
  "ide_write E channel reg data = dall
     [if extended reg then write_control E channel 0x80 else dret (),
      write_port E channel reg data,
      if extended reg then write_control E channel 0 else dret ()]"

definition ide_read :: "'hw ide_env \<Rightarrow> u8 \<Rightarrow> u8 \<Rightarrow> ('hw ide, u8) drv" where
  "ide_read E channel reg =
     dbind (if extended reg then write_control E channel 0x80 else dret ()) (\<lambda>_.
       if reg < 0x16
       then lock_channels (dbind (channel_at channel) (\<lambda>c. dbind (dlift (base_port c reg)) (\<lambda>p.
              case p of Some p \<Rightarrow> in8 E p | None \<Rightarrow> dret 0)))
       else dret 0)"

definition log_error :: "'hw ide_env \<Rightarrow> nat \<Rightarrow> string \<Rightarrow> ('hw ide, unit) drv" where
  "log_error E line msg = (\<lambda>s.
     Some (rbind (error (ide_font E) (ide_loc E line) [lit msg] (ide_con s)) (\<lambda>c. Ok ((), s\<lparr>ide_con := c\<rparr>))))"

text \<open>\<open>ide_read_buffer\<close> writes to \<open>IDE_BUF\<close>, seen as 512 little-endian words of 32 bits.\<close>

definition put_quad :: "u8 list \<Rightarrow> nat \<Rightarrow> u32 \<Rightarrow> u8 list" where
  "put_quad b i v = b[4 * i := ucast v, 4 * i + 1 := ucast (drop_bit 8 v), 4 * i + 2 := ucast (drop_bit 16 v),
     4 * i + 3 := ucast (drop_bit 24 v)]"

definition ide_read_buffer :: "'hw ide_env \<Rightarrow> u8 \<Rightarrow> u8 \<Rightarrow> nat \<Rightarrow> nat \<Rightarrow> ('hw ide, unit) drv" where
  "ide_read_buffer E channel reg len quads =
     dbind (if extended reg then write_control E channel 0x80 else dret ()) (\<lambda>_.
     dbind (lock_channels (dbind (channel_at channel) (\<lambda>c. dlift
         (if reg < 0x08 then rbind (wadd (ch_base c) (ucast reg)) (\<lambda>p. Ok (Some p))
          else if reg < 0x0C then rbind (wadd (ch_base c) (ucast reg)) (\<lambda>p. rbind (wsub p 0x06) (\<lambda>p. Ok (Some p)))
          else if reg < 0x0E then rbind (wadd (ch_ctrl c) (ucast reg)) (\<lambda>p. rbind (wsub p 0x0A) (\<lambda>p. Ok (Some p)))
          else if reg < 0x16 then rbind (wadd (ch_bmide c) (ucast reg)) (\<lambda>p. rbind (wsub p 0x0E) (\<lambda>p. Ok (Some p)))
          else Ok None)))) (\<lambda>p.
     case p of
       None \<Rightarrow> log_error E 212 ''(IDE) Invalid register address!''
     | Some p \<Rightarrow>
         dbind (dfor (\<lambda>i.
             dbind (dstep (\<lambda>s. let (v, hw) = port_in (ide_machine E) (ide_hw s) p in (v, s\<lparr>ide_hw := hw\<rparr>))) (\<lambda>v.
             if i < len then dmod (\<lambda>s. s\<lparr>ide_buf := put_quad (ide_buf s) i v\<rparr>) else dpanic IndexOutOfBounds)) [0..<quads]) (\<lambda>_.
           if extended reg then write_control E channel 0 else dret ())))"

section \<open>Polling and errors\<close>

definition ide_polling :: "'hw ide_env \<Rightarrow> u8 \<Rightarrow> u32 \<Rightarrow> ('hw ide, u8) drv" where
  "ide_polling E channel advanced_check =
     dbind (dfor (\<lambda>_. dbind (ide_read E channel ATA_REG_ALTSTATUS) (\<lambda>_. dret ())) [0..<4]) (\<lambda>_.
     dbind (dwait (ide_read E channel ATA_REG_STATUS) (\<lambda>st. st AND ATA_SR_BSY = 0)) (\<lambda>_.
       if advanced_check \<noteq> 0
       then dbind (ide_read E channel ATA_REG_STATUS) (\<lambda>state. dret
              (if state AND ATA_SR_ERR \<noteq> 0 then 2
               else if state AND ATA_SR_DF \<noteq> 0 then 1
               else if state AND ATA_SR_DRQ = 0 then 3 else 0))
       else dret 0))"

definition ide_device_at :: "u8 \<Rightarrow> ('hw ide, ide_device) drv" where
  "ide_device_at drive = dbind (dget ide_devices) (\<lambda>ds. dlift (index ds (unat drive)))"

text \<open>The bits of the error register, in the order of the source, with the message and the code of each.\<close>

definition error_bits :: "(u8 \<times> nat \<times> string \<times> u8) list" where
  "error_bits =
     [(0x01, 269, ''(IDE) No Address Mark Found'', 7), (0x02, 273, ''(IDE) No Media or Media Error'', 3),
      (0x04, 277, ''(IDE) Command Aborted'', 20), (0x08, 281, ''(IDE) No Media or Media Error'', 3),
      (0x10, 285, ''(IDE) ID mark not Found'', 21), (0x20, 289, ''(IDE) No Media or Media Error'', 3),
      (0x40, 293, ''(IDE) Uncorrectable Data Error'', 22), (0x80, 297, ''(IDE) Bad Sectors'', 13)]"

primrec report_bits :: "'hw ide_env \<Rightarrow> u8 \<Rightarrow> (u8 \<times> nat \<times> string \<times> u8) list \<Rightarrow> u8 \<Rightarrow> ('hw ide, u8) drv" where
  "report_bits E st [] ret = dret ret"
| "report_bits E st (b # bs) ret =
     (case b of (bits, line, msg, code) \<Rightarrow>
        if st AND bits \<noteq> 0 then dbind (log_error E line msg) (\<lambda>_. report_bits E st bs code)
        else report_bits E st bs ret)"

definition fmt_error :: "'hw ide_env \<Rightarrow> u8 \<Rightarrow> u8 \<Rightarrow> ('hw ide, u8) drv" where
  "fmt_error E drive err =
     (if err = 0 then dret err
      else if err = 1 then dbind (log_error E 264 ''(IDE) Device fault'') (\<lambda>_. dret 19)
      else if err = 2 then dbind (ide_device_at drive) (\<lambda>d. dbind (ide_read E (dev_channel d) ATA_REG_ERROR) (\<lambda>st.
        report_bits E st error_bits 0))
      else if err = 3 then dbind (log_error E 301 ''(IDE) Reads Nothing'') (\<lambda>_. dret 23)
      else if err = 4 then dbind (log_error E 304 ''(IDE) Write Protected'') (\<lambda>_. dret 8)
      else dret 0)"

definition name_as_string :: "u8 list \<Rightarrow> ustr" where
  "name_as_string n = map unat n"

text \<open>At most 100000 looks at the status.\<close>

primrec flush_wait :: "'hw ide_env \<Rightarrow> u8 \<Rightarrow> nat \<Rightarrow> ('hw ide, bool) drv" where
  "flush_wait E channel 0 = dret False"
| "flush_wait E channel (Suc timeout) =
     dbind (ide_read E channel ATA_REG_STATUS) (\<lambda>stat.
       if stat AND ATA_SR_BSY = 0 then dret True else flush_wait E channel timeout)"

definition ide_cache_flush :: "'hw ide_env \<Rightarrow> u8 \<Rightarrow> u8 \<Rightarrow> ('hw ide, bool) drv" where
  "ide_cache_flush E channel lba_mode =
     dbind (ide_write E channel ATA_REG_COMMAND (if lba_mode = 2 then 0xEA else 0xE7)) (\<lambda>_.
       flush_wait E channel 100000)"

section \<open>Addresses of sectors\<close>

text \<open>The mode, the six address bytes and the head number that \<open>ide_ata_access\<close> computes.\<close>

definition lba_registers :: "u32 \<Rightarrow> u16 \<Rightarrow> (u8 \<times> u8 list \<times> u8) res" where
  "lba_registers lba caps =
     (if lba \<ge> 0x10000000 then
        Ok (2, [ucast (lba AND 0x000000FF), ucast (drop_bit 8 (lba AND 0x0000FF00)), ucast (drop_bit 16 (lba AND 0x00FF0000)),
                ucast (drop_bit 24 (lba AND 0xFF000000)), 0, 0], 0)
      else if caps AND 0x200 \<noteq> 0 then
        Ok (1, [ucast (lba AND 0x00000FF), ucast (drop_bit 8 (lba AND 0x000FF00)), ucast (drop_bit 16 (lba AND 0x0FF0000)), 0, 0, 0],
            ucast (drop_bit 24 (lba AND 0xF000000)))
      else
        rbind (wadd (lba mod 63) 1) (\<lambda>sect1. let sect = ucast sect1 :: u8
        in rbind (wadd lba 1) (\<lambda>l1. rbind (wsub l1 (ucast sect)) (\<lambda>l2.
           let cyl = ucast (l2 div (16 * 63)) :: u16
           in Ok (0, [sect, ucast (cyl AND 0xFF), ucast (drop_bit 8 cyl AND 0xFF), 0, 0, 0], ucast (l2 mod (16 * 63) div 63))))))"

text \<open>The command, from the sequence of conditionals; \<open>dma\<close> is 0 in this version.\<close>

definition ata_command :: "u8 \<Rightarrow> u8 \<Rightarrow> u8 \<Rightarrow> u8" where
  "ata_command lba_mode dma direction =
     (let cmd = (\<lambda>m d dir c old. if lba_mode = m \<and> dma = d \<and> direction = dir then c else old :: u8)
      in fold (\<lambda>(m, d, dir, c). cmd m d dir c)
           [(0, 0, 0, 0x20), (1, 0, 0, 0x20), (2, 0, 0, 0x24), (0, 1, 0, 0xC8), (1, 1, 0, 0xC8), (2, 1, 0, 0x25),
            (0, 0, 1, 0x30), (1, 0, 1, 0x30), (2, 0, 1, 0x34), (0, 1, 1, 0xCA), (1, 1, 1, 0xCA), (2, 1, 1, 0x35)] 0)"

section \<open>Transfers\<close>

text \<open>\<open>rep insw\<close> and \<open>rep outsw\<close>.\<close>

definition insw :: "'hw ide_env \<Rightarrow> u16 \<Rightarrow> nat \<Rightarrow> addr \<Rightarrow> ('hw ide, unit) drv" where
  "insw E p n a = dfor (\<lambda>i. dmod (\<lambda>s. let (v, hw) = port_in16 (ide_machine E) (ide_hw s) p
       in s\<lparr>ide_hw := hw, ide_mem := (ide_mem s)(a + 2 * i := ucast v, a + 2 * i + 1 := ucast (drop_bit 8 v))\<rparr>)) [0..<n]"

definition outsw :: "'hw ide_env \<Rightarrow> u16 \<Rightarrow> nat \<Rightarrow> (nat \<Rightarrow> 'hw ide \<Rightarrow> u8) \<Rightarrow> ('hw ide, unit) drv" where
  "outsw E p n byte = dfor (\<lambda>i. dmod (\<lambda>s. s\<lparr>ide_hw := port_out16 (ide_machine E) (ide_hw s) p
       (push_bit 8 (ucast (byte (2 * i + 1) s)) OR ucast (byte (2 * i) s))\<rparr>)) [0..<n]"

definition set_nien :: "u8 \<Rightarrow> u8 \<Rightarrow> ('hw ide, unit) drv" where
  "set_nien channel v = lock_channels (dbind (channel_at channel) (\<lambda>_.
     dmod (\<lambda>s. s\<lparr>channels := (channels s)[unat channel := (channels s ! unat channel)\<lparr>ch_nien := v\<rparr>]\<rparr>)))"

primrec ata_read_sectors :: "'hw ide_env \<Rightarrow> u8 \<Rightarrow> u16 \<Rightarrow> nat \<Rightarrow> u32 \<Rightarrow> ('hw ide, u8 option) drv" where
  "ata_read_sectors E channel bus 0 edi = dret None"
| "ata_read_sectors E channel bus (Suc n) edi =
     dbind (ide_polling E channel 1) (\<lambda>r.
       if 0 = r then dret (Some 0)
       else dbind (insw E bus 256 (unat edi)) (\<lambda>_.
            dbind (dlift (wadd edi 512)) (\<lambda>edi'. ata_read_sectors E channel bus n edi')))"

primrec ata_write_sectors :: "'hw ide_env \<Rightarrow> u8 \<Rightarrow> u16 \<Rightarrow> nat \<Rightarrow> u32 \<Rightarrow> ('hw ide, unit) drv" where
  "ata_write_sectors E channel bus 0 edi = dret ()"
| "ata_write_sectors E channel bus (Suc n) edi =
     dbind (ide_polling E channel 0) (\<lambda>_.
     dbind (outsw E bus 256 (\<lambda>i s. ide_mem s (unat edi + i))) (\<lambda>_.
     dbind (dlift (wadd edi 512)) (\<lambda>edi'. ata_write_sectors E channel bus n edi')))"

definition ata_program :: "'hw ide_env \<Rightarrow> u8 \<Rightarrow> u8 \<Rightarrow> u8 \<Rightarrow> u8 \<Rightarrow> u8 \<times> u8 list \<times> u8 \<Rightarrow> ('hw ide, unit) drv" where
  "ata_program E direction channel childbit numsects = (\<lambda>(lba_mode, lba_io, head). dall
     [ide_write E channel ATA_REG_HDDEVSEL ((if lba_mode = 0 then 0xA0 else 0xE0) OR push_bit 4 childbit OR head),
      if lba_mode = 2 then dall
        [ide_write E channel ATA_REG_SECCOUNT1 0, ide_write E channel ATA_REG_LBA3 (lba_io ! 3),
         ide_write E channel ATA_REG_LBA4 (lba_io ! 4), ide_write E channel ATA_REG_LBA5 (lba_io ! 5)]
      else dret (),
      ide_write E channel ATA_REG_SECCOUNT0 numsects, ide_write E channel ATA_REG_LBA0 (lba_io ! 0),
      ide_write E channel ATA_REG_LBA1 (lba_io ! 1), ide_write E channel ATA_REG_LBA2 (lba_io ! 2),
      ide_write E channel ATA_REG_COMMAND (ata_command lba_mode 0 direction)])"

definition ide_ata_access :: "'hw ide_env \<Rightarrow> u8 \<Rightarrow> u8 \<Rightarrow> u32 \<Rightarrow> u8 \<Rightarrow> u16 \<Rightarrow> u32 \<Rightarrow> ('hw ide, u8) drv" where
  "ide_ata_access E direction drive lba numsects selector edi =
     dbind (ide_device_at drive) (\<lambda>d. let channel = dev_channel d
     in dbind (lock_channels (channel_at channel)) (\<lambda>c. let bus = ch_base c
     in dbind (dmod (\<lambda>s. s\<lparr>irq_invoked := 0\<rparr>)) (\<lambda>_.
        dbind (dget irq_invoked) (\<lambda>irq. dbind (dlift (wadd irq 0x02)) (\<lambda>n.
        dbind (set_nien channel n) (\<lambda>_.
        dbind (ide_write E channel ATA_REG_CONTROL n) (\<lambda>_.
        dbind (dlift (lba_registers lba (capabilities d))) (\<lambda>regs.
        dbind (dwait (ide_read E channel ATA_REG_STATUS) (\<lambda>st. st AND ATA_SR_BSY = 0)) (\<lambda>_.
        dbind (ata_program E direction channel (dev_drive d) numsects regs) (\<lambda>_.
          if direction = 0
          then dbind (ata_read_sectors E channel bus (unat numsects) edi) (\<lambda>r.
                 case r of Some v \<Rightarrow> dret v | None \<Rightarrow> dret 0)
          else dbind (ata_write_sectors E channel bus (unat numsects) edi) (\<lambda>_.
               dbind (ide_cache_flush E channel (fst regs)) (\<lambda>ok.
                 if \<not> ok then dbind (log_error E 655 ''(IDE) Timed out while flushing cache!'') (\<lambda>_. dret 0xFF)
                 else dbind (ide_polling E channel 0) (\<lambda>_. dret 0)))))))))))))"

text \<open>\<open>while !IDE_IRQ_INVOKED.lock().read() != 0\<close>: the operator is the bitwise complement of a byte.\<close>

definition irq_look :: "'hw ide_env \<Rightarrow> ('hw ide, u8) drv" where
  "irq_look E = dstep (\<lambda>s. let v = if ide_ready E (irq_loads s) then 1 else irq_invoked s
     in (v, s\<lparr>irq_invoked := v, irq_loads := Suc (irq_loads s)\<rparr>))"

definition ide_wait_irq :: "'hw ide_env \<Rightarrow> ('hw ide, unit) drv" where
  "ide_wait_irq E = dbind (dwait (irq_look E) (\<lambda>v. NOT v = 0)) (\<lambda>_. dmod (\<lambda>s. s\<lparr>irq_invoked := 0\<rparr>))"

definition ide_irq :: "('hw ide, unit) drv" where
  "ide_irq = dmod (\<lambda>s. s\<lparr>irq_invoked := 1\<rparr>)"

primrec atapi_read_blocks :: "'hw ide_env \<Rightarrow> u8 \<Rightarrow> u16 \<Rightarrow> nat \<Rightarrow> u32 \<Rightarrow> ('hw ide, u8 option) drv" where
  "atapi_read_blocks E channel bus 0 edi = dret None"
| "atapi_read_blocks E channel bus (Suc n) edi =
     dbind (ide_wait_irq E) (\<lambda>_.
     dbind (ide_polling E channel 1) (\<lambda>err.
       if err \<noteq> 0 then dret (Some err)
       else dbind (insw E bus 1024 (unat edi)) (\<lambda>_.
            dbind (dlift (wadd edi 2048)) (\<lambda>edi'. atapi_read_blocks E channel bus n edi'))))"

definition read_packet :: "u32 \<Rightarrow> u8 \<Rightarrow> u8 list" where
  "read_packet lba numsects =
     [0xA8, 0, ucast (drop_bit 26 lba AND 0xFF), ucast (drop_bit 16 lba AND 0xFF), ucast (drop_bit 8 lba AND 0xFF),
      ucast (lba AND 0xFF), 0, 0, 0, numsects, 0, 0]"

definition ide_atapi_read :: "'hw ide_env \<Rightarrow> u8 \<Rightarrow> u32 \<Rightarrow> u8 \<Rightarrow> u16 \<Rightarrow> u32 \<Rightarrow> ('hw ide, u8) drv" where
  "ide_atapi_read E drive lba numsects selector edi =
     dbind (ide_device_at drive) (\<lambda>d. let channel = dev_channel d
     in dbind (lock_channels (channel_at channel)) (\<lambda>c. let bus = ch_base c
     in dbind (dall
          [dmod (\<lambda>s. s\<lparr>irq_invoked := 0\<rparr>),
           lock_channels (dbind (dget channels) (\<lambda>cs.
             if unat channel < length cs
             then dbind (dmod (\<lambda>s. s\<lparr>channels := (channels s)[unat channel := (channels s ! unat channel)\<lparr>ch_nien := 0\<rparr>]\<rparr>)) (\<lambda>_.
                  ide_write E channel ATA_REG_CONTROL 0)
             else dret ())),
           dmod (\<lambda>s. s\<lparr>atapi_packet := read_packet lba numsects\<rparr>),
           ide_write E channel ATA_REG_HDDEVSEL (push_bit 4 (dev_drive d)),
           dfor (\<lambda>_. dbind (ide_read E channel ATA_REG_ALTSTATUS) (\<lambda>_. dret ())) [0..<4],
           ide_write E channel ATA_REG_FEATURES 0,
           ide_write E channel ATA_REG_LBA1 (ucast (1024 * 2 AND 0xFF :: u16)),
           ide_write E channel ATA_REG_LBA2 (ucast (drop_bit 8 (1024 * 2 :: u16))),
           ide_write E channel ATA_REG_COMMAND 0xA0]) (\<lambda>_.
        dbind (ide_polling E channel 1) (\<lambda>err.
          if err \<noteq> 0 then dret err
          else dbind (outsw E bus 6 (\<lambda>i s. atapi_packet s ! i)) (\<lambda>_.
               dbind (atapi_read_blocks E channel bus (unat numsects) edi) (\<lambda>r.
                 case r of
                   Some e \<Rightarrow> dret e
                 | None \<Rightarrow>
                     dbind (ide_wait_irq E) (\<lambda>_.
                     dbind (dwait (ide_read E channel ATA_REG_STATUS) (\<lambda>st. st AND (ATA_SR_BSY OR ATA_SR_DRQ) = 0)) (\<lambda>_. dret 0))))))))"

section \<open>Sectors\<close>

primrec atapi_read_each :: "'hw ide_env \<Rightarrow> u8 \<Rightarrow> u32 \<Rightarrow> u16 \<Rightarrow> u32 \<Rightarrow> u8 list \<Rightarrow> u8 \<Rightarrow> ('hw ide, u8) drv" where
  "atapi_read_each E drive lba es edi [] err = dret err"
| "atapi_read_each E drive lba es edi (i # is) err =
     dbind (dlift (wadd lba (ucast i))) (\<lambda>l.
     dbind (dlift (wmul (ucast i) 2048)) (\<lambda>o'.
     dbind (dlift (wadd edi o')) (\<lambda>a.
     dbind (ide_atapi_read E drive l 1 es a) (\<lambda>e. atapi_read_each E drive lba es edi is e))))"

text \<open>
  The checks that both operations make first: no such drive (1), beyond its end (2).
\<close>

definition sectors_guard :: "u8 \<Rightarrow> u8 \<Rightarrow> u32 \<Rightarrow> ('hw ide, u8 option) drv" where
  "sectors_guard drive numsects lba =
     (if drive > 3 then dret (Some 0x1)
      else dbind (ide_device_at drive) (\<lambda>d.
        if rsv0 d = 0 then dret (Some 0x1)
        else dbind (dlift (wadd lba (ucast numsects))) (\<lambda>last_sect.
          dret (if last_sect > dev_sz d \<and> dev_typ d = 0 then Some 0x2 else None))))"

definition ide_read_sectors :: "'hw ide_env \<Rightarrow> u8 \<Rightarrow> u8 \<Rightarrow> u32 \<Rightarrow> u16 \<Rightarrow> u32 \<Rightarrow> ('hw ide, u8) drv" where
  "ide_read_sectors E drive numsects lba es edi =
     dbind (sectors_guard drive numsects lba) (\<lambda>g.
       case g of
         Some e \<Rightarrow> dret e
       | None \<Rightarrow>
           dbind (ide_device_at drive) (\<lambda>d.
           dbind (if dev_typ d = 0 then ide_ata_access E 0x00 drive lba numsects es edi
                  else if dev_typ d = 1 then atapi_read_each E drive lba es edi (map of_nat [0..<unat numsects]) 0
                  else dret 0) (\<lambda>err. fmt_error E drive err)))"

definition ide_write_sectors :: "'hw ide_env \<Rightarrow> u8 \<Rightarrow> u8 \<Rightarrow> u32 \<Rightarrow> u16 \<Rightarrow> u32 \<Rightarrow> ('hw ide, u8) drv" where
  "ide_write_sectors E drive numsects lba es edi =
     dbind (sectors_guard drive numsects lba) (\<lambda>g.
       case g of
         Some e \<Rightarrow> dret e
       | None \<Rightarrow>
           dbind (ide_device_at drive) (\<lambda>d.
           dbind (if dev_typ d = 0 then ide_ata_access E 0x00 drive lba numsects es edi
                  else if dev_typ d = 1 then atapi_read_each E drive lba es edi (map of_nat [0..<unat numsects]) 0
                  else dret 0) (\<lambda>err. fmt_error E drive err)))"

definition ide_atapi_eject :: "'hw ide_env \<Rightarrow> u8 \<Rightarrow> ('hw ide, u8) drv" where
  "ide_atapi_eject E drive =
     dbind (ide_device_at drive) (\<lambda>d. let channel = dev_channel d
     in dbind (lock_channels (channel_at channel)) (\<lambda>c. let bus = ch_base c
     in dbind (dmod (\<lambda>s. s\<lparr>irq_invoked := 0\<rparr>)) (\<lambda>_.
          if drive > 3 \<or> rsv0 d = 0 then dret 0x1
          else if dev_typ d = 0 then dret 20
          else dbind (dall
            [dmod (\<lambda>s. s\<lparr>irq_invoked := 0\<rparr>),
             dbind (dget irq_invoked) (\<lambda>v. set_nien channel v),
             lock_channels (dbind (channel_at channel) (\<lambda>c. ide_write E channel ATA_REG_CONTROL (ch_nien c))),
             dmod (\<lambda>s. s\<lparr>atapi_packet := 0x1B # replicate 11 0\<rparr>),
             ide_write E channel ATA_REG_HDDEVSEL (push_bit 4 (dev_drive d)),
             dfor (\<lambda>_. dbind (ide_read E channel ATA_REG_ALTSTATUS) (\<lambda>_. dret ())) [0..<4],
             ide_write E channel ATA_REG_COMMAND 0xA0]) (\<lambda>_.
           dbind (ide_polling E channel 1) (\<lambda>err.
           dbind (if err = 0
                  then dbind (outsw E bus 6 (\<lambda>i s. atapi_packet s ! i)) (\<lambda>_.
                       dbind (ide_wait_irq E) (\<lambda>_.
                       dbind (ide_polling E channel 1) (\<lambda>e. dret (if e = 3 then 0 else e))))
                  else dret err) (\<lambda>err'. fmt_error E drive err'))))))"

section \<open>Detection\<close>

definition ide_sleep :: "'hw ide_env \<Rightarrow> nat \<Rightarrow> ('hw ide, unit) drv" where
  "ide_sleep E ms = (\<lambda>s.
     case sleep_ms (ide_ticks E) ms (ide_loads s) of
       Panic e \<Rightarrow> Some (Panic e)
     | Ok None \<Rightarrow> None
     | Ok (Some k) \<Rightarrow> Some (Ok ((), s\<lparr>ide_loads := k\<rparr>)))"

definition set_device :: "nat \<Rightarrow> (ide_device \<Rightarrow> ide_device) \<Rightarrow> ('hw ide, unit) drv" where
  "set_device i f = dbind (dget ide_devices) (\<lambda>ds. dbind (dlift (store ds i (f (ds ! i)))) (\<lambda>ds'.
     dmod (\<lambda>s. s\<lparr>ide_devices := ds'\<rparr>)))"

definition buf16 :: "u8 list \<Rightarrow> nat \<Rightarrow> u16" where
  "buf16 b i = push_bit 8 (ucast (b ! (i + 1))) OR ucast (b ! i)"

definition buf32 :: "u8 list \<Rightarrow> nat \<Rightarrow> u32" where
  "buf32 b i = push_bit 16 (ucast (buf16 b (i + 2))) OR ucast (buf16 b i)"

text \<open>The status loop after \<open>IDENTIFY\<close>: an error, or data ready.\<close>

definition identify_status :: "'hw ide_env \<Rightarrow> u8 \<Rightarrow> ('hw ide, u8) drv" where
  "identify_status E i =
     dbind (dwait (ide_read E i ATA_REG_STATUS) (\<lambda>st. st AND ATA_SR_ERR \<noteq> 0 \<or> NOT st AND ATA_SR_BSY \<noteq> 0 \<and> st AND ATA_SR_DRQ \<noteq> 0)) (\<lambda>st.
       dret (if st AND ATA_SR_ERR \<noteq> 0 then 1 else 0))"

text \<open>
  \<open>slice::from_raw_parts_mut(IDE_BUF.lock().as_mut_ptr(), IDE_BUF.lock().len() / 4)\<close>: both guards are
  temporaries of one statement.
\<close>

definition read_identity :: "'hw ide_env \<Rightarrow> u8 \<Rightarrow> ('hw ide, unit) drv" where
  "read_identity E i = lock_buf (dbind (lock_buf (dget (\<lambda>s. length (ide_buf s) div 4))) (\<lambda>len.
     ide_read_buffer E i ATA_REG_DATA len 128))"

text \<open>The fields of a device from the identity block.\<close>

definition fill_device :: "u8 list \<Rightarrow> u8 \<Rightarrow> u8 \<Rightarrow> u8 \<Rightarrow> ide_device \<Rightarrow> ide_device" where
  "fill_device b typ i j d =
     d\<lparr>rsv0 := 1, dev_typ := ucast typ, dev_channel := i, dev_drive := j, dev_sig := buf16 b 0, capabilities := buf16 b 98,
       cmdsets := buf32 b 164,
       dev_sz := if buf32 b 164 AND push_bit 26 1 \<noteq> 0 then buf32 b 200 else buf32 b 120,
       dev_model := concat (map (\<lambda>k. [b ! (54 + 2 * k + 1), b ! (54 + 2 * k)]) [0..<20]) @ [0]\<rparr>"

text \<open>One position \<open>(i, j)\<close>; \<open>typ\<close> and \<open>count\<close> are variables of the whole loop.\<close>

definition detect :: "'hw ide_env \<Rightarrow> u8 \<Rightarrow> u8 \<Rightarrow> u8 \<times> nat \<Rightarrow> ('hw ide, u8 \<times> nat) drv" where
  "detect E i j = (\<lambda>(typ, count).
     dbind (dall [set_device count (\<lambda>d. d\<lparr>rsv0 := 0\<rparr>), ide_write E i ATA_REG_HDDEVSEL (0xA0 OR push_bit 4 j), ide_sleep E 1,
       ide_write E i ATA_REG_COMMAND 0xEC, ide_sleep E 1]) (\<lambda>_.
     dbind (ide_read E i ATA_REG_STATUS) (\<lambda>st.
       if st = 0 then dret (typ, count)
       else dbind (identify_status E i) (\<lambda>err.
         dbind (if err \<noteq> 0
                then dbind (ide_read E i ATA_REG_LBA1) (\<lambda>cl. dbind (ide_read E i ATA_REG_LBA2) (\<lambda>ch.
                  if cl = 0x14 \<and> ch = 0xEB \<or> cl = 0x69 \<and> ch = 0x96
                  then dbind (dall [ide_write E i ATA_REG_COMMAND 0xA1, ide_sleep E 1]) (\<lambda>_. dret (Some 1))
                  else dret None))
                else dret (Some typ)) (\<lambda>t.
           case t of
             None \<Rightarrow> dret (typ, count)
           | Some typ' \<Rightarrow>
               dbind (read_identity E i) (\<lambda>_.
               dbind (dget ide_buf) (\<lambda>b.
               dbind (set_device count (fill_device b typ' i j)) (\<lambda>_. dret (typ', count + 1)))))))))"

primrec detect_all :: "'hw ide_env \<Rightarrow> (u8 \<times> u8) list \<Rightarrow> u8 \<times> nat \<Rightarrow> ('hw ide, unit) drv" where
  "detect_all E [] tc = dret ()"
| "detect_all E (p # ps) tc = dbind (detect E (fst p) (snd p) tc) (\<lambda>tc'. detect_all E ps tc')"

definition report_drive :: "'hw ide_env \<Rightarrow> nat \<Rightarrow> ('hw ide, unit) drv" where
  "report_drive E i =
     dbind (dget ide_devices) (\<lambda>ds. dbind (dlift (index ds i)) (\<lambda>d.
       if rsv0 d = 1
       then (\<lambda>s. Some (rbind (info (ide_font E) [lit ''(ATA) Found '', if dev_typ d = 0 then lit ''ATA'' else lit ''ATAPI'',
              lit '' drive! Size: '', decimal (unat (dev_sz d div 1024 div 1024 div 2)), lit ''GB, Model: '', name_as_string (dev_model d)]
              (ide_con s)) (\<lambda>c. Ok ((), s\<lparr>ide_con := c\<rparr>))))
       else dret ()))"

text \<open>
  \<open>init_ide\<close>: \<open>bar4\<close> is the result of reading the register, and \<open>map_bar\<close> stands for the allocation of a frame
  and the mapping of BAR4, which panic when they fail. The guard \<open>channels\<close> is a variable of the function.
\<close>

definition init_ide :: "'hw ide_env \<Rightarrow> usize \<Rightarrow> (u64 \<Rightarrow> unit res) \<Rightarrow> pci_device \<Rightarrow> ('hw ide, unit) drv" where
  "init_ide E ecam map_bar dev =
     dbind (\<lambda>s. Some (rbind (bar_address (ide_machine E) ecam dev 4 (ide_hw s)) (\<lambda>(r, hw).
         rbind (expect ''called `Option::unwrap()` on a `None` value'' r) (\<lambda>a. Ok (a, s\<lparr>ide_hw := hw\<rparr>))))) (\<lambda>bar.
     dbind (dlift (map_bar bar)) (\<lambda>_.
     lock_channels (dall
       [dmod (\<lambda>s. s\<lparr>channels := channels s @ replicate 2 \<lparr>ch_base = 0, ch_ctrl = 0, ch_bmide = 0, ch_nien = 0\<rparr>\<rparr>),
        dmod (\<lambda>s. s\<lparr>channels := (channels s)[0 := (channels s ! 0)\<lparr>ch_base := 0x1F0, ch_ctrl := 0x3F6\<rparr>]\<rparr>),
        dmod (\<lambda>s. s\<lparr>channels := (channels s)[1 := (channels s ! 1)\<lparr>ch_base := 0x170, ch_ctrl := 0x376\<rparr>]\<rparr>),
        dbind (\<lambda>s. Some (rbind (read_bar (ide_machine E) ecam dev 4 (ide_hw s)) (\<lambda>(r, hw).
            rbind (expect ''called `Option::unwrap()` on a `None` value'' r) (\<lambda>b. Ok (fst b, s\<lparr>ide_hw := hw\<rparr>))))) (\<lambda>low.
          let bar4 = ucast (low AND 0xFFFFFFFC) :: u16
          in dmod (\<lambda>s. s\<lparr>channels := (channels s)[0 := (channels s ! 0)\<lparr>ch_bmide := bar4\<rparr>, 1 := (channels s ! 1)\<lparr>ch_bmide := bar4 + 8\<rparr>]\<rparr>)),
        ide_write E 0 ATA_REG_CONTROL 2,
        ide_write E 1 ATA_REG_CONTROL 2,
        detect_all E [(0, 0), (0, 1), (1, 0), (1, 1)] (0, 0),
        dfor (report_drive E) [0..<4]])))"

section \<open>What never returns\<close>

lemma returns_locked: "returns (lock_channels m) s \<Longrightarrow> \<not> channels_held s \<and> returns m (s\<lparr>channels_held := True\<rparr>)"
  by (cases "channels_held s")
    (auto simp: lock_channels_def returns_def drv dbind_def split: option.splits res.splits)

lemma stuck_locked: "(channels_held s \<or> \<not> returns m (s\<lparr>channels_held := True\<rparr>)) \<Longrightarrow> \<not> returns (lock_channels m) s"
  using returns_locked by blast

lemma channel_at_run: "channel_at channel s = Some (Ok (c, s')) \<longleftrightarrow> unat channel < length (channels s) \<and> c = channels s ! unat channel \<and> s' = s"
  by (auto simp: channel_at_def dbind_def dget_def dlift_def index_def)

lemma lock_channel_at_run: "lock_channels (channel_at channel) s = Some (Ok (c, s')) \<longleftrightarrow>
    \<not> channels_held s \<and> unat channel < length (channels s) \<and> c = channels s ! unat channel \<and> s' = s\<lparr>channels_held := False\<rparr>"
  by (cases "channels_held s") (auto simp: lock_channels_def channel_at_def drv index_def)

lemma write_port_held: "channels_held s \<Longrightarrow> reg < 0x16 \<Longrightarrow> \<not> returns (write_port E channel reg data) s"
  by (simp add: write_port_def stuck_locked)

lemma write_control_never: "\<not> returns (write_control E channel flags) s"
  unfolding write_control_def
  by (rule stuck_locked, rule disjI2, rule stuck_then) (auto simp: channel_at_run write_port_held)

lemma ide_write_extended: "extended reg \<Longrightarrow> \<not> returns (ide_write E channel reg data) s"
  by (simp add: ide_write_def stuck_first write_control_never)

lemma ide_read_extended: "extended reg \<Longrightarrow> \<not> returns (ide_read E channel reg) s"
  by (simp add: ide_read_def stuck_first write_control_never)

lemma ide_write_held: "channels_held s \<Longrightarrow> reg < 0x16 \<Longrightarrow> \<not> returns (ide_write E channel reg data) s"
  unfolding ide_write_def dall.simps
  by (cases "extended reg")
    (auto simp: stuck_first write_control_never write_port_held drv intro!: stuck_then [OF stuck_first])

lemma ide_irq_never: "irq_invoked s \<in> {0, 1} \<Longrightarrow> \<not> returns (ide_wait_irq E) s"
proof -
  assume "irq_invoked s \<in> {0, 1}"
  then have "dwait (irq_look E) (\<lambda>v. NOT v = 0) s = None"
    by (rule dwait_forever [where I = "\<lambda>s. irq_invoked s \<in> {0, 1}"]) (auto simp: irq_look_def drv Let_def)
  then show ?thesis by (simp add: returns_def ide_wait_irq_def dbind_def)
qed

lemma ata_program_never: "fst regs = 2 \<Longrightarrow> \<not> returns (ata_program E direction channel childbit numsects regs) s"
proof -
  assume m: "fst regs = 2"
  have ext: "extended ATA_REG_SECCOUNT1" by (simp add: extended_def)
  show ?thesis using m unfolding ata_program_def
    by (auto simp: split_beta intro!: stuck_then [OF stuck_first] stuck_first [OF ide_write_extended [OF ext]])
qed

text \<open>
  C38. Where the driver waits for a lock that it holds itself: writing or reading one of the registers 8 to 11,
  an access to a sector beyond the 28-bit range, reading from an ATAPI drive and the initialisation of the
  driver never return, in any state and on any machine. Neither does the wait for an interrupt, even when
  the interrupt comes.
\<close>

theorem ide_never_returns:
  "(extended reg \<longrightarrow> \<not> returns (ide_write E channel reg data) s \<and> \<not> returns (ide_read E channel reg) s) \<and>
   (0x10000000 \<le> lba \<longrightarrow> \<not> returns (ide_ata_access E direction drive lba numsects sel edi) s) \<and>
   \<not> returns (ide_atapi_read E drive lba numsects sel edi) s \<and>
   \<not> returns (init_ide E ecam map_bar dev) s \<and>
   (irq_invoked s \<in> {0, 1} \<longrightarrow> \<not> returns (ide_wait_irq E) s)"
proof -
  have mode: "lba_registers lba caps = Ok regs \<Longrightarrow> fst regs = 2" if "0x10000000 \<le> lba" for caps regs
    using that by (auto simp: lba_registers_def)
  have prog: False if "0x10000000 \<le> lba" "lba_registers lba caps = Ok regs"
    "ata_program E direction channel childbit numsects regs s1 = Some (Ok r)" for caps regs channel childbit s1 r
    using ata_program_never [OF mode [OF that(1,2)], of E direction channel childbit numsects s1] that(3) unfolding returns_def by blast
  have "\<not> returns (ide_ata_access E direction drive lba numsects sel edi) s" if "0x10000000 \<le> lba"
    unfolding ide_ata_access_def Let_def
    by (rule stuck_then)+ (simp only: dlift_Ok_iff, blast dest: prog [OF that])
  moreover have "\<not> returns (ide_atapi_read E drive lba numsects sel edi) s"
    unfolding ide_atapi_read_def Let_def dall.simps
    by (rule stuck_then, rule stuck_then, rule stuck_first, rule stuck_then, rule stuck_first, rule stuck_locked, rule disjI2)
      (auto simp: lock_channel_at_run returns_dbind drv ide_write_held)
  moreover have "\<not> returns (init_ide E ecam map_bar dev) s"
    unfolding init_ide_def dall.simps Let_def
    by (rule stuck_then, rule stuck_then, rule stuck_locked, rule disjI2,
        rule stuck_then, rule stuck_then, rule stuck_then, rule stuck_then, rule stuck_first, rule ide_write_held)
      (auto simp: drv dbind_def res_iff split: option.splits res.splits)
  ultimately show ?thesis using ide_write_extended ide_read_extended ide_irq_never by blast
qed

definition demo_ide_env :: "(u16 \<times> u8) list ide_env" where
  "demo_ide_env = \<lparr>ide_machine = inert_machine\<lparr>port_in8 := \<lambda>hw p. (0x48, hw), port_out8 := \<lambda>hw p v. hw @ [(p, v)]\<rparr>,
     ide_font = demo_font, ide_loc = \<lambda>_. [], ide_ticks = \<lambda>_. 0, ide_ready = \<lambda>_. True\<rparr>"

definition demo_ide :: "(u16 \<times> u8) list ide" where
  "demo_ide = \<lparr>channels = [\<lparr>ch_base = 0x1F0, ch_ctrl = 0x3F6, ch_bmide = 0, ch_nien = 0\<rparr>], channels_held = False, ide_buf = replicate 2048 0,
     buf_held = False, irq_invoked = 0, irq_loads = 0, atapi_packet = replicate 12 0,
     ide_devices = [\<lparr>rsv0 = 1, dev_channel = 0, dev_drive = 1, dev_typ = 0, dev_sig = 0, capabilities = 0x200, cmdsets = 0,
       dev_sz = 0x1000000, dev_model = []\<rparr>], ide_mem = \<lambda>_. 0, ide_con = \<lparr>con_tty = None, con_serial = []\<rparr>, ide_loads = 0, ide_hw = []\<rparr>"

theorem ide_never_returns_witness:
  "\<not> returns (ide_write demo_ide_env 0 ATA_REG_SECCOUNT1 0) demo_ide \<and>
   \<not> returns (ide_ata_access demo_ide_env 1 0 0x10000000 1 0 0x5000) demo_ide \<and>
   \<not> returns (ide_wait_irq demo_ide_env) demo_ide"
  using ide_never_returns [of 8 demo_ide_env 0 0 demo_ide "0x10000000" 1 0 1 0 "0x5000"]
  by (simp add: extended_def demo_ide_def)

section \<open>Sector addresses\<close>


lemma lba_bytes:
  fixes w :: u32
  shows "unat (ucast (w AND 0xFF) :: u8) = unat w mod 256"
    "unat (ucast (drop_bit 8 (w AND 0xFF00)) :: u8) = unat w div 256 mod 256"
    "unat (ucast (drop_bit 16 (w AND 0xFF0000)) :: u8) = unat w div 65536 mod 256"
    "unat (ucast (drop_bit 24 (w AND 0xFF000000)) :: u8) = unat w div 16777216"
    "unat (ucast (drop_bit 24 (w AND 0xF000000)) :: u8) = unat w div 16777216 mod 16"
proof -
  have m: "unat (ucast x :: u8) = unat x mod 256" for x :: u32 by (simp add: unat_ucast_mod)
  have "(ucast (w AND 0xFF) :: u8) = ucast w" "(ucast (drop_bit 8 (w AND 0xFF00)) :: u8) = ucast (drop_bit 8 w)"
    "(ucast (drop_bit 16 (w AND 0xFF0000)) :: u8) = ucast (drop_bit 16 w)"
    "(ucast (drop_bit 24 (w AND 0xFF000000)) :: u8) = ucast (drop_bit 24 w)"
    by (simp_all add: bits_listed bit_simps)
  note b = this
  show "unat (ucast (w AND 0xFF) :: u8) = unat w mod 256" unfolding b m by simp
  show "unat (ucast (drop_bit 8 (w AND 0xFF00)) :: u8) = unat w div 256 mod 256" unfolding b m unat_drop_bit by simp
  show "unat (ucast (drop_bit 16 (w AND 0xFF0000)) :: u8) = unat w div 65536 mod 256" unfolding b m unat_drop_bit by simp
  have "unat w < 4294967296" using unsigned_less [of w, where 'a = nat] by simp
  then show "unat (ucast (drop_bit 24 (w AND 0xFF000000)) :: u8) = unat w div 16777216" unfolding b m unat_drop_bit by simp
  have "(ucast (drop_bit 24 (w AND 0xF000000)) :: u8) = take_bit 4 (ucast (drop_bit 24 w))"
    by (simp add: bits_listed bit_simps)
  then have "unat (ucast (drop_bit 24 (w AND 0xF000000)) :: u8) = unat (ucast (drop_bit 24 w) :: u8) mod 16"
    by (simp add: take_bit_eq_mod unat_mod)
  also have "\<dots> = unat w div 16777216 mod 256 mod 16" unfolding m unat_drop_bit by simp
  also have "\<dots> = unat w div 16777216 mod 16" by (simp add: mod_mod_cancel)
  finally show "unat (ucast (drop_bit 24 (w AND 0xF000000)) :: u8) = unat w div 16777216 mod 16" .
qed

lemma cyl_bytes:
  fixes c :: u16
  shows "unat (ucast (c AND 0xFF) :: u8) + 256 * unat (ucast (drop_bit 8 c AND 0xFF) :: u8) = unat c"
proof -
  have "(ucast (c AND 0xFF) :: u8) = ucast c" "(ucast (drop_bit 8 c AND 0xFF) :: u8) = ucast (drop_bit 8 c)"
    by (simp_all add: bits_listed bit_simps)
  moreover have "unat c div 256 < 256" using unsigned_less [of c, where 'a = nat] by simp
  ultimately show ?thesis by (simp add: unat_ucast_mod unat_drop_bit)
qed

lemma split_bytes: "(n :: nat) mod 256 + 256 * (n div 256 mod 256) + 65536 * (n div 65536 mod 256) + 16777216 * (n div 16777216) = n"
proof -
  have "n div 256 div 256 = n div 65536" "n div 65536 div 256 = n div 16777216" by (simp_all add: div_mult2_eq [symmetric])
  then show ?thesis
    using div_mult_mod_eq [of n 256] div_mult_mod_eq [of "n div 256" 256] div_mult_mod_eq [of "n div 65536" 256] by linarith
qed

text \<open>What the drive makes of the registers, by the addressing of the mode.\<close>

definition sector_of :: "u8 \<times> u8 list \<times> u8 \<Rightarrow> nat" where
  "sector_of r = (case r of (lba_mode, io, head) \<Rightarrow>
     if lba_mode = 0 then ((unat (io ! 1) + 256 * unat (io ! 2)) * 16 + unat head) * 63 + unat (io ! 0) - 1
     else if lba_mode = 1 then unat (io ! 0) + 256 * unat (io ! 1) + 65536 * unat (io ! 2) + 16777216 * unat head
     else unat (io ! 0) + 256 * unat (io ! 1) + 65536 * unat (io ! 2) + 16777216 * unat (io ! 3))"

lemma chs_registers:
  assumes "lba < 0x10000000" "caps AND 0x200 = 0"
  shows "\<exists>io head. lba_registers lba caps = Ok (0, io, head) \<and> unat (io ! 0) = unat lba mod 63 + 1 \<and>
    unat (io ! 1) + 256 * unat (io ! 2) = unat lba div 1008 mod 65536 \<and> unat head = unat lba mod 1008 div 63"
proof -
  let ?l = "unat lba"
  have l: "?l < 268435456" using assms(1) by (simp add: word_less_nat_alt)
  have m63: "unat (lba mod 63) = ?l mod 63" by (simp add: unat_mod)
  then have s1: "wadd (lba mod 63) 1 = Ok (lba mod 63 + 1)" "unat (lba mod 63 + 1) = ?l mod 63 + 1"
    using wadd_unat [of "lba mod 63" 1] by simp_all
  let ?s = "ucast (lba mod 63 + 1) :: u8"
  have us: "unat ?s = ?l mod 63 + 1" "unat (ucast ?s :: u32) = ?l mod 63 + 1" using s1(2) by (simp_all add: unat_ucast_mod)
  have l1: "wadd lba 1 = Ok (lba + 1)" "unat (lba + 1) = ?l + 1" using l wadd_unat [of lba 1] by simp_all
  have l2: "wsub (lba + 1) (ucast ?s) = Ok (lba + 1 - ucast ?s)" "unat (lba + 1 - ucast ?s) = ?l - ?l mod 63"
    using wsub_unat [of "ucast ?s" "lba + 1"] us l1(2) by simp_all
  let ?c = "ucast ((lba + 1 - ucast ?s) div (16 * 63)) :: u16"
  have "?l - ?l mod 63 = ?l div 63 * 63" by (metis minus_mod_eq_div_mult)
  then have "(?l - ?l mod 63) div 1008 = ?l div 63 div 16" "(?l - ?l mod 63) mod 1008 div 63 = ?l div 63 mod 16"
    using div_mult2_eq [of "?l div 63 * 63" 63 16] mod_mult2_eq [of "?l div 63 * 63" 63 16] by simp_all
  moreover have "?l div 63 div 16 = ?l div 1008" "?l div 63 mod 16 = ?l mod 1008 div 63"
    using div_mult2_eq [of ?l 63 16] mod_mult2_eq [of ?l 63 16] by simp_all
  ultimately have c: "unat ?c = ?l div 1008 mod 65536" and h: "unat ((lba + 1 - ucast ?s) mod (16 * 63) div 63) = ?l mod 1008 div 63"
    using l2(2) by (simp_all add: unat_ucast_mod unat_div unat_mod)
  have "lba_registers lba caps = Ok (0, [?s, ucast (?c AND 0xFF), ucast (drop_bit 8 ?c AND 0xFF), 0, 0, 0],
      ucast ((lba + 1 - ucast ?s) mod (16 * 63) div 63))"
    using assms s1(1) l1(1) l2(1) by (simp add: lba_registers_def Let_def linorder_not_less [symmetric])
  moreover have "?l mod 1008 div 63 < 256" using mod_less_divisor [of 1008 ?l] by linarith
  then have "unat (ucast ((lba + 1 - ucast ?s) mod (16 * 63) div 63) :: u8) = ?l mod 1008 div 63"
    unfolding unat_ucast_mod h by simp
  ultimately show ?thesis using us(1) c cyl_bytes [of ?c] by simp
qed

text \<open>
  C37. The registers address the sector that was asked for: in each of the three modes, decoding the register
  values by the rules of that mode gives back the number of the sector, for every sector that the mode can
  address (cylinders, heads and sectors reach 65536 cylinders of 16 heads and 63 sectors).
\<close>

theorem lba_registers_address:
  "\<exists>r. lba_registers lba caps = Ok r \<and>
     (fst r \<noteq> 0 \<or> unat lba < 65536 * 1008 \<longrightarrow> sector_of r = unat lba) \<and>
     fst r = (if 0x10000000 \<le> lba then 2 else if caps AND 0x200 \<noteq> 0 then 1 else 0) \<and>
     (fst r \<noteq> 2 \<longrightarrow> unat (snd (snd r)) < 16)"
proof -
  have l: "lba < 0x10000000 \<Longrightarrow> unat lba < 268435456" by (simp add: word_less_nat_alt)
  consider "0x10000000 \<le> lba" | "lba < 0x10000000" "caps AND 0x200 \<noteq> 0" | "lba < 0x10000000" "caps AND 0x200 = 0"
    by fastforce
  then show ?thesis
  proof cases
    case 1
    have "unat lba div 16777216 < 256" using unsigned_less [of lba, where 'a = nat] by simp
    with 1 show ?thesis using split_bytes [of "unat lba"]
      by (simp add: lba_registers_def sector_of_def lba_bytes unat_drop_bit)
  next
    case 2
    then have "unat lba div 16777216 mod 16 = unat lba div 16777216" using l by simp
    moreover have "unat lba div 16777216 mod 16 < 16" by simp
    ultimately show ?thesis using 2 split_bytes [of "unat lba"] lba_bytes(5) [of lba]
      by (simp add: lba_registers_def sector_of_def lba_bytes unat_drop_bit linorder_not_less [symmetric])
  next
    case 3
    from chs_registers [OF this] obtain io head where r: "lba_registers lba caps = Ok (0, io, head)"
      "unat (io ! 0) = unat lba mod 63 + 1" "unat (io ! 1) + 256 * unat (io ! 2) = unat lba div 1008 mod 65536"
      "unat head = unat lba mod 1008 div 63" by blast
    have "unat lba mod 1008 div 63 < 16" using mod_less_divisor [of 1008 "unat lba"] by linarith
    moreover have "(unat lba div 1008 * 16 + unat lba mod 1008 div 63) * 63 + unat lba mod 63 = unat lba"
      using mod_mult2_eq [of "unat lba" 63 16] div_mult2_eq [of "unat lba" 63 16] div_mult_mod_eq [of "unat lba" 63]
        div_mult_mod_eq [of "unat lba div 63" 16] by simp
    moreover have "unat lba div 1008 mod 65536 = unat lba div 1008" if "unat lba < 65536 * 1008"
      using that by (simp add: less_mult_imp_div_less)
    moreover have "sector_of (0, io, head) =
        (unat lba div 1008 mod 65536 * 16 + unat lba mod 1008 div 63) * 63 + (unat lba mod 63 + 1) - 1"
      by (simp only: sector_of_def prod.case if_True refl r(2-4))
    ultimately show ?thesis using 3 r(1,4) by (simp add: linorder_not_less [symmetric])
  qed
qed

theorem lba_registers_address_witness:
  "\<exists>r. lba_registers 123456 0 = Ok r \<and> sector_of r = 123456"
  using lba_registers_address [of 123456 0] by auto

section \<open>Transfers that move nothing\<close>

text \<open>A drive that is ready, and reads of registers that change nothing.\<close>

definition ready_channel :: "'hw machine \<Rightarrow> u16 \<Rightarrow> bool" where
  "ready_channel H base \<longleftrightarrow> (\<forall>hw p. snd (port_in8 H hw p) = hw) \<and>
     (\<forall>hw. let st = fst (port_in8 H hw (base + 7))
       in st AND ATA_SR_BSY = 0 \<and> st AND ATA_SR_DF = 0 \<and> st AND ATA_SR_ERR = 0 \<and> st AND ATA_SR_DRQ \<noteq> 0)"

text \<open>A state in which a channel can be used.\<close>

definition channel_ok :: "u8 \<Rightarrow> u16 \<Rightarrow> 'hw ide \<Rightarrow> bool" where
  "channel_ok channel base s \<longleftrightarrow> \<not> channels_held s \<and> unat channel < length (channels s) \<and>
     ch_base (channels s ! unat channel) = base \<and> unat base + 12 < 65536"

lemma unheld: "\<not> channels_held s \<Longrightarrow> s\<lparr>channels_held := False\<rparr> = s"
  by (cases s) simp

lemma base_port_plain:
  assumes "unat (ch_base c) + 12 < 65536"
  shows "reg < 8 \<Longrightarrow> base_port c reg = Ok (Some (ch_base c + ucast reg))" "base_port c 0xC = Ok (Some (ch_base c + 2))"
proof -
  assume "reg < 8"
  then have "unat reg < 8" by (simp add: word_less_nat_alt)
  then have "unat (ucast reg :: u16) < 8" by (simp add: unat_ucast_mod)
  with assms \<open>reg < 8\<close> show "base_port c reg = Ok (Some (ch_base c + ucast reg))"
    by (simp add: base_port_def wadd_unat)
next
  have "wadd (ch_base c) 0xC = Ok (ch_base c + 0xC)" "unat (ch_base c + 0xC) = unat (ch_base c) + 12"
    using wadd_unat [of "ch_base c" "0xC"] assms by simp_all
  moreover from this wsub_unat [of "0xA" "ch_base c + 0xC"] have "wsub (ch_base c + 0xC) 0xA = Ok (ch_base c + 0xC - 0xA)" by simp
  moreover have "ch_base c + 0xC - 0xA = ch_base c + 2" by simp
  ultimately show "base_port c 0xC = Ok (Some (ch_base c + 2))" by (simp add: base_port_def)
qed

lemma ide_write_run:
  assumes "channel_ok channel base s" "reg < 8 \<and> p = base + ucast reg \<or> reg = 0xC \<and> p = base + 2"
  shows "ide_write E channel reg data s = Some (Ok ((), s\<lparr>ide_hw := port_out8 (ide_machine E) (ide_hw s) p data\<rparr>))"
proof -
  let ?c = "channels s ! unat channel"
  have c: "unat channel < length (channels s)" "\<not> channels_held s" "ch_base ?c = base" "unat (ch_base ?c) + 12 < 65536"
    using assms(1) by (auto simp: channel_ok_def)
  have "\<not> extended reg" "reg < 0x16" and p: "base_port ?c reg = Ok (Some p)"
    using assms(2) base_port_plain [OF c(4)] c(3) by (auto simp: extended_def word_less_nat_alt)
  with c show ?thesis
    by (auto simp: ide_write_def write_port_def lock_channels_def channel_at_def out8_def drv unheld)
qed

lemma ide_read_run:
  assumes "channel_ok channel base s" "\<forall>hw p. snd (port_in8 (ide_machine E) hw p) = hw"
    and "reg < 8 \<and> p = base + ucast reg \<or> reg = 0xC \<and> p = base + 2"
  shows "ide_read E channel reg s = Some (Ok (fst (port_in8 (ide_machine E) (ide_hw s) p), s))"
proof -
  let ?c = "channels s ! unat channel"
  have c: "unat channel < length (channels s)" "\<not> channels_held s" "ch_base ?c = base" "unat (ch_base ?c) + 12 < 65536"
    using assms(1) by (auto simp: channel_ok_def)
  have "\<not> extended reg" "reg < 0x16" and p: "base_port ?c reg = Ok (Some p)"
    using assms(3) base_port_plain [OF c(4)] c(3) by (auto simp: extended_def word_less_nat_alt)
  with c assms(2) show ?thesis
    by (auto simp: ide_read_def lock_channels_def channel_at_def in8_def drv unheld split_beta Let_def)
qed

lemma channel_ok_hw [simp]: "channel_ok channel base (s\<lparr>ide_hw := hw\<rparr>) \<longleftrightarrow> channel_ok channel base s"
  by (simp add: channel_ok_def)

lemma ready_wait:
  assumes "ready_channel (ide_machine E) base" "channel_ok channel base s"
  shows "dwait (ide_read E channel ATA_REG_STATUS) (\<lambda>st. st AND ATA_SR_BSY = 0) s =
    Some (Ok (fst (port_in8 (ide_machine E) (ide_hw s) (base + 7)), s))"
proof (rule dwait_stops)
  show "ide_read E channel ATA_REG_STATUS s = Some (Ok (fst (port_in8 (ide_machine E) (ide_hw s) (base + 7)), s))"
    using assms by (intro ide_read_run) (auto simp: ready_channel_def)
  show "fst (port_in8 (ide_machine E) (ide_hw s) (base + 7)) AND ATA_SR_BSY = 0"
    using assms(1) by (simp add: ready_channel_def Let_def)
qed

lemma ready_polling:
  assumes "ready_channel (ide_machine E) base" "channel_ok channel base s"
  shows "ide_polling E channel 1 s = Some (Ok (0, s))"
proof -
  have alt: "ide_read E channel ATA_REG_ALTSTATUS s = Some (Ok (fst (port_in8 (ide_machine E) (ide_hw s) (base + 2)), s))"
    using assms by (intro ide_read_run) (auto simp: ready_channel_def)
  then have "dfor (\<lambda>_. dbind (ide_read E channel ATA_REG_ALTSTATUS) (\<lambda>_. dret ())) xs s = Some (Ok ((), s))" for xs :: "nat list"
    by (induction xs) (simp_all add: dbind_run(1) drv)
  moreover have "ide_read E channel ATA_REG_STATUS s = Some (Ok (fst (port_in8 (ide_machine E) (ide_hw s) (base + 7)), s))"
    using assms by (intro ide_read_run) (auto simp: ready_channel_def)
  ultimately show ?thesis using assms(1) ready_wait [OF assms]
    by (simp add: ide_polling_def dbind_run(1) drv ready_channel_def Let_def)
qed

text \<open>The writes of one access, in order.\<close>

definition access_writes :: "u16 \<Rightarrow> u8 \<Rightarrow> u8 \<Rightarrow> u32 \<Rightarrow> (u16 \<times> u8) list" where
  "access_writes base childbit numsects lba =
     [(base + 2, 2), (base + 6, 0xE0 OR push_bit 4 childbit OR ucast (drop_bit 24 (lba AND 0xF000000))), (base + 2, numsects),
      (base + 3, ucast (lba AND 0xFF)), (base + 4, ucast (drop_bit 8 (lba AND 0xFF00))),
      (base + 5, ucast (drop_bit 16 (lba AND 0xFF0000))), (base + 7, 0x20)]"

lemma ata_read_ready:
  fixes E :: "'hw ide_env"
  assumes ready: "ready_channel (ide_machine E) base" and c: "channel_ok (dev_channel d) base s"
    and d: "ide_device_at drive s = Some (Ok (d, s))" and lba: "lba < 0x10000000" "capabilities d AND 0x200 \<noteq> 0"
  shows "\<exists>s'. ide_ata_access E 0 drive lba numsects sel edi s = Some (Ok (0, s')) \<and>
    ide_mem s' = ide_mem s \<and> ide_devices s' = ide_devices s \<and>
    ide_hw s' = fold (\<lambda>(p, v) hw. port_out8 (ide_machine E) hw p v) (access_writes base (dev_drive d) numsects lba) (ide_hw s)"
proof -
  let ?ch = "dev_channel d"
  have ch: "lock_channels (channel_at ?ch) s = Some (Ok (channels s ! unat ?ch, s))"
    using c by (simp add: lock_channel_at_run channel_ok_def unheld)
  define s1 where "s1 = s\<lparr>irq_invoked := 0, channels := (channels s)[unat ?ch := (channels s ! unat ?ch)\<lparr>ch_nien := 2\<rparr>]\<rparr>"
  have s1: "set_nien ?ch 2 (s\<lparr>irq_invoked := 0\<rparr>) = Some (Ok ((), s1))"
    using c by (cases s) (simp add: set_nien_def lock_channels_def channel_at_def drv channel_ok_def s1_def)
  have c1: "channel_ok ?ch base s1" using c by (simp add: channel_ok_def s1_def)
  define rec where "rec = (1 :: u8, [ucast (lba AND 0xFF), ucast (drop_bit 8 (lba AND 0xFF00)), ucast (drop_bit 16 (lba AND 0xFF0000)), 0, 0, 0 :: u8],
        ucast (drop_bit 24 (lba AND 0xF000000)) :: u8)"
  have regs: "lba_registers lba (capabilities d) = Ok rec"
    using lba by (simp add: lba_registers_def rec_def linorder_not_less [symmetric])
  have W: "dbind (ide_write E ?ch reg v) f s' = f () (s'\<lparr>ide_hw := port_out8 (ide_machine E) (ide_hw s') (base + ucast reg) v\<rparr>)"
    if "channel_ok ?ch base s'" "reg < 8" for reg v s' and f :: "unit \<Rightarrow> ('hw ide, 'b) drv"
    using that by (intro dbind_run(1) ide_write_run) auto
  have C: "dbind (ide_write E ?ch 0xC v) f s' = f () (s'\<lparr>ide_hw := port_out8 (ide_machine E) (ide_hw s') (base + 2) v\<rparr>)"
    if "channel_ok ?ch base s'" for v s' and f :: "unit \<Rightarrow> ('hw ide, 'b) drv"
    using that by (intro dbind_run(1) ide_write_run) auto
  have P: "dbind (ide_polling E ?ch 1) f s' = f 0 s'" if "channel_ok ?ch base s'" for s' and f :: "u8 \<Rightarrow> ('hw ide, 'b) drv"
    using ready_polling [OF ready that] by (rule dbind_run(1))
  have B: "dbind (dwait (ide_read E ?ch ATA_REG_STATUS) (\<lambda>st. st AND ATA_SR_BSY = 0)) f s' = f (fst (port_in8 (ide_machine E) (ide_hw s') (base + 7))) s'"
    if "channel_ok ?ch base s'" for s' and f :: "u8 \<Rightarrow> ('hw ide, 'b) drv"
    using ready_wait [OF ready that] by (rule dbind_run(1))
  have R: "ata_read_sectors E ?ch bus n edi s' = Some (Ok (if n = 0 then None else Some 0, s'))" if "channel_ok ?ch base s'" for bus n s'
    using that by (cases n) (simp_all add: P drv)
  define s2 where "s2 = s1\<lparr>ide_hw := fold (\<lambda>(p, v) hw. port_out8 (ide_machine E) hw p v) (access_writes base (dev_drive d) numsects lba) (ide_hw s1)\<rparr>"
  have prog: "ata_program E 0 ?ch (dev_drive d) numsects rec (s1\<lparr>ide_hw := port_out8 (ide_machine E) (ide_hw s1) (base + 2) 2\<rparr>) =
      Some (Ok ((), s2))"
    by (simp add: rec_def ata_program_def W drv c1 ata_command_def access_writes_def s2_def)
  have c2: "channel_ok ?ch base s2" using c1 by (simp add: s2_def)
  have "ide_ata_access E 0 drive lba numsects sel edi s = Some (Ok (0, s2))"
    unfolding ide_ata_access_def Let_def dbind_run(1) [of "ide_device_at drive" s, OF d] dbind_run(1) [of "lock_channels (channel_at ?ch)" s, OF ch]
    by (simp add: drv wadd_def dbind_run(1) [of "set_nien ?ch 2", OF s1] C c1 regs B
        dbind_run(1) [of "ata_program E 0 ?ch (dev_drive d) numsects rec", OF prog]
        dbind_run(1) [of "ata_read_sectors E ?ch bus n edi" for bus n, OF R [OF c2]])
  then show ?thesis by (simp add: s2_def s1_def)
qed

text \<open>
  A transfer that succeeds moves no data: on a drive that is ready, with 28-bit addresses, reading and
  writing sectors within the drive both return 0, leave memory as it was and make exactly the same register
  writes, ending in the command that reads sectors; not one word is taken from or given to the drive.
\<close>

theorem ready_transfers_move_nothing:
  assumes "ready_channel (ide_machine E) base" "channel_ok (dev_channel d) base s"
    and "drive \<le> 3" "unat drive < length (ide_devices s)" "ide_devices s ! unat drive = d" "rsv0 d \<noteq> 0" "dev_typ d = 0"
    and "capabilities d AND 0x200 \<noteq> 0" "lba < 0x10000000" "unat lba + unat numsects \<le> unat (dev_sz d)"
    and "op \<in> {ide_read_sectors, ide_write_sectors}"
  shows "\<exists>s'. op E drive numsects lba es edi s = Some (Ok (0, s')) \<and> ide_mem s' = ide_mem s \<and>
    ide_hw s' = fold (\<lambda>(p, v) hw. port_out8 (ide_machine E) hw p v) (access_writes base (dev_drive d) numsects lba) (ide_hw s)"
proof -
  have at: "ide_device_at drive s = Some (Ok (d, s))" using assms(4,5) by (simp add: ide_device_at_def drv)
  obtain s' where s': "ide_ata_access E 0 drive lba numsects es edi s = Some (Ok (0, s'))" "ide_mem s' = ide_mem s"
    "ide_hw s' = fold (\<lambda>(p, v) hw. port_out8 (ide_machine E) hw p v) (access_writes base (dev_drive d) numsects lba) (ide_hw s)"
    using ata_read_ready [OF assms(1,2) at assms(9,8)] by blast
  have "unat (ucast numsects :: u32) = unat numsects"
    using unsigned_less [of numsects, where 'a = nat] by (simp add: unat_ucast_mod)
  moreover have "unat lba + unat numsects < 4294967296"
    using assms(10) unsigned_less [of "dev_sz d", where 'a = nat] by simp
  ultimately have "wadd lba (ucast numsects) = Ok (lba + ucast numsects)" "\<not> dev_sz d < lba + ucast numsects"
    using wadd_unat [of lba "ucast numsects"] assms(10) by (simp_all add: word_less_nat_alt)
  then have "sectors_guard drive numsects lba s = Some (Ok (None, s))"
    using assms(3,6) by (simp add: sectors_guard_def drv linorder_not_less dbind_run(1) [of "ide_device_at drive" s, OF at])
  note guard = dbind_run(1) [of "sectors_guard drive numsects lba" s, OF this]
  have "op E drive numsects lba es edi s = Some (Ok (0, s'))"
    using assms(7,11)
    by (auto simp: ide_read_sectors_def ide_write_sectors_def fmt_error_def drv guard dbind_run(1) [of "ide_device_at drive" s, OF at]
        dbind_run(1) [of "ide_ata_access E 0 drive lba numsects es edi" s, OF s'(1)])
  with s'(2,3) show ?thesis by blast
qed

theorem ready_transfers_move_nothing_witness:
  "\<exists>s'. ide_write_sectors demo_ide_env 0 3 0x123456 0 0x5000 demo_ide = Some (Ok (0, s')) \<and>
     ide_hw s' = [(0x1F2, 2), (0x1F6, 0xF0), (0x1F2, 3), (0x1F3, 0x56), (0x1F4, 0x34), (0x1F5, 0x12), (0x1F7, 0x20)]"
proof -
  let ?d = "ide_devices demo_ide ! 0"
  have "\<exists>s'. ide_write_sectors demo_ide_env 0 3 0x123456 0 0x5000 demo_ide = Some (Ok (0, s')) \<and> ide_mem s' = ide_mem demo_ide \<and>
    ide_hw s' = fold (\<lambda>(p, v) hw. port_out8 (ide_machine demo_ide_env) hw p v) (access_writes 0x1F0 (dev_drive ?d) 3 0x123456) (ide_hw demo_ide)"
    by (rule ready_transfers_move_nothing [of demo_ide_env "0x1F0" ?d demo_ide 0 "0x123456" 3 ide_write_sectors 0 "0x5000"])
      (simp_all add: ready_channel_def demo_ide_env_def demo_ide_def inert_machine_def channel_ok_def)
  then show ?thesis by (auto simp: access_writes_def demo_ide_env_def demo_ide_def inert_machine_def)
qed

end
