(* ===== verification/Rtl8139.thy ===== *)
theory Rtl8139
  imports Driver Pci Console Rust_Str
begin

text \<open>
  The driver of the RTL8139 network card (\<open>kernel/src/drivers/rtl8139.rs\<close>): initialisation, the ring of four
  transmit descriptors, the receive buffer and the interrupt.

  The state is the driver's struct, the memory the card writes packets to, the console and the machine. The
  address of \<open>RX_BUF\<close> and the offset \<open>PMO\<close> are arguments; \<open>map_device\<close> stands for the mapping of the first base
  address register by the crate \<open>x86_64\<close>: it may panic on a bad address, and returns the text of an error.
  \<open>RX_BUF\<close> has 8202 bytes; a read that leaves it is undefined, and the model stops there.
\<close>

unbundle bit_operations_syntax

definition PCI_VENDOR_ID :: u32 where "PCI_VENDOR_ID = 0x10EC"
definition PCI_DEVICE_ID :: u32 where "PCI_DEVICE_ID = 0x8139"

datatype packet_error = TXDescBusy | TooLong | BadPacket | BufferEmpty

record rtl8139 =
  mac :: "u8 list"
  mar :: "u8 list"
  tsd :: "u32 list"
  tsad :: "u32 list"
  rbstart :: u32
  rtl_cmd :: u8
  imr :: u16
  isr :: u16
  tx_current :: u8
  rx_offset :: u16
  ioaddr :: u16
  rtl_irq :: u8

record 'hw rtls =
  nic_self :: rtl8139
  nic_mem :: "addr \<Rightarrow> u8"
  nic_con :: console
  nic_hw :: 'hw

record 'hw rtl_env =
  nic_machine :: "'hw machine"
  nic_font :: "u8 list"
  nic_loc :: "nat \<Rightarrow> ustr"
  nic_pmo :: nat
  nic_rx_buf :: addr
  map_device :: "u64 \<Rightarrow> ustr option res"

section \<open>Accesses\<close>

definition nic_run :: "('hw \<Rightarrow> ('a \<times> 'hw) res) \<Rightarrow> ('hw rtls, 'a) drv" where
  "nic_run f = (\<lambda>s. Some (rbind (f (nic_hw s)) (\<lambda>(x, hw). Ok (x, s\<lparr>nic_hw := hw\<rparr>))))"

definition nic_in8 :: "'hw rtl_env \<Rightarrow> u16 \<Rightarrow> ('hw rtls, u8) drv" where
  "nic_in8 E p = nic_run (\<lambda>hw. Ok (port_in8 (nic_machine E) hw p))"

definition nic_in16 :: "'hw rtl_env \<Rightarrow> u16 \<Rightarrow> ('hw rtls, u16) drv" where
  "nic_in16 E p = nic_run (\<lambda>hw. Ok (port_in16 (nic_machine E) hw p))"

definition nic_in32 :: "'hw rtl_env \<Rightarrow> u16 \<Rightarrow> ('hw rtls, u32) drv" where
  "nic_in32 E p = nic_run (\<lambda>hw. Ok (port_in (nic_machine E) hw p))"

definition nic_out8 :: "'hw rtl_env \<Rightarrow> u16 \<Rightarrow> u8 \<Rightarrow> ('hw rtls, unit) drv" where
  "nic_out8 E p v = dmod (\<lambda>s. s\<lparr>nic_hw := port_out8 (nic_machine E) (nic_hw s) p v\<rparr>)"

definition nic_out16 :: "'hw rtl_env \<Rightarrow> u16 \<Rightarrow> u16 \<Rightarrow> ('hw rtls, unit) drv" where
  "nic_out16 E p v = dmod (\<lambda>s. s\<lparr>nic_hw := port_out16 (nic_machine E) (nic_hw s) p v\<rparr>)"

definition nic_out32 :: "'hw rtl_env \<Rightarrow> u16 \<Rightarrow> u32 \<Rightarrow> ('hw rtls, unit) drv" where
  "nic_out32 E p v = dmod (\<lambda>s. s\<lparr>nic_hw := port_out (nic_machine E) (nic_hw s) p v\<rparr>)"

definition nic_log :: "(console \<Rightarrow> console res) \<Rightarrow> ('hw rtls, unit) drv" where
  "nic_log f = (\<lambda>s. Some (rbind (f (nic_con s)) (\<lambda>c. Ok ((), s\<lparr>nic_con := c\<rparr>))))"

text \<open>A register of the card: the sum of the base port and the offset is checked.\<close>

definition at_reg :: "u16 \<Rightarrow> u16 \<Rightarrow> (u16 \<Rightarrow> ('hw rtls, 'a) drv) \<Rightarrow> ('hw rtls, 'a) drv" where
  "at_reg base off f = dbind (dlift (wadd base off)) f"

section \<open>Initialisation\<close>

primrec read_mac :: "'hw rtl_env \<Rightarrow> u16 \<Rightarrow> nat list \<Rightarrow> ('hw rtls, u8 list) drv" where
  "read_mac E io [] = dret []"
| "read_mac E io (i # is) =
     at_reg io (of_nat i) (\<lambda>p. dbind (nic_in8 E p) (\<lambda>b. dbind (read_mac E io is) (\<lambda>bs. dret (b # bs))))"

text \<open>The \<open>?\<close> operator on an \<open>Option\<close>.\<close>

definition try_some :: "('s, 'a option) drv \<Rightarrow> ('a \<Rightarrow> ('s, 'b option) drv) \<Rightarrow> ('s, 'b option) drv" where
  "try_some m f = dbind m (\<lambda>r. case r of None \<Rightarrow> dret None | Some x \<Rightarrow> f x)"

definition rtl_setup :: "'hw rtl_env \<Rightarrow> usize \<Rightarrow> pci_device \<Rightarrow> u16 \<Rightarrow> ('hw rtls, rtl8139 option) drv" where
  "rtl_setup E ecam dev io =
     dbind (dall
       [at_reg io 0x52 (\<lambda>p. nic_out8 E p 0),
        at_reg io 0x37 (\<lambda>p. dbind (nic_out8 E p 0x10) (\<lambda>_. dbind (dwait (nic_in8 E p) (\<lambda>v. v = 0)) (\<lambda>_. dret ()))),
        dbind (dlift (wadd (of_nat (nic_rx_buf E) :: u32) (of_nat (nic_pmo E)))) (\<lambda>a. at_reg io 0x30 (\<lambda>p. nic_out32 E p a))]) (\<lambda>_.
     dbind (nic_run (read_config_u8 (nic_machine E) ecam dev 0x3C)) (\<lambda>irq.
     dbind (dall
       [nic_log (info (nic_font E) [lit ''(RTL8139) Using IRQ '', decimal (unat irq)]),
        at_reg io 0x3C (\<lambda>p. nic_out16 E p 0x0005),
        at_reg io 0x44 (\<lambda>p. nic_out32 E p (0xF OR push_bit 7 1)),
        at_reg io 0x37 (\<lambda>p. nic_out8 E p 0x0C)]) (\<lambda>_.
     dbind (read_mac E io [0..<6]) (\<lambda>m. dret (Some
       \<lparr>mac = m, mar = replicate 8 0, tsd = replicate 4 0, tsad = replicate 4 0, rbstart = 0, rtl_cmd = 0, imr = 0, isr = 0,
        tx_current = 0, rx_offset = 0, ioaddr = io, rtl_irq = irq\<rparr>)))))"

definition rtl_init :: "'hw rtl_env \<Rightarrow> usize \<Rightarrow> pci_device \<Rightarrow> ('hw rtls, rtl8139 option) drv" where
  "rtl_init E ecam dev =
     dbind (nic_run (enable_bus_master (nic_machine E) ecam dev)) (\<lambda>ok.
       if \<not> ok then dbind (nic_log (error (nic_font E) (nic_loc E 38) [lit ''(RTL8139) Unable to enable bus mastering!''])) (\<lambda>_. dret None)
       else try_some (nic_run (bar_address (nic_machine E) ecam dev 0)) (\<lambda>_.
            try_some (nic_run (bar_address (nic_machine E) ecam dev 0)) (\<lambda>a.
            dbind (dlift (uadd (unat a) (nic_pmo E))) (\<lambda>_.
            dbind (dlift (map_device E a)) (\<lambda>e.
              case e of
                Some msg \<Rightarrow> dbind (nic_log (error (nic_font E) (nic_loc E 51)
                    [lit ''(RTL8139) Unable to map page for PCI device! Error: '', msg, lit ''.''])) (\<lambda>_. dret None)
              | None \<Rightarrow>
                  try_some (nic_run (read_bar (nic_machine E) ecam dev 0)) (\<lambda>(low, _, _).
                    rtl_setup E ecam dev (ucast low AND NOT 3)))))))"

section \<open>Sending\<close>

text \<open>A packet is its address and its length; the card reads the bytes itself.\<close>

definition transmit_packet :: "'hw rtl_env \<Rightarrow> u16 \<Rightarrow> addr \<times> usize \<Rightarrow> ('hw rtls, packet_error + unit) drv" where
  "transmit_packet E io packet =
     (if snd packet > 1792 then dret (Inl TooLong)
      else dbind (dget (\<lambda>s. tx_current (nic_self s))) (\<lambda>tx. let desc = unat tx
      in dbind (dlift (wadd 0x10 (of_nat (desc * 4)))) (\<lambda>tsd_offset.
         at_reg io tsd_offset (\<lambda>p. dbind (nic_in32 E p) (\<lambda>status.
           if status AND push_bit 13 1 = 0 then dret (Inl TXDescBusy)
           else dbind (dlift (wadd 0x20 (of_nat (desc * 4)))) (\<lambda>tsad_offset.
                dbind (dlift (uadd (fst packet) (nic_pmo E))) (\<lambda>phys.
                dbind (at_reg io tsad_offset (\<lambda>p. nic_out32 E p (of_nat phys))) (\<lambda>_.
                dbind (at_reg io tsd_offset (\<lambda>p. nic_out32 E p (of_nat (snd packet)))) (\<lambda>_.
                dbind (dlift (wadd tx 1)) (\<lambda>t.
                dbind (dmod (\<lambda>s. s\<lparr>nic_self := (nic_self s)\<lparr>tx_current := t mod 4\<rparr>\<rparr>)) (\<lambda>_. dret (Inr ()))))))))))))"

section \<open>Receiving\<close>

definition update_read_pointer :: "'hw rtl_env \<Rightarrow> u16 \<Rightarrow> ('hw rtls, unit) drv" where
  "update_read_pointer E io =
     at_reg io 0x38 (\<lambda>p. dbind (dget (\<lambda>s. rx_offset (nic_self s))) (\<lambda>off.
       dbind (if off = 0 then dret (8192 - 0x10) else dlift (wsub off 0x10)) (\<lambda>v. nic_out16 E p v)))"

definition RX_BUF_LEN :: usize where
  "RX_BUF_LEN = 8202"

definition mem32 :: "(addr \<Rightarrow> u8) \<Rightarrow> addr \<Rightarrow> u32" where
  "mem32 m a = push_bit 24 (ucast (m (a + 3))) OR push_bit 16 (ucast (m (a + 2))) OR push_bit 8 (ucast (m (a + 1))) OR ucast (m a)"

text \<open>\<open>(rx_offset + length + 4 + 3) & !3\<close>.\<close>

definition next_offset :: "u16 \<Rightarrow> u16 \<Rightarrow> u16 res" where
  "next_offset off len =
     rbind (wadd off len) (\<lambda>a. rbind (wadd a 4) (\<lambda>b. rbind (wadd b 3) (\<lambda>c. Ok (c AND NOT 3))))"

definition set_rx_offset :: "u16 \<Rightarrow> ('hw rtls, unit) drv" where
  "set_rx_offset v = dmod (\<lambda>s. s\<lparr>nic_self := (nic_self s)\<lparr>rx_offset := v\<rparr>\<rparr>)"

text \<open>The two ways a frame is consumed: one with a bad status is skipped, the bytes of a good one are returned.\<close>

definition receive_bad :: "'hw rtl_env \<Rightarrow> u16 \<Rightarrow> u16 \<Rightarrow> u16 \<Rightarrow> ('hw rtls, packet_error + u8 list) drv" where
  "receive_bad E io off len =
     dbind (dlift (next_offset off len)) (\<lambda>n.
     dbind (set_rx_offset n) (\<lambda>_.
     dbind (update_read_pointer E io) (\<lambda>_. dret (Inl BadPacket))))"

definition receive_good :: "'hw rtl_env \<Rightarrow> u16 \<Rightarrow> u16 \<Rightarrow> u16 \<Rightarrow> ('hw rtls, packet_error + u8 list) drv" where
  "receive_good E io off len =
     dbind (dlift (rbind (uadd (nic_rx_buf E) (unat off)) (\<lambda>a. uadd a 4))) (\<lambda>packet_start.
     dbind (dlift (wsub len 4)) (\<lambda>packet_length.
     dbind (if unat off + 4 + unat packet_length > RX_BUF_LEN then dpanic Undefined else dret ()) (\<lambda>_.
     dbind (dget (\<lambda>s. map (\<lambda>i. nic_mem s (packet_start + i)) [0..<unat packet_length])) (\<lambda>packet.
     dbind (dlift (next_offset off len)) (\<lambda>n.
     dbind (set_rx_offset (if n \<ge> 8192 then 0 else n)) (\<lambda>_.
     dbind (update_read_pointer E io) (\<lambda>_. dret (Inr packet))))))))"

definition receive_packet :: "'hw rtl_env \<Rightarrow> ('hw rtls, packet_error + u8 list) drv" where
  "receive_packet E =
     dbind (dget nic_self) (\<lambda>self. let io = ioaddr self; off = rx_offset self
     in at_reg io 0x37 (\<lambda>p. dbind (nic_in8 E p) (\<lambda>cmd.
       if cmd AND 0x01 \<noteq> 0 then dret (Inl BufferEmpty)
       else dbind (dlift (uadd (nic_rx_buf E) (unat off))) (\<lambda>header_ptr.
         dbind (if unat off + 4 > RX_BUF_LEN then dpanic Undefined else dret ()) (\<lambda>_.
         dbind (dget (\<lambda>s. mem32 (nic_mem s) header_ptr)) (\<lambda>header.
         let status = ucast (header AND 0xFFFF) :: u16; len = ucast (drop_bit 16 header AND 0xFFFF) :: u16
         in if status AND 0x01 = 0 then receive_bad E io off len else receive_good E io off len))))))"

text \<open>The loop ends at the first error; \<open>dwait\<close> stops when its step returns \<open>True\<close>.\<close>

definition handle_receive :: "'hw rtl_env \<Rightarrow> ('hw rtls, unit) drv" where
  "handle_receive E = dbind (dwait (dbind (receive_packet E) (\<lambda>r.
       case r of
         Inl _ \<Rightarrow> dret True
       | Inr packet \<Rightarrow> dbind (nic_log (info (nic_font E) [lit ''(RTL8139) Received packet of '', decimal (length packet), lit '' bytes'']))
                         (\<lambda>_. dret False))) (\<lambda>stop. stop)) (\<lambda>_. dret ())"

definition handle_interrupt :: "'hw rtl_env \<Rightarrow> ('hw rtls, unit) drv" where
  "handle_interrupt E =
     dbind (dget (\<lambda>s. ioaddr (nic_self s))) (\<lambda>io.
     at_reg io 0x3E (\<lambda>p. dbind (nic_in16 E p) (\<lambda>v. dall
       [if v AND 0x01 \<noteq> 0 then handle_receive E else dret (),
        if v AND 0x02 \<noteq> 0 then nic_log (error (nic_font E) (nic_loc E 150) [lit ''(RTL8139) Receive error!'']) else dret (),
        at_reg io 0x3E (\<lambda>p. nic_out16 E p v)])))"

section \<open>The transmit ring\<close>

text \<open>Every descriptor is free, and looking at it changes nothing.\<close>

definition tx_idle :: "'hw machine \<Rightarrow> bool" where
  "tx_idle H \<longleftrightarrow> (\<forall>hw p. snd (port_in H hw p) = hw \<and> fst (port_in H hw p) AND push_bit 13 1 \<noteq> 0)"

text \<open>The writes that hand a packet to descriptor \<open>d\<close>: its address, then its length.\<close>

definition tx_writes :: "'hw rtl_env \<Rightarrow> u16 \<Rightarrow> nat \<Rightarrow> addr \<times> usize \<Rightarrow> (u16 \<times> u32) list" where
  "tx_writes E io d packet =
     [(io + (0x20 + of_nat (4 * d)), of_nat (fst packet + nic_pmo E)), (io + (0x10 + of_nat (4 * d)), of_nat (snd packet))]"

definition port_outs :: "'hw machine \<Rightarrow> (u16 \<times> u32) list \<Rightarrow> 'hw \<Rightarrow> 'hw" where
  "port_outs H ws hw = fold (\<lambda>(p, v) hw. port_out H hw p v) ws hw"

lemma at_reg_run:
  fixes base off :: u16
  assumes "unat base + unat off < 65536"
  shows "at_reg base off f s = f (base + off) s" "dbind (at_reg base off f) g s = dbind (f (base + off)) g s"
  using wadd_unat(1) [of base off] assms by (simp_all add: at_reg_def drv)

lemma nic_run_run [drv]: "dbind (nic_run (\<lambda>hw. Ok (k hw))) f s = f (fst (k (nic_hw s))) (s\<lparr>nic_hw := snd (k (nic_hw s))\<rparr>)"
  by (simp add: nic_run_def dbind_def split_beta)

lemma transmit_one:
  assumes idle: "tx_idle (nic_machine E)" and tx: "tx_current (nic_self s) = of_nat d" "d < 4"
    and io: "unat io + 0x40 < 65536" and p: "snd packet \<le> 1792" "fst packet + nic_pmo E < usize_bound"
  shows "transmit_packet E io packet s = Some (Ok (Inr (),
    s\<lparr>nic_self := (nic_self s)\<lparr>tx_current := of_nat (Suc d mod 4)\<rparr>,
      nic_hw := port_outs (nic_machine E) (tx_writes E io d packet) (nic_hw s)\<rparr>))"
proof -
  have d: "unat (of_nat d :: u8) = d" using tx(2) by (simp add: unat_of_nat)
  have u: "unat (of_nat (4 * d) :: u16) = 4 * d" using tx(2) by (simp add: unat_of_nat del: of_nat_mult)
  define x1 x2 where "x1 = (0x10 + of_nat (4 * d) :: u16)" and "x2 = (0x20 + of_nat (4 * d) :: u16)"
  have offs: "wadd 0x10 (of_nat (d * 4)) = Ok x1" "wadd 0x20 (of_nat (d * 4)) = Ok x2" "unat x1 = 16 + 4 * d" "unat x2 = 32 + 4 * d"
    using wadd_unat [of "0x10 :: u16" "of_nat (4 * d)"] wadd_unat [of "0x20 :: u16" "of_nat (4 * d)"] u tx(2)
    unfolding x1_def x2_def mult.commute [of d 4] by (simp_all del: of_nat_mult)
  have io1: "unat io + unat x1 < 65536" "unat io + unat x2 < 65536"
    using io tx(2) unfolding offs by simp_all
  have step: "wadd (of_nat d :: u8) 1 = Ok (of_nat d + 1)" using wadd_unat(1) [of "of_nat d :: u8" 1] d tx(2) by simp
  have "d = 0 \<or> d = 1 \<or> d = 2 \<or> d = 3" using tx(2) by linarith
  then have next_d: "(of_nat d + 1 :: u8) mod 4 = of_nat (Suc d mod 4)" by auto
  have writes: "port_outs H (tx_writes E io d packet) hw =
      port_out H (port_out H hw (io + x2) (of_nat (fst packet + nic_pmo E))) (io + x1) (of_nat (snd packet))" for H hw
    unfolding port_outs_def tx_writes_def x1_def x2_def by (simp del: of_nat_add of_nat_mult)
  have st: "fst (port_in (nic_machine E) hw q) AND push_bit 13 1 \<noteq> 0" "snd (port_in (nic_machine E) hw q) = hw" for hw q
    using idle by (simp_all add: tx_idle_def)
  show ?thesis
    unfolding transmit_packet_def Let_def writes
    using p(1) by (simp add: p(2) tx(1) d offs(1,2) io1 step next_d st drv nic_in32_def nic_out32_def at_reg_run del: of_nat_mult of_nat_add push_bit_of_1)
qed

text \<open>Sending packets one after the other, and the writes of a ring that goes round.\<close>

definition transmit_all :: "'hw rtl_env \<Rightarrow> u16 \<Rightarrow> (addr \<times> usize) list \<Rightarrow> ('hw rtls, packet_error option) drv" where
  "transmit_all E io packets = dfor_ret (\<lambda>p. dbind (transmit_packet E io p) (\<lambda>r.
     dret (case r of Inl e \<Rightarrow> Some e | Inr _ \<Rightarrow> None))) packets"

primrec ring_writes :: "'hw rtl_env \<Rightarrow> u16 \<Rightarrow> nat \<Rightarrow> (addr \<times> usize) list \<Rightarrow> (u16 \<times> u32) list" where
  "ring_writes E io d [] = []"
| "ring_writes E io d (p # ps) = tx_writes E io (d mod 4) p @ ring_writes E io (Suc d) ps"

lemma ring_writes_mod: "ring_writes E io (d mod 4) ps = ring_writes E io d ps"
proof (induction ps arbitrary: d)
  case (Cons p ps)
  from Cons.IH [of "Suc (d mod 4)"] Cons.IH [of "Suc d"] show ?case by (simp add: mod_Suc_eq)
qed simp

text \<open>
  C32. The four transmit descriptors are used in turn: on a card whose descriptors are free, sending any number of
  packets of at most 1792 bytes succeeds, the \<open>i\<close>-th packet goes to descriptor \<open>tx_current + i\<close> modulo 4, its
  address is written before its length, and \<open>tx_current\<close> stays below 4 and points to the descriptor after
  the last one used.
\<close>

theorem transmit_ring:
  assumes "tx_idle (nic_machine E)" "unat io + 0x40 < 65536" "tx_current (nic_self s) = of_nat d" "d < 4"
    and "\<forall>p \<in> set packets. snd p \<le> 1792 \<and> fst p + nic_pmo E < usize_bound"
  shows "transmit_all E io packets s = Some (Ok (None,
    s\<lparr>nic_self := (nic_self s)\<lparr>tx_current := of_nat ((d + length packets) mod 4)\<rparr>,
      nic_hw := port_outs (nic_machine E) (ring_writes E io d packets) (nic_hw s)\<rparr>))"
  using assms(3-5)
proof (induction packets arbitrary: s d)
  case Nil
  then show ?case by (cases s) (simp add: transmit_all_def drv port_outs_def)
next
  case (Cons p ps)
  let ?s = "s\<lparr>nic_self := (nic_self s)\<lparr>tx_current := of_nat (Suc d mod 4)\<rparr>,
      nic_hw := port_outs (nic_machine E) (tx_writes E io d p) (nic_hw s)\<rparr>"
  have one: "transmit_packet E io p s = Some (Ok (Inr (), ?s))"
    using Cons.prems by (intro transmit_one [OF assms(1) _ _ assms(2)]) simp_all
  have "transmit_all E io (p # ps) s = transmit_all E io ps ?s"
    unfolding transmit_all_def dfor_ret.simps by (simp add: drv dbind_run(1) [of "transmit_packet E io p", OF one])
  also have "\<dots> = Some (Ok (None, ?s\<lparr>nic_self := (nic_self ?s)\<lparr>tx_current := of_nat ((Suc d mod 4 + length ps) mod 4)\<rparr>,
      nic_hw := port_outs (nic_machine E) (ring_writes E io (Suc d mod 4) ps) (nic_hw ?s)\<rparr>))"
    using Cons.prems by (intro Cons.IH) simp_all
  finally show ?case using Cons.prems(2)
    by (simp add: port_outs_def ring_writes_mod mod_add_left_eq)
qed

definition log_card :: "(u16 \<times> u32) list machine" where
  "log_card = inert_machine\<lparr>port_in := \<lambda>hw p. (0x2000, hw), port_out := \<lambda>hw p v. hw @ [(p, v)]\<rparr>"

definition demo_rtl_env :: "(u16 \<times> u32) list rtl_env" where
  "demo_rtl_env = \<lparr>nic_machine = log_card, nic_font = demo_font, nic_loc = \<lambda>_. [], nic_pmo = 0, nic_rx_buf = 0x100000,
     map_device = \<lambda>_. Ok None\<rparr>"

definition demo_rtl :: "u8 \<Rightarrow> u16 \<Rightarrow> (addr \<Rightarrow> u8) \<Rightarrow> (u16 \<times> u32) list rtls" where
  "demo_rtl tx off m = \<lparr>nic_self = \<lparr>mac = [], mar = [], tsd = [], tsad = [], rbstart = 0, rtl_cmd = 0, imr = 0, isr = 0, tx_current = tx,
     rx_offset = off, ioaddr = 0xC000, rtl_irq = 11\<rparr>, nic_mem = m, nic_con = \<lparr>con_tty = None, con_serial = []\<rparr>, nic_hw = []\<rparr>"

theorem transmit_ring_witness:
  "\<exists>s. transmit_all demo_rtl_env 0xC000 [(0x5000, 60), (0x6000, 1500)] (demo_rtl 3 0 (\<lambda>_. 0)) = Some (Ok (None, s)) \<and>
     tx_current (nic_self s) = 1 \<and> nic_hw s = [(0xC02C, 0x5000), (0xC01C, 60), (0xC020, 0x6000), (0xC010, 1500)]"
proof -
  have "tx_idle log_card" by (simp add: tx_idle_def log_card_def inert_machine_def)
  then show ?thesis
    using transmit_ring [of demo_rtl_env "0xC000" "demo_rtl 3 0 (\<lambda>_. 0)" 3 "[(0x5000, 60), (0x6000, 1500)]"]
    by (auto simp: demo_rtl_env_def demo_rtl_def tx_writes_def port_outs_def log_card_def inert_machine_def)
qed

section \<open>The receive buffer\<close>

lemma unat_align4: "unat (c AND NOT 3 :: u16) = unat c div 4 * 4"
proof -
  have "c AND NOT 3 = drop_bit 2 c * 4"
    unfolding push_bit_eq_mult [of 2 "drop_bit 2 c", simplified, symmetric] by (simp add: bits_listed bit_simps)
  moreover have "unat (drop_bit 2 c) = unat c div 4" by (simp add: unat_drop_bit)
  moreover have "unat c div 4 * 4 < 65536" using unsigned_less [of c, where 'a = nat] by simp
  ultimately show ?thesis by (simp add: unat_word_ariths)
qed

lemma next_offset_ok:
  assumes "unat off + unat len + 7 < 65536"
  shows "\<exists>n. next_offset off len = Ok n \<and> unat n = (unat off + unat len + 7) div 4 * 4"
proof -
  have a: "wadd off len = Ok (off + len)" "unat (off + len) = unat off + unat len" using wadd_unat [of off len] assms by simp_all
  then have b: "wadd (off + len) 4 = Ok (off + len + 4)" "unat (off + len + 4) = unat off + unat len + 4"
    using wadd_unat [of "off + len" 4] assms by simp_all
  then have c: "wadd (off + len + 4) 3 = Ok (off + len + 4 + 3)" "unat (off + len + 4 + 3) = unat off + unat len + 7"
    using wadd_unat [of "off + len + 4" 3] assms by simp_all
  have "next_offset off len = Ok ((off + len + 4 + 3) AND NOT 3)" unfolding next_offset_def by (simp only: a(1) b(1) c(1) rbind_simps)
  moreover have "unat ((off + len + 4 + 3) AND NOT 3) = (unat off + unat len + 7) div 4 * 4" unfolding unat_align4 c(2) ..
  ultimately show ?thesis by blast
qed

text \<open>The frame at the read offset: whether its status is good, and its length with the checksum.\<close>

definition frame_good :: "'hw rtl_env \<Rightarrow> 'hw rtls \<Rightarrow> bool" where
  "frame_good E s \<longleftrightarrow> (ucast (mem32 (nic_mem s) (nic_rx_buf E + unat (rx_offset (nic_self s))) AND 0xFFFF) :: u16) AND 1 \<noteq> 0"

definition frame_len :: "'hw rtl_env \<Rightarrow> 'hw rtls \<Rightarrow> u16" where
  "frame_len E s = ucast (drop_bit 16 (mem32 (nic_mem s) (nic_rx_buf E + unat (rx_offset (nic_self s)))) AND 0xFFFF)"

text \<open>The state after the read offset moved: the card is told sixteen bytes less.\<close>

definition moved :: "'hw rtl_env \<Rightarrow> 'hw rtls \<Rightarrow> nat \<Rightarrow> 'hw rtls" where
  "moved E s n = s\<lparr>nic_self := (nic_self s)\<lparr>rx_offset := of_nat n\<rparr>,
     nic_hw := port_out16 (nic_machine E) (nic_hw s) (ioaddr (nic_self s) + 0x38) (of_nat (if n = 0 then 8176 else n - 16))\<rparr>"

text \<open>A card whose command register is read without effect and does not say that the buffer is empty.\<close>

definition rx_waiting :: "'hw rtl_env \<Rightarrow> 'hw rtls \<Rightarrow> bool" where
  "rx_waiting E s \<longleftrightarrow> unat (ioaddr (nic_self s)) + 0x40 < 65536 \<and> nic_rx_buf E + 65540 < usize_bound \<and>
     snd (port_in8 (nic_machine E) (nic_hw s) (ioaddr (nic_self s) + 0x37)) = nic_hw s \<and>
     fst (port_in8 (nic_machine E) (nic_hw s) (ioaddr (nic_self s) + 0x37)) AND 1 = 0"

lemma move_run:
  assumes "unat (ioaddr (nic_self s)) + 0x40 < 65536" "n < 65536" "n = 0 \<or> 16 \<le> n"
  shows "dbind (set_rx_offset (of_nat n)) (\<lambda>_. dbind (update_read_pointer E (ioaddr (nic_self s))) f) s = f () (moved E s n)"
proof -
  have n: "unat (of_nat n :: u16) = n" using assms(2) by (simp add: unat_of_nat)
  have io: "unat (ioaddr (nic_self s)) + unat (0x38 :: u16) < 65536" using assms(1) by simp
  show ?thesis
  proof (cases "n = 0")
    case True
    then show ?thesis
      by (simp add: set_rx_offset_def update_read_pointer_def drv at_reg_run [OF io] nic_out16_def moved_def)
  next
    case False
    with assms(3) have "16 \<le> n" by simp
    then have "wsub (of_nat n :: u16) 16 = Ok (of_nat n - 16)" using wsub_unat(1) [of 16 "of_nat n :: u16"] n by simp
    moreover have "(of_nat n - 16 :: u16) = of_nat (n - 16)" using \<open>16 \<le> n\<close> by (simp add: of_nat_diff)
    moreover have "(of_nat n :: u16) \<noteq> 0" using n False by (metis unsigned_0)
    ultimately show ?thesis using False
      by (simp add: set_rx_offset_def update_read_pointer_def drv at_reg_run [OF io] nic_out16_def moved_def)
  qed
qed

lemma move_panics:
  assumes "unat (ioaddr (nic_self s)) + 0x40 < 65536" "0 < n" "n < 16"
  shows "dbind (set_rx_offset (of_nat n)) (\<lambda>_. dbind (update_read_pointer E (ioaddr (nic_self s))) f) s = Some (Panic ArithOverflow)"
proof -
  have n: "unat (of_nat n :: u16) = n" using assms(3) by (simp add: unat_of_nat)
  have io: "unat (ioaddr (nic_self s)) + unat (0x38 :: u16) < 65536" using assms(1) by simp
  have "wsub (of_nat n :: u16) 16 = Panic ArithOverflow" using n assms(3) by (simp add: wsub_def word_le_nat_alt)
  moreover have "(of_nat n :: u16) \<noteq> 0" using n assms(2) by (metis unsigned_0 less_irrefl)
  ultimately show ?thesis
    by (simp add: set_rx_offset_def update_read_pointer_def drv at_reg_run [OF io])
qed

lemma receive_run:
  assumes "rx_waiting E s"
  shows "receive_packet E s =
    (if unat (rx_offset (nic_self s)) + 4 > RX_BUF_LEN then Some (Panic Undefined) else
     (if frame_good E s then receive_good else receive_bad) E (ioaddr (nic_self s)) (rx_offset (nic_self s)) (frame_len E s) s)"
proof -
  have io: "unat (ioaddr (nic_self s)) + unat (0x37 :: u16) < 65536" using assms by (simp add: rx_waiting_def)
  have "unat (rx_offset (nic_self s)) < 65536" using unsigned_less [of "rx_offset (nic_self s)", where 'a = nat] by simp
  then have "nic_rx_buf E + unat (rx_offset (nic_self s)) < usize_bound" using assms by (simp add: rx_waiting_def)
  then show ?thesis using assms
    by (simp add: receive_packet_def Let_def drv at_reg_run [OF io] nic_in8_def rx_waiting_def frame_good_def frame_len_def)
qed

lemma frame_end:
  fixes off len :: nat
  shows "9 \<le> off + len \<longleftrightarrow> 16 \<le> (off + len + 7) div 4 * 4" "0 < (off + len + 7) div 4 * 4"
    "(off + len + 7) div 4 * 4 \<le> off + len + 7"
  by presburger+

lemma next_offset_nat:
  assumes "unat off + unat len + 7 < 65536"
  shows "next_offset off len = Ok (of_nat ((unat off + unat len + 7) div 4 * 4))"
proof -
  obtain n where n: "next_offset off len = Ok n" "unat n = (unat off + unat len + 7) div 4 * 4"
    using next_offset_ok [OF assms] by blast
  then show ?thesis unfolding n(2) [symmetric] by simp
qed

lemma next_offset_overflow:
  assumes "65536 \<le> unat off + unat len + 7"
  shows "next_offset off len = Panic ArithOverflow"
proof (cases "unat off + unat len < 65536")
  case True
  then have a: "wadd off len = Ok (off + len)" "unat (off + len) = unat off + unat len" using wadd_unat [of off len] by simp_all
  show ?thesis
  proof (cases "unat off + unat len + 4 < 65536")
    case True
    then have "wadd (off + len) 4 = Ok (off + len + 4)" "unat (off + len + 4) = unat off + unat len + 4"
      using wadd_unat [of "off + len" 4] a by simp_all
    moreover from this(2) have "wadd (off + len + 4) 3 = Panic ArithOverflow" using assms by (simp add: wadd_def)
    ultimately show ?thesis using a by (simp add: next_offset_def)
  next
    case False
    then have "wadd (off + len) 4 = Panic ArithOverflow" using a by (simp add: wadd_def)
    then show ?thesis using a by (simp add: next_offset_def)
  qed
qed (simp add: next_offset_def wadd_def)

lemma receive_bad_run:
  assumes "unat (ioaddr (nic_self s)) + 0x40 < 65536"
  shows "receive_bad E (ioaddr (nic_self s)) off len s =
    (if 9 \<le> unat off + unat len \<and> unat off + unat len + 7 < 65536
     then Some (Ok (Inl BadPacket, moved E s ((unat off + unat len + 7) div 4 * 4)))
     else Some (Panic ArithOverflow))"
proof (cases "unat off + unat len + 7 < 65536")
  case True
  with frame_end [of "unat off" "unat len"] show ?thesis
    by (simp add: receive_bad_def next_offset_nat drv move_run [OF assms] move_panics [OF assms] del: of_nat_mult)
qed (simp add: receive_bad_def next_offset_overflow dlift_def dbind_def)

lemma receive_good_run:
  assumes "unat (ioaddr (nic_self s)) + 0x40 < 65536" "unat off + unat len \<le> RX_BUF_LEN" "4 \<le> unat len"
    and "nic_rx_buf E + 65540 < usize_bound"
  shows "receive_good E (ioaddr (nic_self s)) off len s =
    (if 9 \<le> unat off + unat len
     then Some (Ok (Inr (map (\<lambda>i. nic_mem s (nic_rx_buf E + unat off + 4 + i)) [0..<unat len - 4]),
       moved E s (let n = (unat off + unat len + 7) div 4 * 4 in if 8192 \<le> n then 0 else n)))
     else Some (Panic ArithOverflow))"
proof -
  have fits: "unat off + unat len + 7 < 65536" using assms(2) by (simp add: RX_BUF_LEN_def)
  define n where "n = (unat off + unat len + 7) div 4 * 4"
  have n: "9 \<le> unat off + unat len \<longleftrightarrow> 16 \<le> n" "0 < n" "n < 65536" "unat (of_nat n :: u16) = n"
    using frame_end [of "unat off" "unat len"] fits unfolding n_def by (simp_all add: unat_of_nat del: of_nat_mult)
  have next_n: "next_offset off len = Ok (of_nat n)" using next_offset_nat [OF fits] unfolding n_def .
  have len: "wsub len 4 = Ok (len - 4)" "unat (len - 4) = unat len - 4" using wsub_unat [of 4 len] assms(3) by simp_all
  have "nic_rx_buf E + unat off + 4 < usize_bound" using fits assms(4) by simp
  then have ptr: "rbind (uadd (nic_rx_buf E) (unat off)) (\<lambda>a. uadd a 4) = Ok (nic_rx_buf E + unat off + 4)" by simp
  have wrap: "(if 8192 \<le> (of_nat n :: u16) then 0 else of_nat n) = (of_nat (if 8192 \<le> n then 0 else n) :: u16)"
    using n(4) by (simp add: word_le_nat_alt)
  have "\<not> RX_BUF_LEN < unat off + 4 + (unat len - 4)" using assms(2,3) by simp
  then show ?thesis
    unfolding receive_good_def n_def [symmetric] Let_def
    using n by (simp add: drv ptr len next_n wrap move_run [OF assms(1)] move_panics [OF assms(1)])
qed

text \<open>A good frame that is shorter than its checksum, or that does not lie in the buffer.\<close>

lemma receive_good_fails:
  assumes "nic_rx_buf E + 65540 < usize_bound"
  shows "unat len < 4 \<Longrightarrow> receive_good E io off len s = Some (Panic ArithOverflow)"
    "4 \<le> unat len \<Longrightarrow> RX_BUF_LEN < unat off + unat len \<Longrightarrow> receive_good E io off len s = Some (Panic Undefined)"
proof -
  have "unat off < 65536" using unsigned_less [of off, where 'a = nat] by simp
  then have ptr: "rbind (uadd (nic_rx_buf E) (unat off)) (\<lambda>a. uadd a 4) = Ok (nic_rx_buf E + unat off + 4)" using assms by simp
  show "receive_good E io off len s = Some (Panic ArithOverflow)" if "unat len < 4"
    using that by (simp add: receive_good_def ptr drv wsub_def word_le_nat_alt)
  show "receive_good E io off len s = Some (Panic Undefined)" if "4 \<le> unat len" "RX_BUF_LEN < unat off + unat len"
    using that wsub_unat [of 4 len] by (simp add: receive_good_def ptr drv)
qed

text \<open>
  C33. Receiving a frame that the card says is in the buffer, on every branch. A good frame gives its
  bytes without the checksum, in order, and the read offset moves to the next multiple of four after the
  frame and its header, or to 0 past the end; a bad frame is skipped without wrapping. The length is the card's and
  nothing checks it: three frames make the kernel panic (a good one shorter than its checksum; one that ends before
  byte 16 of the buffer, since the read pointer of the card trails the offset by sixteen; a bad one whose end overflows
  16 bits), and a header or a good frame that does not lie within the 8202 bytes of the buffer is read beyond it, which
  is undefined.
\<close>

theorem receive_packet_exact:
  assumes "rx_waiting E s"
  defines "off \<equiv> unat (rx_offset (nic_self s))" and "len \<equiv> unat (frame_len E s)"
  defines "n \<equiv> (off + len + 7) div 4 * 4"
  shows "receive_packet E s = Some
    (if off + 4 > RX_BUF_LEN then Panic Undefined
     else if frame_good E s then
       if len < 4 then Panic ArithOverflow
       else if off + len > RX_BUF_LEN then Panic Undefined
       else if off + len < 9 then Panic ArithOverflow
       else Ok (Inr (map (\<lambda>i. nic_mem s (nic_rx_buf E + off + 4 + i)) [0..<len - 4]), moved E s (if 8192 \<le> n then 0 else n))
     else
       if off + len < 9 \<or> off + len + 7 \<ge> 65536 then Panic ArithOverflow
       else Ok (Inl BadPacket, moved E s n))"
proof -
  have E: "unat (ioaddr (nic_self s)) + 0x40 < 65536" "nic_rx_buf E + 65540 < usize_bound"
    using assms(1) by (simp_all add: rx_waiting_def)
  show ?thesis
    using receive_good_fails [OF E(2), where off = "rx_offset (nic_self s)" and len = "frame_len E s" and io = "ioaddr (nic_self s)" and s = s]
      receive_good_run [OF E(1) _ _ E(2), of "rx_offset (nic_self s)" "frame_len E s"]
      receive_bad_run [OF E(1), of E "rx_offset (nic_self s)" "frame_len E s"]
    unfolding receive_run [OF assms(1)] n_def off_def len_def Let_def
    by (cases "frame_good E s") auto
qed

theorem receive_packet_exact_witness:
  "\<exists>s. receive_packet demo_rtl_env (demo_rtl 0 0x20 (\<lambda>a. if a = 0x100020 then 1 else if a = 0x100022 then 6 else if a \<ge> 0x100024 then 7 else 0))
     = Some (Ok (Inr [7, 7], s)) \<and> rx_offset (nic_self s) = 0x2C"
proof -
  let ?s = "demo_rtl 0 0x20 (\<lambda>a. if a = 0x100020 then 1 else if a = 0x100022 then 6 else if a \<ge> 0x100024 then 7 else 0)"
  have "rx_waiting demo_rtl_env ?s"
    by (simp add: rx_waiting_def demo_rtl_env_def demo_rtl_def log_card_def inert_machine_def)
  moreover have "frame_good demo_rtl_env ?s" "frame_len demo_rtl_env ?s = 6"
    by (simp_all add: frame_good_def frame_len_def mem32_def demo_rtl_env_def demo_rtl_def)
  moreover have "rx_offset (nic_self ?s) = 0x20" "nic_rx_buf demo_rtl_env = 0x100000" by (simp_all add: demo_rtl_def demo_rtl_env_def)
  ultimately have "receive_packet demo_rtl_env ?s = Some (Ok (Inr (map (\<lambda>i. nic_mem ?s (0x100024 + i)) [0..<2]), moved demo_rtl_env ?s 0x2C))"
    using receive_packet_exact [of demo_rtl_env ?s] by (simp add: RX_BUF_LEN_def)
  then show ?thesis by (simp add: demo_rtl_def moved_def upt_rec)
qed

end
