(* ===== verification/Nvme.thy ===== *)
theory Nvme
  imports Driver Pci Console Rust_Str Interrupts Paging
begin

text \<open>
  The NVMe driver, first half (\<open>kernel/src/drivers/nvme.rs\<close>): the structures shared with the device, the
  registers, the initialisation of the controller, and its queues.

  The state is the controller, the page tables with the frame allocator, the console, the loads of the tick
  counter so far, and the machine, whose memory the device may change between two reads. The crate
  \<open>volatile\<close> (version 0.2.6) is a parameter: \<open>Volatile::new\<close>, \<open>read\<close> and \<open>write\<close> on a cell that holds a
  number, with the laws \<open>volatile_ok\<close>.
\<close>

unbundle bit_operations_syntax

section \<open>Constants\<close>

definition NVME_PCI_CLASS :: u32 where "NVME_PCI_CLASS = 0x01"
definition NVME_PCI_SUBCLASS :: u32 where "NVME_PCI_SUBCLASS = 0x08"
definition NVME_PCI_PROG_IF :: u8 where "NVME_PCI_PROG_IF = 0x02"

definition NVME_REG_CAP :: u8 where "NVME_REG_CAP = 0x00"
definition NVME_REG_CC :: u8 where "NVME_REG_CC = 0x14"
definition NVME_REG_CSTS :: u8 where "NVME_REG_CSTS = 0x1C"
definition NVME_REG_AQA :: u8 where "NVME_REG_AQA = 0x24"
definition NVME_REG_ASQ :: u8 where "NVME_REG_ASQ = 0x28"
definition NVME_REG_ACQ :: u8 where "NVME_REG_ACQ = 0x30"

definition NVME_CC_EN :: u64 where "NVME_CC_EN = push_bit 0 1"
definition NVME_CC_CSS_NVM :: u64 where "NVME_CC_CSS_NVM = push_bit 4 0"
definition NVME_CC_SHN_NORMAL :: u64 where "NVME_CC_SHN_NORMAL = push_bit 14 1"

definition NVME_CSTS_RDY :: u8 where "NVME_CSTS_RDY = push_bit 0 1"
definition NVME_CSTS_CFS :: u8 where "NVME_CSTS_CFS = push_bit 1 1"

definition NVME_MAX_IO_QUEUES :: usize where "NVME_MAX_IO_QUEUES = 8"

definition NVME_RESET_TIMEOUT_MS :: u32 where "NVME_RESET_TIMEOUT_MS = 5000"
definition NVME_ENABLE_TIMEOUT_MS :: u32 where "NVME_ENABLE_TIMEOUT_MS = 1000"
definition NVME_COMMAND_TIMEOUT_MS :: u32 where "NVME_COMMAND_TIMEOUT_MS = 30000"
definition NVME_SHUTDOWN_TIMEOUT_MS :: u32 where "NVME_SHUTDOWN_TIMEOUT_MS = 5000"

definition NVME_ADMIN_QUEUE_SIZE :: u16 where "NVME_ADMIN_QUEUE_SIZE = 64"
definition NVME_ADMIN_IDENTIFY :: u8 where "NVME_ADMIN_IDENTIFY = 0x06"
definition NVME_ADMIN_DELETE_CQ :: u8 where "NVME_ADMIN_DELETE_CQ = 0x04"
definition NVME_ADMIN_CREATE_CQ :: u8 where "NVME_ADMIN_CREATE_CQ = 0x05"
definition NVME_ADMIN_CREATE_SQ :: u8 where "NVME_ADMIN_CREATE_SQ = 0x01"
definition NVME_ADMIN_GET_FEATURES :: u8 where "NVME_ADMIN_GET_FEATURES = 0x0A"

definition NVME_IO_READ :: u8 where "NVME_IO_READ = 0x02"

definition NVME_SC_SUCCESS :: u8 where "NVME_SC_SUCCESS = 0x00"

section \<open>Structures shared with the device\<close>

text \<open>
  A packed structure is the list of its fields with their sizes in bytes; it has no padding, so the offset of
  a field is the sum of the sizes before it.
\<close>

type_synonym layout = "(string \<times> nat) list"

definition size_of :: "layout \<Rightarrow> nat" where
  "size_of l = sum_list (map snd l)"

fun offset_of :: "layout \<Rightarrow> string \<Rightarrow> nat" where
  "offset_of [] f = 0"
| "offset_of ((g, n) # l) f = (if g = f then 0 else n + offset_of l f)"

definition NVMeCommand :: layout where
  "NVMeCommand =
     [(''opcode'', 1), (''flags'', 1), (''command_id'', 2), (''nsid'', 4), (''rsv0'', 8), (''metadata'', 8), (''prp1'', 8),
      (''prp2'', 8), (''cdw10'', 4), (''cdw11'', 4), (''cdw12'', 4), (''cdw13'', 4), (''cdw14'', 4), (''cdw15'', 4)]"

definition NVMeCompletion :: layout where
  "NVMeCompletion = [(''result'', 4), (''rsv0'', 4), (''sq_head'', 2), (''sq_id'', 2), (''command_id'', 2), (''status'', 2)]"

definition Lbaf :: layout where
  "Lbaf = [(''ms'', 2), (''lbads'', 1), (''rp'', 1)]"

definition NVMeIDNS :: layout where
  "NVMeIDNS =
     [(''nsze'', 8), (''ncap'', 8), (''nuse'', 8), (''nsfeat'', 1), (''nlbaf'', 1), (''flbas'', 1), (''mc'', 1), (''dpc'', 1),
      (''dps'', 1), (''nmic'', 1), (''rescap'', 1), (''fpi'', 1), (''dlfeat'', 1), (''nawun'', 2), (''nawupf'', 2), (''nacwu'', 2),
      (''nabsn'', 2), (''nabo'', 2), (''nabspf'', 2), (''noiob'', 2), (''nvmcap'', 16), (''npwg'', 2), (''npwa'', 2), (''npdg'', 2),
      (''npda'', 2), (''nows'', 2), (''rsvd74'', 18), (''anagrpid'', 4), (''rsvd96'', 3), (''nsattr'', 1), (''nvmsetid'', 2),
      (''endgid'', 2), (''nguid'', 16), (''eui64'', 8), (''lbaf'', 16 * size_of Lbaf), (''rsvd192'', 192), (''vs'', 3712)]"

definition NVMeIDCtrl :: layout where
  "NVMeIDCtrl =
     [(''vid'', 2), (''ssvid'', 2), (''sn'', 20), (''mn'', 40), (''fr'', 8), (''rab'', 1), (''ieee'', 3), (''cmic'', 1), (''mdts'', 1),
      (''cntlid'', 2), (''ver'', 4), (''rtd3r'', 4), (''rtd3e'', 4), (''oaes'', 4), (''ctratt'', 4), (''rsvd100'', 156), (''oacs'', 2),
      (''acl'', 1), (''aerl'', 1), (''frmw'', 1), (''lpa'', 1), (''elpe'', 1), (''npss'', 1), (''avscc'', 1), (''apsta'', 1),
      (''wctemp'', 2), (''cctemp'', 2), (''mtfa'', 2), (''hmpre'', 4), (''hmmin'', 4), (''tnvmcap'', 16), (''unvmcap'', 16),
      (''rpmbs'', 4), (''edstt'', 2), (''dsto'', 1), (''fwug'', 1), (''kas'', 2), (''hctma'', 2), (''mntmt'', 2), (''mxtmt'', 2),
      (''sanicap'', 4), (''rsvd332'', 180), (''sqes'', 1), (''cqes'', 1), (''maxcmd'', 2), (''nn'', 4), (''oncs'', 2), (''fuses'', 2),
      (''fna'', 1), (''vwc'', 1), (''awun'', 2), (''awupf'', 2), (''nvscc'', 1), (''rsvd531'', 1), (''acwu'', 2), (''rsvd534'', 2),
      (''sgls'', 4), (''rsvd540'', 228), (''subnqn'', 256), (''rsvd1024'', 768), (''nvmsr'', 256), (''vs'', 1024)]"

section \<open>State\<close>

datatype nvme_error =
    NotFound
  | InitFailed
  | Timeout
  | InvalidParam
  | NoMemory
  | DeviceError
  | NotReady
  | CommandFailed
  | NotInitialized
  | OutOfMemory
  | NoQueue
  | RWRegError
  | NamespaceNotFound

text \<open>A command as the driver fills it in, with the fields it never changes from 0 left out of the constructor below.\<close>

record nvme_command =
  opcode :: u8
  cmd_flags :: u8
  command_id :: u16
  cmd_nsid :: u32
  cmd_rsv0 :: u64
  metadata :: u64
  prp1 :: u64
  prp2 :: u64
  cdw10 :: u32
  cdw11 :: u32
  cdw12 :: u32
  cdw13 :: u32
  cdw14 :: u32
  cdw15 :: u32

definition new_command :: "u8 \<Rightarrow> u32 \<Rightarrow> u64 \<Rightarrow> u32 \<Rightarrow> u32 \<Rightarrow> u32 \<Rightarrow> nvme_command" where
  "new_command code ns p1 c10 c11 c12 =
     \<lparr>opcode = code, cmd_flags = 0, command_id = 0, cmd_nsid = ns, cmd_rsv0 = 0, metadata = 0, prp1 = p1, prp2 = 0, cdw10 = c10,
      cdw11 = c11, cdw12 = c12, cdw13 = 0, cdw14 = 0, cdw15 = 0\<rparr>"

record nvme_queue =
  sq_cmds :: addr
  cqes :: addr
  sq_db :: addr
  cq_db :: addr
  sq_tail :: u16
  cq_head :: u16
  q_id :: u16
  q_depth :: u16
  cq_phase :: u8
  sqe_shift :: u8
  cqe_shift :: u8

record nvme_namespace =
  ns_id :: u32
  ns_size :: u64
  lba_size :: u32
  lba_shift :: u16
  ns_valid :: bool
  ns_data :: addr

record nvme_controller =
  ctl_dev :: pci_device
  bar0 :: u32
  stride :: u32
  page_size :: u32
  max_queue_entries :: u16
  num_io_queues :: u16
  ctl_enabled :: bool
  admin_queue :: nvme_queue
  io_queues :: "nvme_queue list"
  ctrl_data :: addr
  namespaces :: "nvme_namespace list"
  num_namespaces :: u32
  next_cmd_id :: u16

record ('hw, 'm, 'f) nvme =
  ctl :: nvme_controller
  nv_vm :: "('m, 'f) vm"
  nv_con :: console
  nv_loads :: nat
  nv_hw :: 'hw

text \<open>
  The environment: the machine and its memory (a load or store of bytes; \<open>None\<close> where the address is not
  mapped), the cells of the crate \<open>volatile\<close>, the mapper of the crate \<open>x86_64\<close> with the frame allocator, and
  what the compiler and the boot code decide: the offset \<open>PMO\<close>, the size of \<open>NVMeController\<close>, the content of
  freshly mapped pages, the address of a local variable, and what happens when a copy overruns one.
\<close>

record ('hw, 'm, 'f, 'v) nvme_env =
  nv_machine :: "'hw machine"
  mem_load :: "'hw \<Rightarrow> addr \<Rightarrow> usize \<Rightarrow> (u8 list \<times> 'hw) option"
  mem_store :: "'hw \<Rightarrow> addr \<Rightarrow> u8 list \<Rightarrow> 'hw option"
  vol_new :: "nat \<Rightarrow> 'v"
  vol_read :: "'v \<Rightarrow> nat"
  vol_write :: "'v \<Rightarrow> nat \<Rightarrow> 'v"
  nv_ops :: "('m, 'f) mapper"
  nv_ops_empty :: "('m, unit) mapper"
  nv_frame :: "'f \<Rightarrow> ('f \<times> addr option) res"
  nv_frame_of :: "addr \<Rightarrow> addr res"
  nv_map_text :: "map_to_error \<Rightarrow> ustr"
  nv_unmap_text :: "unmap_error \<Rightarrow> ustr"
  nv_ecam :: usize
  nv_pmo :: nat
  nv_ticks :: "nat \<Rightarrow> nat"
  nv_font :: "u8 list"
  nv_loc :: "nat \<Rightarrow> ustr"
  controller_size :: usize
  fresh_controller :: nvme_controller
  local_addr :: addr
  overrun :: "(('hw, 'm, 'f) nvme, unit) drv"

definition volatile_ok :: "('hw, 'm, 'f, 'v) nvme_env \<Rightarrow> bool" where
  "volatile_ok E \<longleftrightarrow> (\<forall>v. vol_read E (vol_new E v) = v) \<and> (\<forall>c v. vol_read E (vol_write E c v) = v)"

section \<open>Elementary steps\<close>

definition nv_run :: "('hw \<Rightarrow> ('a \<times> 'hw) res) \<Rightarrow> (('hw, 'm, 'f) nvme, 'a) drv" where
  "nv_run f = (\<lambda>s. Some (rbind (f (nv_hw s)) (\<lambda>(x, hw). Ok (x, s\<lparr>nv_hw := hw\<rparr>))))"

definition nv_log :: "(console \<Rightarrow> console res) \<Rightarrow> (('hw, 'm, 'f) nvme, unit) drv" where
  "nv_log f = (\<lambda>s. Some (rbind (f (nv_con s)) (\<lambda>c. Ok ((), s\<lparr>nv_con := c\<rparr>))))"

definition nv_error :: "('hw, 'm, 'f, 'v) nvme_env \<Rightarrow> nat \<Rightarrow> ustr list \<Rightarrow> (('hw, 'm, 'f) nvme, unit) drv" where
  "nv_error E line msg = nv_log (error (nv_font E) (nv_loc E line) msg)"

definition nv_warning :: "('hw, 'm, 'f, 'v) nvme_env \<Rightarrow> nat \<Rightarrow> ustr list \<Rightarrow> (('hw, 'm, 'f) nvme, unit) drv" where
  "nv_warning E line msg = nv_log (warning (nv_font E) (nv_loc E line) msg)"

text \<open>An error that is logged and returned.\<close>

definition nv_fail :: "('hw, 'm, 'f, 'v) nvme_env \<Rightarrow> nat \<Rightarrow> ustr list \<Rightarrow> nvme_error \<Rightarrow> (('hw, 'm, 'f) nvme, nvme_error + 'a) drv" where
  "nv_fail E line msg e = dbind (nv_error E line msg) (\<lambda>_. dret (Inl e))"

text \<open>The \<open>?\<close> operator on a \<open>Result\<close>.\<close>

definition try_ok :: "('s, 'e + 'a) drv \<Rightarrow> ('a \<Rightarrow> ('s, 'e + 'b) drv) \<Rightarrow> ('s, 'e + 'b) drv" where
  "try_ok m f = dbind m (\<lambda>r. case r of Inl e \<Rightarrow> dret (Inl e) | Inr x \<Rightarrow> f x)"

definition set_ctl :: "(nvme_controller \<Rightarrow> nvme_controller) \<Rightarrow> (('hw, 'm, 'f) nvme, unit) drv" where
  "set_ctl g = dmod (\<lambda>s. s\<lparr>ctl := g (ctl s)\<rparr>)"

definition le_value :: "u8 list \<Rightarrow> nat" where
  "le_value bs = foldr (\<lambda>b acc. unat b + 256 * acc) bs 0"

definition nv_load :: "('hw, 'm, 'f, 'v) nvme_env \<Rightarrow> addr \<Rightarrow> usize \<Rightarrow> (('hw, 'm, 'f) nvme, nat) drv" where
  "nv_load E a n = nv_run (\<lambda>hw. case mem_load E hw a n of
     None \<Rightarrow> Panic (PageFault a)
   | Some (bs, hw') \<Rightarrow> Ok (le_value (take n bs), hw'))"

definition nv_store :: "('hw, 'm, 'f, 'v) nvme_env \<Rightarrow> addr \<Rightarrow> u8 list \<Rightarrow> (('hw, 'm, 'f) nvme, unit) drv" where
  "nv_store E a bs = nv_run (\<lambda>hw. case mem_store E hw a bs of None \<Rightarrow> Panic (PageFault a) | Some hw' \<Rightarrow> Ok ((), hw'))"

text \<open>Reading a number of \<open>n\<close> bytes through a pointer to its type checks the alignment.\<close>

definition deref :: "('hw, 'm, 'f, 'v) nvme_env \<Rightarrow> addr \<Rightarrow> usize \<Rightarrow> (('hw, 'm, 'f) nvme, nat) drv" where
  "deref E a n = (if a mod n \<noteq> 0 then dpanic UbCheck else nv_load E a n)"

text \<open>\<open>pointer.sub(count)\<close>: the distance in bytes fits an \<open>isize\<close> and the address does not wrap.\<close>

definition ptr_sub :: "addr \<Rightarrow> usize \<Rightarrow> usize \<Rightarrow> addr res" where
  "ptr_sub a n count = (if n * count \<le> isize_max \<and> n * count \<le> a then Ok (a - n * count) else Panic UbCheck)"

definition write_bytes :: "('hw, 'm, 'f, 'v) nvme_env \<Rightarrow> addr \<Rightarrow> u8 \<Rightarrow> usize \<Rightarrow> (('hw, 'm, 'f) nvme, unit) drv" where
  "write_bytes E a v n = (if a = 0 \<and> n \<noteq> 0 then dpanic UbCheck else nv_store E a (replicate n v))"

text \<open>
  \<open>copy_nonoverlapping\<close> to or from a local variable of \<open>object\<close> bytes: \<open>count\<close> elements of \<open>n\<close> bytes each have
  to lie within it. A copy that does not is undefined, and what the program does then is a parameter.
\<close>

definition copy_local :: "('hw, 'm, 'f, 'v) nvme_env \<Rightarrow> nat \<Rightarrow> usize \<Rightarrow> usize \<Rightarrow> (('hw, 'm, 'f) nvme, unit) drv" where
  "copy_local E object n count = (if n * count \<le> object then dret () else overrun E)"

definition nv_sleep :: "('hw, 'm, 'f, 'v) nvme_env \<Rightarrow> nat \<Rightarrow> (('hw, 'm, 'f) nvme, unit) drv" where
  "nv_sleep E ms = (\<lambda>s.
     case sleep_ms (nv_ticks E) ms (nv_loads s) of
       Panic e \<Rightarrow> Some (Panic e)
     | Ok None \<Rightarrow> None
     | Ok (Some k) \<Rightarrow> Some (Ok ((), s\<lparr>nv_loads := k\<rparr>)))"

text \<open>The page allocator of the kernel on the state of the driver.\<close>

definition nv_vmem :: "(('m, 'f) vm \<Rightarrow> (('m, 'f) vm \<times> 'a) res) \<Rightarrow> (('hw, 'm, 'f) nvme, 'a) drv" where
  "nv_vmem f = (\<lambda>s. Some (rbind (f (nv_vm s)) (\<lambda>(v, x). Ok (x, s\<lparr>nv_vm := v\<rparr>))))"

definition nv_alloc_pages :: "('hw, 'm, 'f, 'v) nvme_env \<Rightarrow> usize \<Rightarrow> (('hw, 'm, 'f) nvme, addr option) drv" where
  "nv_alloc_pages E n = nv_vmem (\<lambda>v. alloc_pages (nv_ops E) (nv_frame E) v n)"

definition nv_alloc :: "('hw, 'm, 'f, 'v) nvme_env \<Rightarrow> usize \<Rightarrow> (('hw, 'm, 'f) nvme, addr option) drv" where
  "nv_alloc E n = nv_vmem (\<lambda>v. page_alloc (nv_ops E) (nv_frame E) v n)"

text \<open>\<open>free\<close> on a \<open>VirtAddr\<close>, and on the \<open>VirtAddr::new\<close> of a pointer.\<close>

definition nv_free :: "('hw, 'm, 'f, 'v) nvme_env \<Rightarrow> addr \<Rightarrow> usize \<Rightarrow> (('hw, 'm, 'f) nvme, unmap_error + unit) drv" where
  "nv_free E a n = nv_vmem (\<lambda>v. rbind (page_free (nv_ops E) (vm_mapper v) a n) (\<lambda>(r, mp). Ok (v\<lparr>vm_mapper := mp\<rparr>, r)))"

definition free_ptr :: "('hw, 'm, 'f, 'v) nvme_env \<Rightarrow> addr \<Rightarrow> usize \<Rightarrow> (('hw, 'm, 'f) nvme, unmap_error + unit) drv" where
  "free_ptr E a n = dbind (dlift (virt_new (nv_ops E) a)) (\<lambda>v. nv_free E v n)"

section \<open>Registers\<close>

text \<open>
  \<open>(*self.pci_dev).read_bar(0)\<close> and the sum with the offset, on 32 bits. \<open>read_bar\<close> returns the register with
  its flag bits.
\<close>

definition reg_addr :: "('hw, 'm, 'f, 'v) nvme_env \<Rightarrow> nat \<Rightarrow> u32 \<Rightarrow> (('hw, 'm, 'f) nvme, u32 option) drv" where
  "reg_addr E line off =
     dbind (dget (\<lambda>s. ctl_dev (ctl s))) (\<lambda>dev.
     dbind (nv_run (read_bar (nv_machine E) (nv_ecam E) dev 0)) (\<lambda>r.
       case r of
         None \<Rightarrow> dbind (nv_error E line [lit ''(NVME) Unable to read Bar #0 of PCI(e) device!'']) (\<lambda>_. dret None)
       | Some (low, _, _) \<Rightarrow> dbind (dlift (wadd low off)) (\<lambda>a. dret (Some a))))"

definition read_reg32 :: "('hw, 'm, 'f, 'v) nvme_env \<Rightarrow> u32 \<Rightarrow> (('hw, 'm, 'f) nvme, u32 option) drv" where
  "read_reg32 E off =
     dbind (reg_addr E 141 off) (\<lambda>r. dret (map_option (\<lambda>a. of_nat (vol_read E (vol_new E (unat a)))) r))"

definition write_reg32 :: "('hw, 'm, 'f, 'v) nvme_env \<Rightarrow> u32 \<Rightarrow> u32 \<Rightarrow> (('hw, 'm, 'f) nvme, u32 option) drv" where
  "write_reg32 E off val =
     dbind (reg_addr E 156 off) (\<lambda>r. dret (map_option (\<lambda>a. of_nat (vol_read E (vol_write E (vol_new E (unat a)) (unat val)))) r))"

definition read_reg64 :: "('hw, 'm, 'f, 'v) nvme_env \<Rightarrow> u32 \<Rightarrow> (('hw, 'm, 'f) nvme, u64 option) drv" where
  "read_reg64 E off =
     dbind (reg_addr E 171 off) (\<lambda>r. case r of
       None \<Rightarrow> dret None
     | Some a \<Rightarrow> dbind (deref E (vol_read E (vol_new E (unat a))) 8) (\<lambda>v. dret (Some (of_nat v))))"

definition write_reg64 :: "('hw, 'm, 'f, 'v) nvme_env \<Rightarrow> u32 \<Rightarrow> u64 \<Rightarrow> (('hw, 'm, 'f) nvme, u64 option) drv" where
  "write_reg64 E off val =
     dbind (reg_addr E 188 off) (\<lambda>r. case r of
       None \<Rightarrow> dret None
     | Some a \<Rightarrow> dbind (deref E (vol_read E (vol_write E (vol_new E (unat a)) (unat val))) 8) (\<lambda>v. dret (Some (of_nat v))))"

section \<open>The controller\<close>

primrec wait_ready_loop :: "('hw, 'm, 'f, 'v) nvme_env \<Rightarrow> bool \<Rightarrow> nat \<Rightarrow> (('hw, 'm, 'f) nvme, nvme_error + unit) drv" where
  "wait_ready_loop E ready 0 = dret (Inl Timeout)"
| "wait_ready_loop E ready (Suc n) =
     dbind (read_reg32 E (ucast NVME_REG_CSTS)) (\<lambda>r. case r of
       None \<Rightarrow> nv_fail E 266 [lit ''(NVME) Unable to read CSTS register!''] RWRegError
     | Some csts \<Rightarrow>
         let is_ready = csts AND ucast NVME_CSTS_RDY \<noteq> 0
         in if is_ready = ready then dret (Inr ())
            else if csts AND ucast NVME_CSTS_CFS \<noteq> 0 then dret (Inl DeviceError)
            else dbind (nv_sleep E 1) (\<lambda>_. wait_ready_loop E ready n))"

definition wait_ready :: "('hw, 'm, 'f, 'v) nvme_env \<Rightarrow> bool \<Rightarrow> u32 \<Rightarrow> (('hw, 'm, 'f) nvme, nvme_error + unit) drv" where
  "wait_ready E ready timeout_ms = wait_ready_loop E ready (unat timeout_ms)"

definition nvme_reset :: "('hw, 'm, 'f, 'v) nvme_env \<Rightarrow> (('hw, 'm, 'f) nvme, nvme_error + unit) drv" where
  "nvme_reset E =
     dbind (read_reg32 E (ucast NVME_REG_CC)) (\<lambda>r. case r of
       None \<Rightarrow> nv_fail E 292 [lit ''(NVME) Unable to read CC register!''] RWRegError
     | Some c \<Rightarrow> dbind (write_reg32 E (ucast NVME_REG_CC) (c AND NOT (ucast NVME_CC_EN))) (\<lambda>_.
         wait_ready E False NVME_RESET_TIMEOUT_MS))"

text \<open>The value that \<open>init\<close> passes as the offset of its last register write.\<close>

definition cc_value :: "u8 \<Rightarrow> u32" where
  "cc_value mpsmin = ucast (0 OR NVME_CC_EN OR NVME_CC_CSS_NVM OR push_bit 16 6 OR push_bit 20 4 OR push_bit 7 (ucast mpsmin) :: u64)"

definition controller_init :: "('hw, 'm, 'f, 'v) nvme_env \<Rightarrow> (('hw, 'm, 'f) nvme, nvme_error + unit) drv" where
  "controller_init E =
     dbind (read_reg64 E (ucast NVME_REG_CAP)) (\<lambda>r. case r of
       None \<Rightarrow> nv_fail E 206 [lit ''(NVME) Unable to read capabilities register!''] RWRegError
     | Some cap \<Rightarrow>
         dbind (dlift (wadd (ucast cap) 1)) (\<lambda>entries.
         dbind (set_ctl (max_queue_entries_update (\<lambda>_. entries))) (\<lambda>_.
         dbind (dlift (wshl 4 (unat (ucast (drop_bit 32 cap) :: u8)))) (\<lambda>st.
         dbind (set_ctl (stride_update (\<lambda>_. st))) (\<lambda>_.
         let mpsmin = ucast (drop_bit 48 cap) :: u8
         in dbind (dlift (rbind (wadd 12 mpsmin) (\<lambda>n. wshl 1 (unat n)))) (\<lambda>ps.
         dbind (set_ctl (page_size_update (\<lambda>_. ps))) (\<lambda>_.
         if drop_bit 37 cap AND 1 = 0 then dret (Inl InitFailed)
         else let admin_queue_size = (if entries > NVME_ADMIN_QUEUE_SIZE then NVME_ADMIN_QUEUE_SIZE else entries)
         in dbind (dlift (wsub (ucast admin_queue_size) 1)) (\<lambda>n.
         dbind (write_reg32 E (ucast NVME_REG_AQA) (n OR push_bit 16 n)) (\<lambda>_.
         dbind (dget (\<lambda>s. admin_queue (ctl s))) (\<lambda>q.
         dbind (dlift (ptr_sub (sq_cmds q) (size_of NVMeCommand) (nv_pmo E))) (\<lambda>asq.
         dbind (write_reg64 E (ucast NVME_REG_ASQ) (of_nat asq)) (\<lambda>_.
         dbind (dlift (ptr_sub (cqes q) (size_of NVMeCompletion) (nv_pmo E))) (\<lambda>acq.
         dbind (write_reg64 E (ucast NVME_REG_ACQ) (of_nat acq)) (\<lambda>_.
         dbind (read_reg32 E (ucast NVME_REG_CC)) (\<lambda>r. case r of
           None \<Rightarrow> nv_fail E 246 [lit ''(NVME) Unable to read CC register!''] RWRegError
         | Some cc \<Rightarrow>
             dbind (write_reg32 E (cc_value mpsmin) cc) (\<lambda>_.
             dbind (wait_ready E True NVME_ENABLE_TIMEOUT_MS) (\<lambda>_. dret (Inr ()))))))))))))))))))"

section \<open>Queues\<close>

text \<open>A pointer to a queue: one of the controller's own.\<close>

datatype queue_ref = Admin_queue | Io_queue nat

definition get_queue :: "queue_ref \<Rightarrow> (('hw, 'm, 'f) nvme, nvme_queue) drv" where
  "get_queue r = (case r of
     Admin_queue \<Rightarrow> dget (\<lambda>s. admin_queue (ctl s))
   | Io_queue i \<Rightarrow> dbind (dget (\<lambda>s. io_queues (ctl s))) (\<lambda>qs. dlift (index qs i)))"

definition put_queue :: "queue_ref \<Rightarrow> (nvme_queue \<Rightarrow> nvme_queue) \<Rightarrow> (('hw, 'm, 'f) nvme, unit) drv" where
  "put_queue r g = (case r of
     Admin_queue \<Rightarrow> set_ctl (admin_queue_update g)
   | Io_queue i \<Rightarrow> set_ctl (io_queues_update (\<lambda>qs. qs[i := g (qs ! i)])))"

definition pages_for :: "usize \<Rightarrow> usize" where
  "pages_for n = (n + 4096 - 1) div 4096"

definition doorbells :: "addr \<Rightarrow> u32 \<Rightarrow> u16 \<Rightarrow> addr \<times> addr" where
  "doorbells base st qid =
     (if qid = 0 then (base, base + 4 * unat st)
      else (base + 4 * (2 * unat qid * unat st), base + 4 * ((2 * unat qid + 1) * unat st)))"

definition alloc_queue :: "('hw, 'm, 'f, 'v) nvme_env \<Rightarrow> queue_ref \<Rightarrow> u16 \<Rightarrow> u16 \<Rightarrow> (('hw, 'm, 'f) nvme, nvme_error + unit) drv" where
  "alloc_queue E queue qid depth =
     dbind (put_queue queue (\<lambda>q. q\<lparr>q_id := qid, q_depth := depth, sq_tail := 0, cq_head := 0, cq_phase := 0\<rparr>)) (\<lambda>_.
     let sq_size = unat depth * size_of NVMeCommand; sq_pages = pages_for sq_size
     in dbind (nv_alloc_pages E sq_pages) (\<lambda>r. case r of
       None \<Rightarrow> nv_fail E 319 [lit ''(NVME) Unable to allocate '', decimal sq_pages, lit '' pages!''] OutOfMemory
     | Some sq_virt \<Rightarrow>
         dbind (write_bytes E sq_virt 0 sq_size) (\<lambda>_.
         dbind (put_queue queue (\<lambda>q. q\<lparr>sq_cmds := sq_virt\<rparr>)) (\<lambda>_.
         let cq_size = unat depth * size_of NVMeCommand; cq_pages = pages_for cq_size
         in dbind (nv_alloc_pages E cq_pages) (\<lambda>r. case r of
           None \<Rightarrow> nv_fail E 331 [lit ''(NVME) Unable to allocate '', decimal cq_pages, lit '' pages!''] OutOfMemory
         | Some cq_virt \<Rightarrow>
             dbind (write_bytes E cq_virt 0 cq_size) (\<lambda>_.
             dbind (put_queue queue (\<lambda>q. q\<lparr>cqes := cq_virt\<rparr>)) (\<lambda>_.
             dbind (dget (\<lambda>s. doorbells (unat (bar0 (ctl s)) + 0x1000) (stride (ctl s)) qid)) (\<lambda>(sq, cq).
             dbind (put_queue queue (\<lambda>q. q\<lparr>sq_db := sq, cq_db := cq\<rparr>)) (\<lambda>_. dret (Inr ()))))))))))"

text \<open>The step that consumes a completion: the head moves, and the phase changes when it wraps.\<close>

definition advance :: "nvme_queue \<Rightarrow> nvme_queue res" where
  "advance q =
     rbind (wadd (cq_head q) 1) (\<lambda>h.
       let q = (if h \<ge> q_depth q then q\<lparr>cq_head := 0, cq_phase := cq_phase q XOR 1\<rparr> else q\<lparr>cq_head := h\<rparr>)
       in Ok (q\<lparr>cq_db := unat (cq_head q)\<rparr>))"

text \<open>
  \<open>wait_completion\<close> on the content of the queue: it returns the changed queue. \<open>completion\<close> tells whether the
  pointer to the caller's local variable is given.
\<close>

primrec completion_loop :: "('hw, 'm, 'f, 'v) nvme_env \<Rightarrow> nvme_queue \<Rightarrow> u16 \<Rightarrow> bool \<Rightarrow> nat \<Rightarrow>
    (('hw, 'm, 'f) nvme, (nvme_error + unit) \<times> nvme_queue) drv" where
  "completion_loop E q cmd_id completion 0 = dret (Inl Timeout, q)"
| "completion_loop E q cmd_id completion (Suc n) =
     (let cqe = vol_new E (cqes q + size_of NVMeCompletion * unat (cq_head q))
      in dbind (nv_load E (vol_read E cqe + offset_of NVMeCompletion ''status'') 2) (\<lambda>st.
         dbind (nv_load E (vol_read E cqe + offset_of NVMeCompletion ''command_id'') 2) (\<lambda>ci.
         let status = of_nat st :: u16
         in if status AND 1 = ucast (cq_phase q) \<and> of_nat ci = cmd_id
            then dbind (if completion then copy_local E (size_of NVMeCompletion) (size_of NVMeCompletion) (size_of NVMeCompletion)
                        else dret ()) (\<lambda>_.
                 dbind (dlift (advance q)) (\<lambda>q'.
                   dret (if drop_bit 1 (ucast status :: u8) \<noteq> NVME_SC_SUCCESS then Inl CommandFailed else Inr (), q')))
            else completion_loop E q cmd_id completion n)))"

definition wait_completion :: "('hw, 'm, 'f, 'v) nvme_env \<Rightarrow> nvme_queue \<Rightarrow> u16 \<Rightarrow> u32 \<Rightarrow> bool \<Rightarrow>
    (('hw, 'm, 'f) nvme, (nvme_error + unit) \<times> nvme_queue) drv" where
  "wait_completion E q cmd_id timeout_ms completion =
     dbind (dlift (wmul timeout_ms 1000)) (\<lambda>n. completion_loop E q cmd_id completion (unat n))"

definition get_next_cmd_id :: "(('hw, 'm, 'f) nvme, nvme_error + u16) drv" where
  "get_next_cmd_id =
     dbind (dget (\<lambda>s. next_cmd_id (ctl s))) (\<lambda>n.
     dbind (dlift (wadd n 1)) (\<lambda>cmd_id.
     dbind (if n = 0 then set_ctl (next_cmd_id_update (\<lambda>_. 1)) else dret ()) (\<lambda>_. dret (Inr cmd_id))))"

text \<open>
  \<open>submit_cmd_to_queue\<close> copies 64 structures of 64 bytes from the field \<open>sq_tail\<close> of the queue to the command,
  which is a local variable of the caller: more than the 64 bytes it has.
\<close>

definition submit_cmd_to_queue :: "('hw, 'm, 'f, 'v) nvme_env \<Rightarrow> queue_ref \<Rightarrow> (('hw, 'm, 'f) nvme, nvme_error + unit) drv" where
  "submit_cmd_to_queue E queue =
     dbind (copy_local E (size_of NVMeCommand) (size_of NVMeCommand) (size_of NVMeCommand)) (\<lambda>_.
     dbind (get_queue queue) (\<lambda>q.
     dbind (if sq_tail q \<ge> q_depth q then dlift (wadd (sq_tail q) 1) else dret 0) (\<lambda>t.
     dbind (put_queue queue (\<lambda>q. q\<lparr>sq_tail := t, sq_db := unat t\<rparr>)) (\<lambda>_. dret (Inr ())))))"

definition wait_on_queue :: "('hw, 'm, 'f, 'v) nvme_env \<Rightarrow> queue_ref \<Rightarrow> u16 \<Rightarrow> u32 \<Rightarrow> (('hw, 'm, 'f) nvme, nvme_error + unit) drv" where
  "wait_on_queue E queue cmd_id timeout_ms =
     dbind (get_queue queue) (\<lambda>q.
     dbind (wait_completion E q cmd_id timeout_ms False) (\<lambda>(r, q').
     dbind (put_queue queue (\<lambda>_. q')) (\<lambda>_. dret r)))"

section \<open>Layouts\<close>

lemma entry_layout:
  "size_of NVMeCommand = 64" "size_of NVMeCompletion = 16" "offset_of NVMeCompletion ''status'' = 14" "offset_of NVMeCompletion ''command_id'' = 12"
  by (simp_all add: size_of_def NVMeCommand_def NVMeCompletion_def)

section \<open>Registers that are not there\<close>

lemma word_bit_odd: "bit w n \<longleftrightarrow> odd (unat w div 2 ^ n)" for w :: "'a::len word"
  by (metis bit_iff_odd bit_unsigned_iff not_bit_length bit_imp_le_length possible_bit_nat possible_bit_def)

lemma word_low_bits: "w AND 1 = 0 \<longleftrightarrow> even (unat w)" "w AND 2 = 0 \<longleftrightarrow> even (unat w div 2)" for w :: u32
proof -
  have "w AND 2 ^ n = 0 \<longleftrightarrow> \<not> bit w n" for n by (rule and_exp_eq_0_iff_not_bit)
  from this [of 0] this [of 1] show "w AND 1 = 0 \<longleftrightarrow> even (unat w)" "w AND 2 = 0 \<longleftrightarrow> even (unat w div 2)"
    by (simp_all add: word_bit_odd)
qed

text \<open>The base address register is read as \<open>low\<close>, without an effect.\<close>

definition bar_reads :: "('hw, 'm, 'f, 'v) nvme_env \<Rightarrow> ('hw, 'm, 'f) nvme \<Rightarrow> u32 \<Rightarrow> bool" where
  "bar_reads E s low \<longleftrightarrow>
     read_bar (nv_machine E) (nv_ecam E) (ctl_dev (ctl s)) 0 (nv_hw s) =
       Ok (Some (low, low AND 1 = 0, low AND 1 = 0 \<and> drop_bit 1 low AND 3 = 2), nv_hw s)"

lemma reg_addr_run:
  assumes "bar_reads E s low" "unat low + unat off < 4294967296"
  shows "reg_addr E line off s = Some (Ok (Some (low + off), s))"
  using assms wadd_unat(1) [of low off] by (simp add: reg_addr_def bar_reads_def drv nv_run_def dbind_def dget_def)

lemma reg32_run:
  assumes "volatile_ok E" "bar_reads E s low" "unat low + unat off < 4294967296"
  shows "read_reg32 E off s = Some (Ok (Some (low + off), s))" "write_reg32 E off v s = Some (Ok (Some v, s))"
proof -
  have then_reg: "dbind (reg_addr E line off) f s = f (Some (low + off)) s" for line and f :: "u32 option \<Rightarrow> (('a, 'b, 'c) nvme, u32 option) drv"
    by (rule dbind_run(1)) (rule reg_addr_run [OF assms(2,3)])
  show "read_reg32 E off s = Some (Ok (Some (low + off), s))" "write_reg32 E off v s = Some (Ok (Some v, s))"
    using assms(1) by (simp_all add: read_reg32_def write_reg32_def then_reg drv volatile_ok_def)
qed

lemma bar_reads_loads [simp]: "bar_reads E (s\<lparr>nv_loads := k\<rparr>) low = bar_reads E s low"
  by (simp add: bar_reads_def)

lemma csts_bits:
  assumes "unat (low :: u32) mod 4 = 0" "unat low + 0x30 < 4294967296"
  shows "(low + ucast NVME_REG_CSTS) AND ucast NVME_CSTS_RDY = 0" "(low + ucast NVME_REG_CSTS) AND ucast NVME_CSTS_CFS = 0"
proof -
  have reg: "ucast NVME_REG_CSTS = (0x1C :: u32)" "ucast NVME_CSTS_RDY = (1 :: u32)" "ucast NVME_CSTS_CFS = (2 :: u32)"
    by (simp_all add: NVME_REG_CSTS_def NVME_CSTS_RDY_def NVME_CSTS_CFS_def)
  have "unat (low + 0x1C) = unat low + 28" using wadd_unat(2) [of low "0x1C"] assms(2) by simp
  moreover have "even (unat low + 28)" "even ((unat low + 28) div 2)" using assms(1) by presburger+
  ultimately show "(low + ucast NVME_REG_CSTS) AND ucast NVME_CSTS_RDY = 0" "(low + ucast NVME_REG_CSTS) AND ucast NVME_CSTS_CFS = 0"
    unfolding reg word_low_bits by simp_all
qed

lemma wait_ready_step:
  assumes "volatile_ok E" "bar_reads E s low" "unat low mod 4 = 0" "unat low + 0x30 < 4294967296"
  shows "wait_ready_loop E ready (Suc n) s =
    (if ready then dbind (nv_sleep E 1) (\<lambda>_. wait_ready_loop E ready n) s else Some (Ok (Inr (), s)))"
proof -
  have "unat low + unat (ucast NVME_REG_CSTS :: u32) < 4294967296" using assms(4) by (simp add: NVME_REG_CSTS_def)
  then have "dbind (read_reg32 E (ucast NVME_REG_CSTS)) f s = f (Some (low + ucast NVME_REG_CSTS)) s"
    for f :: "u32 option \<Rightarrow> (('a, 'b, 'c) nvme, nvme_error + unit) drv"
    by (intro dbind_run(1) reg32_run(1) assms(1,2))
  then show ?thesis by (simp add: csts_bits [OF assms(3,4)] Let_def drv)
qed

text \<open>The loads of the tick counter that \<open>n\<close> sleeps of a millisecond make, starting with load \<open>k\<close>.\<close>

primrec sleeps :: "(nat \<Rightarrow> nat) \<Rightarrow> nat \<Rightarrow> nat \<Rightarrow> nat option" where
  "sleeps obs 0 k = Some k"
| "sleeps obs (Suc n) k = (case sleep_ms obs 1 k of Ok (Some j) \<Rightarrow> sleeps obs n j | _ \<Rightarrow> None)"

lemma wait_ready_timeout:
  assumes "volatile_ok E" "unat low mod 4 = 0" "unat low + 0x30 < 4294967296"
    and "bar_reads E s low" "sleeps (nv_ticks E) n (nv_loads s) = Some k"
  shows "wait_ready_loop E True n s = Some (Ok (Inl Timeout, s\<lparr>nv_loads := k\<rparr>))"
  using assms(4,5)
proof (induction n arbitrary: s)
  case 0
  then show ?case by (simp add: drv)
next
  case (Suc n)
  from Suc.prems obtain j where j: "sleep_ms (nv_ticks E) 1 (nv_loads s) = Ok (Some j)" "sleeps (nv_ticks E) n j = Some k"
    by (auto split: res.splits option.splits)
  have "wait_ready_loop E True (Suc n) s = wait_ready_loop E True n (s\<lparr>nv_loads := j\<rparr>)"
    using wait_ready_step [OF assms(1) Suc.prems(1) assms(2,3), of True n] j by (simp add: dbind_def nv_sleep_def)
  then show ?case using Suc.IH [of "s\<lparr>nv_loads := j\<rparr>"] Suc.prems j by simp
qed

text \<open>
  The 32-bit registers of the controller are never accessed. With the documented behaviour of the crate
  \<open>volatile\<close>, reading a register returns its address and writing one returns the value written; neither
  touches the device or its memory. So what the controller reports has no influence: resetting always
  succeeds at once, and waiting for it to become ready always times out, on any memory base address.
\<close>

theorem registers_detached:
  assumes "volatile_ok E" "bar_reads E s low" "unat low mod 4 = 0" "unat low + 0x30 < 4294967296"
    and "sleeps (nv_ticks E) (unat timeout_ms) (nv_loads s) = Some k"
  shows "(\<forall>off \<le> 0x30. read_reg32 E off s = Some (Ok (Some (low + off), s)) \<and> write_reg32 E off v s = Some (Ok (Some v, s))) \<and>
    nvme_reset E s = Some (Ok (Inr (), s)) \<and>
    wait_ready E True timeout_ms s = Some (Ok (Inl Timeout, s\<lparr>nv_loads := k\<rparr>))"
proof -
  have regs: "read_reg32 E off s = Some (Ok (Some (low + off), s))" "write_reg32 E off v s = Some (Ok (Some v, s))" if "off \<le> 0x30" for off v
    using that reg32_run(1) [OF assms(1,2), of off] reg32_run(2) [OF assms(1,2), of off v] assms(4) by (simp_all add: word_le_nat_alt)
  have cc: "ucast NVME_REG_CC \<le> (0x30 :: u32)" by (simp add: NVME_REG_CC_def)
  have "dbind (read_reg32 E (ucast NVME_REG_CC)) f s = f (Some (low + ucast NVME_REG_CC)) s"
    "dbind (write_reg32 E (ucast NVME_REG_CC) w) f s = f (Some w) s"
    for f :: "u32 option \<Rightarrow> (('a, 'b, 'c) nvme, nvme_error + unit) drv" and w
    by (intro dbind_run(1) regs cc)+
  moreover have "wait_ready E False NVME_RESET_TIMEOUT_MS s = Some (Ok (Inr (), s))"
    using wait_ready_step [OF assms(1-4), of False 4999] by (simp add: wait_ready_def NVME_RESET_TIMEOUT_MS_def)
  ultimately have "nvme_reset E s = Some (Ok (Inr (), s))" by (simp add: nvme_reset_def)
  with regs wait_ready_timeout [OF assms(1,3,4,2,5)] show ?thesis by (simp add: wait_ready_def)
qed

section \<open>The controller does not start\<close>

definition succeeds :: "('s, 'e + 'a) drv \<Rightarrow> 's \<Rightarrow> bool" where
  "succeeds m s \<longleftrightarrow> (\<exists>x s'. m s = Some (Ok (Inr x, s')))"

lemma succeeds_dbind: "succeeds (dbind m f) s \<longleftrightarrow> (\<exists>x s'. m s = Some (Ok (x, s')) \<and> succeeds (f x) s')"
  by (auto simp: succeeds_def dbind_def split: option.splits res.splits)

lemma fails_then: "(\<And>x s'. m s = Some (Ok (x, s')) \<Longrightarrow> \<not> succeeds (f x) s') \<Longrightarrow> \<not> succeeds (dbind m f) s"
  by (auto simp: succeeds_dbind)

lemma succeeds_dret [simp]: "succeeds (dret r) s \<longleftrightarrow> (\<exists>x. r = Inr x)"
  by (simp add: succeeds_def drv)

lemma succeeds_try: "succeeds (try_ok m f) s \<longleftrightarrow> (\<exists>x s'. m s = Some (Ok (Inr x, s')) \<and> succeeds (f x) s')"
  by (simp add: try_ok_def succeeds_dbind split_sum_ex)

lemma fails_err [simp]: "\<not> succeeds (nv_fail E line msg e) s" "\<not> succeeds (dpanic p) t"
  by (simp_all add: nv_fail_def succeeds_dbind) (simp add: succeeds_def dpanic_def)

lemma fails_iff: "\<not> succeeds m s \<longleftrightarrow> (\<forall>x s'. m s \<noteq> Some (Ok (Inr x, s')))"
  by (simp add: succeeds_def)

lemmas succeeds_rules = succeeds_dbind succeeds_try

text \<open>The shift by the byte that holds the doorbell stride and the bit of the NVM command set.\<close>

lemma stride_shift:
  assumes "drop_bit 37 cap AND 1 \<noteq> (0 :: u64)"
  shows "wshl (4 :: u32) (unat (ucast (drop_bit 32 cap) :: u8)) = Panic ArithOverflow"
proof -
  have "bit cap 37" using assms by (simp add: and_one_eq bit_iff_odd_drop_bit even_iff_mod_2_eq_zero)
  then have "bit (ucast (drop_bit 32 cap) :: u8) 5" by (simp add: bit_simps)
  then have "odd (unat (ucast (drop_bit 32 cap) :: u8) div 32)" by (simp add: word_bit_odd)
  then have "32 \<le> unat (ucast (drop_bit 32 cap) :: u8)" by (metis div_less even_zero not_le)
  then show ?thesis by (simp add: wshl_def)
qed

lemma controller_init_cap:
  assumes "read_reg64 E (ucast NVME_REG_CAP) s = Some (Ok (Some cap, s1))" "drop_bit 37 cap AND 1 \<noteq> 0"
  shows "controller_init E s = Some (Panic ArithOverflow)"
proof (cases "wadd (ucast cap :: u16) 1")
  case (Ok entries)
  have "dbind (read_reg64 E (ucast NVME_REG_CAP)) f s = f (Some cap) s1" for f :: "u64 option \<Rightarrow> (('a, 'b, 'c) nvme, nvme_error + unit) drv"
    by (intro dbind_run(1) assms(1))
  then show ?thesis unfolding controller_init_def by (simp add: Ok stride_shift [OF assms(2)] drv set_ctl_def)
next
  case (Panic e)
  then have "e = ArithOverflow" by (simp add: wadd_def split: if_splits)
  moreover have "dbind (read_reg64 E (ucast NVME_REG_CAP)) f s = f (Some cap) s1" for f :: "u64 option \<Rightarrow> (('a, 'b, 'c) nvme, nvme_error + unit) drv"
    by (intro dbind_run(1) assms(1))
  ultimately show ?thesis unfolding controller_init_def by (simp add: Panic drv)
qed

lemma checked_word_cases:
  "wadd a b = Panic ArithOverflow \<or> (\<exists>v. wadd a b = Ok v)" "wshl a n = Panic ArithOverflow \<or> (\<exists>v. wshl a n = Ok v)"
  by (simp_all add: wadd_def wshl_def)

lemma controller_init_no_nvm:
  assumes "read_reg64 E (ucast NVME_REG_CAP) s = Some (Ok (Some cap, s1))" "drop_bit 37 cap AND 1 = 0"
  shows "controller_init E s = Some (Panic ArithOverflow) \<or> (\<exists>s'. controller_init E s = Some (Ok (Inl InitFailed, s')))"
proof -
  have cap: "dbind (read_reg64 E (ucast NVME_REG_CAP)) f s = f (Some cap) s1" for f :: "u64 option \<Rightarrow> (('a, 'b, 'c) nvme, nvme_error + unit) drv"
    by (intro dbind_run(1) assms(1))
  have shift: "rbind (wadd a b) (\<lambda>n. wshl w (unat n)) = Panic ArithOverflow \<or> (\<exists>v. rbind (wadd a b) (\<lambda>n. wshl w (unat n)) = Ok v)"
    for a b :: u8 and w :: u32
    by (simp add: wadd_def wshl_def)
  from checked_word_cases(1) [of "ucast cap :: u16" 1] checked_word_cases(2) [of "4 :: u32" "unat (ucast (drop_bit 32 cap) :: u8)"]
    shift [of 12 "ucast (drop_bit 48 cap)" 1]
  show ?thesis unfolding controller_init_def cap option.case Let_def
    by (elim disjE exE) (simp_all add: assms(2) drv set_ctl_def)
qed

lemma controller_init_fails: "\<not> succeeds (controller_init E) s"
proof -
  have "\<not> succeeds (controller_init E) s" if "read_reg64 E (ucast NVME_REG_CAP) s = Some (Ok (r, s1))" for r s1
  proof (cases "\<exists>cap. r = Some cap \<and> drop_bit 37 cap AND 1 \<noteq> 0")
    case True
    then obtain cap where "r = Some cap" "drop_bit 37 cap AND 1 \<noteq> 0" by blast
    then show ?thesis using controller_init_cap [of E s cap s1] that by (simp add: succeeds_def)
  next
    case False
    then show ?thesis
      unfolding controller_init_def using that
      by (intro fails_then) (auto simp: Let_def split: option.splits intro!: fails_then)
  qed
  then show ?thesis by (auto simp: controller_init_def succeeds_dbind)
qed

section \<open>Waiting for a completion\<close>

text \<open>
  One look at the entry at the head: the status, then the identifier, and the machine after the two loads.
  \<open>seen i\<close> is the machine after \<open>i\<close> looks.
\<close>

definition poll :: "('hw, 'm, 'f, 'v) nvme_env \<Rightarrow> nvme_queue \<Rightarrow> 'hw \<Rightarrow> (u16 \<times> u16 \<times> 'hw) option" where
  "poll E q hw = (let entry = cqes q + 16 * unat (cq_head q)
     in case mem_load E hw (entry + 14) 2 of
          None \<Rightarrow> None
        | Some (b1, hw1) \<Rightarrow> (case mem_load E hw1 (entry + 12) 2 of
            None \<Rightarrow> None
          | Some (b2, hw2) \<Rightarrow> Some (of_nat (le_value (take 2 b1)), of_nat (le_value (take 2 b2)), hw2)))"

primrec seen :: "('hw, 'm, 'f, 'v) nvme_env \<Rightarrow> nvme_queue \<Rightarrow> nat \<Rightarrow> 'hw \<Rightarrow> 'hw" where
  "seen E q 0 hw = hw"
| "seen E q (Suc i) hw = seen E q i (snd (snd (the (poll E q hw))))"

definition answered :: "('hw, 'm, 'f, 'v) nvme_env \<Rightarrow> nvme_queue \<Rightarrow> u16 \<Rightarrow> 'hw \<Rightarrow> bool" where
  "answered E q cmd_id hw \<longleftrightarrow> (case the (poll E q hw) of (st, ci, _) \<Rightarrow> st AND 1 = ucast (cq_phase q) \<and> ci = cmd_id)"

text \<open>The queue with one more completion consumed.\<close>

definition consumed :: "nvme_queue \<Rightarrow> nvme_queue" where
  "consumed q = (let h = (unat (cq_head q) + 1) mod unat (q_depth q)
     in q\<lparr>cq_head := of_nat h, cq_phase := (if h = 0 then cq_phase q XOR 1 else cq_phase q), cq_db := h\<rparr>)"

lemma advance_consumed:
  assumes "cq_head q < q_depth q"
  shows "advance q = Ok (consumed q)"
proof -
  have d: "unat (cq_head q) < unat (q_depth q)" using assms by (simp add: word_less_nat_alt)
  moreover have "unat (q_depth q) < 65536" using unsigned_less [of "q_depth q", where 'a = nat] by simp
  ultimately have h: "wadd (cq_head q) 1 = Ok (cq_head q + 1)" "unat (cq_head q + 1) = unat (cq_head q) + 1"
    using wadd_unat [of "cq_head q" 1] by simp_all
  show ?thesis
  proof (cases "unat (cq_head q) + 1 = unat (q_depth q)")
    case True
    then show ?thesis by (simp add: advance_def consumed_def h word_le_nat_alt Let_def)
  next
    case False
    with d have "(unat (cq_head q) + 1) mod unat (q_depth q) = unat (cq_head q) + 1" by simp
    moreover have "\<not> q_depth q \<le> cq_head q + 1" using False d h(2) by (simp add: word_le_nat_alt)
    moreover have "of_nat (unat (cq_head q) + 1) = cq_head q + 1" by simp
    ultimately show ?thesis by (simp add: advance_def consumed_def h Let_def del: of_nat_add of_nat_Suc)
  qed
qed

lemma completion_look:
  assumes "volatile_ok E" "poll E q (nv_hw s) = Some (st, ci, hw')"
  shows "completion_loop E q cmd_id False (Suc n) s =
    (if st AND 1 = ucast (cq_phase q) \<and> ci = cmd_id
     then dbind (dlift (advance q)) (\<lambda>q'. dret (if drop_bit 1 (ucast st :: u8) \<noteq> 0 then Inl CommandFailed else Inr (), q')) (s\<lparr>nv_hw := hw'\<rparr>)
     else completion_loop E q cmd_id False n (s\<lparr>nv_hw := hw'\<rparr>))"
proof -
  let ?a = "cqes q + 16 * unat (cq_head q)"
  from assms(2) obtain b1 hw1 b2 where b: "mem_load E (nv_hw s) (?a + 14) 2 = Some (b1, hw1)" "mem_load E hw1 (?a + 12) 2 = Some (b2, hw')"
    "st = of_nat (le_value (take 2 b1))" "ci = of_nat (le_value (take 2 b2))"
    unfolding poll_def Let_def by (auto split: option.splits)
  have load: "dbind (nv_load E (?a + 14) 2) f s = f (le_value (take 2 b1)) (s\<lparr>nv_hw := hw1\<rparr>)"
    "dbind (nv_load E (?a + 12) 2) f (s\<lparr>nv_hw := hw1\<rparr>) = f (le_value (take 2 b2)) (s\<lparr>nv_hw := hw'\<rparr>)"
    for f :: "nat \<Rightarrow> (('a, 'b, 'c) nvme, (nvme_error + unit) \<times> nvme_queue) drv"
    using b(1,2) by (auto intro!: dbind_run(1) simp: nv_load_def nv_run_def)
  have vol: "vol_read E (vol_new E x) = x" for x using assms(1) by (simp add: volatile_ok_def)
  show ?thesis
    unfolding completion_loop.simps Let_def entry_layout vol load b(3,4) NVME_SC_SUCCESS_def by (simp add: drv)
qed

text \<open>The result and the state when the look on \<open>hw\<close> ends the wait.\<close>

definition completion_of :: "('hw, 'm, 'f, 'v) nvme_env \<Rightarrow> nvme_queue \<Rightarrow> 'hw \<Rightarrow> (nvme_error + unit) \<times> nvme_queue" where
  "completion_of E q hw = (if unat (fst (the (poll E q hw))) div 2 mod 128 \<noteq> 0 then Inl CommandFailed else Inr (), consumed q)"

lemma completion_step:
  assumes "volatile_ok E" "poll E q (nv_hw s) \<noteq> None" "cq_head q < q_depth q"
  shows "completion_loop E q cmd_id False (Suc n) s =
    (if answered E q cmd_id (nv_hw s) then Some (Ok (completion_of E q (nv_hw s), s\<lparr>nv_hw := seen E q 1 (nv_hw s)\<rparr>))
     else completion_loop E q cmd_id False n (s\<lparr>nv_hw := seen E q 1 (nv_hw s)\<rparr>))"
proof -
  obtain st ci hw' where p: "poll E q (nv_hw s) = Some (st, ci, hw')" using assms(2) by (cases "poll E q (nv_hw s)") auto
  have "drop_bit 1 (ucast st :: u8) = 0 \<longleftrightarrow> unat (drop_bit 1 (ucast st :: u8)) = 0" by (simp add: unat_eq_zero)
  also have "\<dots> \<longleftrightarrow> unat st mod 256 div 2 = 0" by (simp add: unat_drop_bit unat_ucast_mod)
  also have "\<dots> \<longleftrightarrow> unat st div 2 mod 128 = 0" using mod_mult2_eq [of "unat st" 2 128] by simp
  finally show ?thesis
    using completion_look [OF assms(1) p, of cmd_id n] by (simp add: p answered_def completion_of_def advance_consumed [OF assms(3)] drv)
qed

lemma completion_miss:
  assumes "volatile_ok E" "\<And>hw. poll E q hw \<noteq> None" "cq_head q < q_depth q"
  shows "(\<forall>i < n. \<not> answered E q cmd_id (seen E q i (nv_hw s))) \<Longrightarrow>
    completion_loop E q cmd_id False n s = Some (Ok ((Inl Timeout, q), s\<lparr>nv_hw := seen E q n (nv_hw s)\<rparr>))"
proof (induction n arbitrary: s)
  case (Suc n)
  then have "\<not> answered E q cmd_id (nv_hw s)" by force
  moreover have "\<forall>i < n. \<not> answered E q cmd_id (seen E q i (seen E q 1 (nv_hw s)))" using Suc.prems by fastforce
  ultimately show ?case
    using Suc.IH [of "s\<lparr>nv_hw := seen E q 1 (nv_hw s)\<rparr>"] completion_step [OF assms(1,2,3), of cmd_id n s] by simp
qed (simp add: drv)

lemma completion_hit:
  assumes "volatile_ok E" "\<And>hw. poll E q hw \<noteq> None" "cq_head q < q_depth q"
  shows "i < n \<Longrightarrow> (\<forall>j < i. \<not> answered E q cmd_id (seen E q j (nv_hw s))) \<Longrightarrow> answered E q cmd_id (seen E q i (nv_hw s)) \<Longrightarrow>
    completion_loop E q cmd_id False n s =
      Some (Ok (completion_of E q (seen E q i (nv_hw s)), s\<lparr>nv_hw := seen E q (Suc i) (nv_hw s)\<rparr>))"
proof (induction i arbitrary: n s)
  case 0
  then show ?case using completion_step [OF assms(1,2,3), of cmd_id "n - 1" s] by simp
next
  case (Suc i)
  then have "\<not> answered E q cmd_id (nv_hw s)" by force
  moreover have "\<forall>j < i. \<not> answered E q cmd_id (seen E q j (seen E q 1 (nv_hw s)))" using Suc.prems(2) by fastforce
  ultimately show ?case
    using Suc.IH [of "n - 1" "s\<lparr>nv_hw := seen E q 1 (nv_hw s)\<rparr>"] Suc.prems completion_step [OF assms(1,2,3), of cmd_id "n - 1" s] by simp
qed

text \<open>
  Waiting for the completion of a command, when the entry at the head of the queue is mapped: the queue is
  looked at up to 1000 times per millisecond of the timeout. If a look sees the phase of the queue and the
  identifier of the command, the first such look ends the wait: the head moves round the ring by one, the
  phase changes when it wraps, and the command failed exactly if the low seven bits of the status code are
  not 0, so the code 0x80 counts as success. If no look does, the wait ends with a timeout and the queue is
  as before.
\<close>

theorem wait_completion_exact:
  assumes "volatile_ok E" "\<And>hw. poll E q hw \<noteq> None" "cq_head q < q_depth q" "unat timeout_ms * 1000 < 4294967296"
  shows "((\<forall>i < unat timeout_ms * 1000. \<not> answered E q cmd_id (seen E q i (nv_hw s))) \<longrightarrow>
      wait_completion E q cmd_id timeout_ms False s =
        Some (Ok ((Inl Timeout, q), s\<lparr>nv_hw := seen E q (unat timeout_ms * 1000) (nv_hw s)\<rparr>))) \<and>
    (\<forall>i < unat timeout_ms * 1000. (\<forall>j < i. \<not> answered E q cmd_id (seen E q j (nv_hw s))) \<and>
        answered E q cmd_id (seen E q i (nv_hw s)) \<longrightarrow>
      wait_completion E q cmd_id timeout_ms False s =
        Some (Ok ((if unat (fst (the (poll E q (seen E q i (nv_hw s))))) div 2 mod 128 \<noteq> 0 then Inl CommandFailed else Inr (), consumed q),
          s\<lparr>nv_hw := seen E q (Suc i) (nv_hw s)\<rparr>)))"
proof -
  have "wmul timeout_ms 1000 = Ok (timeout_ms * 1000)" "unat (timeout_ms * 1000) = unat timeout_ms * 1000"
    using assms(4) by (simp_all add: wmul_def unat_word_ariths)
  then show ?thesis
    unfolding wait_completion_def completion_of_def [symmetric]
    using completion_miss [OF assms(1-3), of "unat timeout_ms * 1000" cmd_id s] completion_hit [OF assms(1-3), of _ "unat timeout_ms * 1000" cmd_id s]
    by (simp add: drv)
qed

section \<open>An example\<close>

text \<open>A memory of bytes, a tick counter that counts its loads, and an inert device whose base address is 0.\<close>

definition demo_queue :: nvme_queue where
  "demo_queue = \<lparr>sq_cmds = 0, cqes = 0x4000, sq_db = 0, cq_db = 0, sq_tail = 0, cq_head = 1, q_id = 0, q_depth = 2, cq_phase = 1,
     sqe_shift = 0, cqe_shift = 0\<rparr>"

definition demo_controller :: nvme_controller where
  "demo_controller = \<lparr>ctl_dev = nic, bar0 = 0, stride = 4, page_size = 4096, max_queue_entries = 64, num_io_queues = 0, ctl_enabled = True,
     admin_queue = demo_queue, io_queues = replicate 8 demo_queue, ctrl_data = 0,
     namespaces = replicate 256 \<lparr>ns_id = 1, ns_size = 0x2000, lba_size = 512, lba_shift = 0, ns_valid = True, ns_data = 0\<rparr>,
     num_namespaces = 0, next_cmd_id = 0\<rparr>"

definition demo_nvme_env :: "(addr \<Rightarrow> u8, addr \<rightharpoonup> addr \<times> page_flag set, boot_frames, nat) nvme_env" where
  "demo_nvme_env = \<lparr>nv_machine = inert_machine, mem_load = \<lambda>hw a n. Some (map (\<lambda>i. hw (a + i)) [0..<n], hw),
     mem_store = \<lambda>hw a bs. Some (\<lambda>x. if a \<le> x \<and> x < a + length bs then bs ! (x - a) else hw x),
     vol_new = \<lambda>v. v, vol_read = \<lambda>c. c, vol_write = \<lambda>_ v. v, nv_ops = demo_mapper, nv_ops_empty = demo_mapper,
     nv_frame = allocate_frame Ok, nv_frame_of = Ok, nv_map_text = \<lambda>_. [], nv_unmap_text = \<lambda>_. [], nv_ecam = 0, nv_pmo = 0,
     nv_ticks = \<lambda>k. k, nv_font = demo_font, nv_loc = \<lambda>_. [], controller_size = 12288, fresh_controller = demo_controller, local_addr = 0x7000,
     overrun = dpanic Undefined\<rparr>"

definition demo_nvme :: "(addr \<Rightarrow> u8) \<Rightarrow> (addr \<Rightarrow> u8, addr \<rightharpoonup> addr \<times> page_flag set, boot_frames) nvme" where
  "demo_nvme m = \<lparr>ctl = demo_controller, nv_vm = \<lparr>vm_mapper = Map.empty, vm_frames = boot_frames_init demo_map, next_virt = 0x10000, next_virt_user = 0x20000\<rparr>,
     nv_con = \<lparr>con_tty = None, con_serial = []\<rparr>, nv_loads = 0, nv_hw = m\<rparr>"

lemma demo_volatile: "volatile_ok demo_nvme_env"
  by (simp add: volatile_ok_def demo_nvme_env_def)

theorem registers_detached_witness:
  "read_reg32 demo_nvme_env 0x14 (demo_nvme (\<lambda>_. 0)) = Some (Ok (Some 0x14, demo_nvme (\<lambda>_. 0))) \<and>
   nvme_reset demo_nvme_env (demo_nvme (\<lambda>_. 0)) = Some (Ok (Inr (), demo_nvme (\<lambda>_. 0))) \<and>
   wait_ready demo_nvme_env True 2 (demo_nvme (\<lambda>_. 0)) = Some (Ok (Inl Timeout, (demo_nvme (\<lambda>_. 0))\<lparr>nv_loads := 4\<rparr>))"
proof -
  have "bar_reads demo_nvme_env (demo_nvme (\<lambda>_. 0)) 0"
    by (simp add: bar_reads_def read_bar_def read_config_def demo_nvme_env_def demo_nvme_def inert_machine_def)
  moreover have sl: "sleep_ms (\<lambda>k. k) 1 k = Ok (Some (Suc (Suc k)))" if "k < 100" for k
    using that wait_tick_ends [of "Suc k" "\<lambda>k. k" "Suc k" "Suc k"] by (simp add: sleep_ms_def)
  moreover have "sleeps (\<lambda>k. k) (Suc (Suc 0)) 0 = Some 4" using sl [of 0] sl [of 2] by (simp add: numeral_2_eq_2)
  then have "sleeps (nv_ticks demo_nvme_env) (unat (2 :: u32)) (nv_loads (demo_nvme (\<lambda>_. 0))) = Some 4"
    by (simp add: demo_nvme_env_def demo_nvme_def flip: numeral_2_eq_2)
  ultimately show ?thesis
    using registers_detached [OF demo_volatile, of "demo_nvme (\<lambda>_. 0)" 0 2 4 0] by (simp add: word_le_nat_alt)
qed

theorem wait_completion_exact_witness:
  "wait_completion demo_nvme_env demo_queue 7 1 False (demo_nvme (\<lambda>a. if a = 0x401E \<or> a = 0x401F then 1 else if a = 0x401C then 7 else 0)) =
     Some (Ok ((Inr (), demo_queue\<lparr>cq_head := 0, cq_phase := 0, cq_db := 0\<rparr>),
       demo_nvme (\<lambda>a. if a = 0x401E \<or> a = 0x401F then 1 else if a = 0x401C then 7 else 0)))"
proof -
  let ?m = "\<lambda>a. if a = 0x401E \<or> a = 0x401F then 1 else if a = 0x401C then 7 else 0 :: u8"
  have p: "poll demo_nvme_env demo_queue hw =
      Some (of_nat (le_value [hw 0x401E, hw 0x401F]), of_nat (le_value [hw 0x401C, hw 0x401D]), hw)" for hw
    by (simp add: poll_def demo_nvme_env_def demo_queue_def numeral_2_eq_2)
  then have "answered demo_nvme_env demo_queue 7 ?m" by (simp add: answered_def le_value_def demo_queue_def)
  moreover have "nv_hw (demo_nvme ?m) = ?m" "(demo_nvme ?m)\<lparr>nv_hw := ?m\<rparr> = demo_nvme ?m" by (simp_all add: demo_nvme_def)
  moreover have "consumed demo_queue = demo_queue\<lparr>cq_head := 0, cq_phase := 0, cq_db := 0\<rparr>" by (simp add: consumed_def demo_queue_def)
  moreover have "cq_head demo_queue < q_depth demo_queue" by (simp add: demo_queue_def)
  ultimately show ?thesis
    using wait_completion_exact [OF demo_volatile, of demo_queue 1 7 "demo_nvme ?m", THEN conjunct2, THEN spec, of 0] by (simp add: p le_value_def)
qed

end
