(* ===== verification/Nvme_Io.thy ===== *)
theory Nvme_Io
  imports Nvme
begin

text \<open>
  The NVMe driver, second half (\<open>kernel/src/drivers/nvme.rs\<close>): commands, namespaces, transfers, the probing of
  controllers, their shutdown and the test of a controller. A command is submitted through
  \<^const>\<open>submit_cmd_to_queue\<close>, whose copy is undefined; what follows a submission is translated, and what the copy
  does to the program is the parameter \<open>overrun\<close>.
\<close>

unbundle bit_operations_syntax

section \<open>Text of errors\<close>

text \<open>\<open>{:?}\<close> on the derived \<open>Debug\<close>.\<close>

fun error_text :: "nvme_error \<Rightarrow> ustr" where
  "error_text NotFound = lit ''NotFound''"
| "error_text InitFailed = lit ''InitFailed''"
| "error_text Timeout = lit ''Timeout''"
| "error_text InvalidParam = lit ''InvalidParam''"
| "error_text NoMemory = lit ''NoMemory''"
| "error_text DeviceError = lit ''DeviceError''"
| "error_text NotReady = lit ''NotReady''"
| "error_text CommandFailed = lit ''CommandFailed''"
| "error_text NotInitialized = lit ''NotInitialized''"
| "error_text OutOfMemory = lit ''OutOfMemory''"
| "error_text NoQueue = lit ''NoQueue''"
| "error_text RWRegError = lit ''RWRegError''"
| "error_text NamespaceNotFound = lit ''NamespaceNotFound''"

text \<open>A \<open>match\<close> that logs an error and returns it.\<close>

definition try_log :: "('hw, 'm, 'f, 'v) nvme_env \<Rightarrow> nat \<Rightarrow> string \<Rightarrow> (('hw, 'm, 'f) nvme, nvme_error + 'a) drv \<Rightarrow>
    ('a \<Rightarrow> (('hw, 'm, 'f) nvme, nvme_error + 'b) drv) \<Rightarrow> (('hw, 'm, 'f) nvme, nvme_error + 'b) drv" where
  "try_log E line msg m f = dbind m (\<lambda>r. case r of Inl e \<Rightarrow> nv_fail E line [lit msg, error_text e] e | Inr x \<Rightarrow> f x)"

section \<open>Admin commands\<close>

text \<open>The command comes back with its identifier and addresses filled in.\<close>

definition submit_admin_cmd :: "('hw, 'm, 'f, 'v) nvme_env \<Rightarrow> nvme_command \<Rightarrow> addr \<Rightarrow> u32 \<Rightarrow>
    (('hw, 'm, 'f) nvme, nvme_error + nvme_command) drv" where
  "submit_admin_cmd E cmd buffer timeout_ms =
     try_log E 409 ''(NVME) Unable to get next cmd id! Error: '' get_next_cmd_id (\<lambda>i.
     dbind (if buffer \<noteq> 0 then dlift (uadd buffer (nv_pmo E)) else dret 0) (\<lambda>p.
     let cmd = cmd\<lparr>command_id := i, prp1 := of_nat p, prp2 := 0\<rparr>
     in try_log E 426 ''(NVME) Unable to submit cmd to admin queue! Error: '' (submit_cmd_to_queue E Admin_queue) (\<lambda>_.
        try_ok (wait_on_queue E Admin_queue (command_id cmd) timeout_ms) (\<lambda>_. dret (Inr cmd)))))"

definition identify :: "('hw, 'm, 'f, 'v) nvme_env \<Rightarrow> (('hw, 'm, 'f) nvme, nvme_error + unit) drv" where
  "identify E =
     dbind (nv_alloc E (size_of NVMeIDCtrl)) (\<lambda>r. case r of
       None \<Rightarrow> nv_fail E 442 [lit ''(NVME) Unable to allocate '', decimal (size_of NVMeIDCtrl), lit '' bytes to identify controller!''] OutOfMemory
     | Some v \<Rightarrow>
         dbind (set_ctl (ctrl_data_update (\<lambda>_. v))) (\<lambda>_.
         try_ok (submit_admin_cmd E (new_command NVME_ADMIN_IDENTIFY 0 0 1 0 0) v NVME_COMMAND_TIMEOUT_MS) (\<lambda>_. dret (Inr ()))))"

definition put_ns :: "nat \<Rightarrow> (nvme_namespace \<Rightarrow> nvme_namespace) \<Rightarrow> (('hw, 'm, 'f) nvme, unit) drv" where
  "put_ns i g = set_ctl (namespaces_update (\<lambda>l. l[i := g (l ! i)]))"

text \<open>The block size from the identification data at \<open>d\<close>.\<close>

definition read_lba_size :: "('hw, 'm, 'f, 'v) nvme_env \<Rightarrow> addr \<Rightarrow> (('hw, 'm, 'f) nvme, u32) drv" where
  "read_lba_size E d =
     dbind (nv_load E (d + offset_of NVMeIDNS ''flbas'') 1) (\<lambda>lba_format.
     dbind (nv_load E (d + offset_of NVMeIDNS ''nlbaf'') 1) (\<lambda>nlbaf.
       if lba_format < nlbaf
       then if lba_format \<ge> 16 then dpanic IndexOutOfBounds
            else dbind (nv_load E (d + offset_of NVMeIDNS ''lbaf'' + size_of Lbaf * lba_format + offset_of Lbaf ''lbads'') 1) (\<lambda>lbads.
                 dlift (wshl 1 lbads))
       else dret 512))"

definition identify_namespace :: "('hw, 'm, 'f, 'v) nvme_env \<Rightarrow> u32 \<Rightarrow> (('hw, 'm, 'f) nvme, nvme_error + unit) drv" where
  "identify_namespace E nsid =
     dbind (dlift (usub (unat nsid) 1)) (\<lambda>i.
     dbind (dget (\<lambda>s. length (namespaces (ctl s)))) (\<lambda>n.
       if n \<le> i then nv_fail E 484 [lit ''(NVME) Unable to get namespace #'', decimal (unat nsid), lit ''!''] NotFound
       else dbind (nv_alloc E (size_of NVMeIDNS)) (\<lambda>r. case r of
         None \<Rightarrow> nv_fail E 491 [lit ''(NVME) Unable to allocate '', decimal (size_of NVMeIDNS), lit '' bytes to identify a namespace!''] OutOfMemory
       | Some nsd \<Rightarrow>
           dbind (put_ns i (ns_data_update (\<lambda>_. nsd))) (\<lambda>_.
           try_ok (submit_admin_cmd E (new_command NVME_ADMIN_IDENTIFY nsid 0 0 0 0) nsd NVME_COMMAND_TIMEOUT_MS) (\<lambda>_.
           dbind (put_ns i (ns_id_update (\<lambda>_. nsid))) (\<lambda>_.
           dbind (nv_load E (nsd + offset_of NVMeIDNS ''nsze'') 8) (\<lambda>sz.
           dbind (put_ns i (ns_size_update (\<lambda>_. of_nat sz))) (\<lambda>_.
           dbind (read_lba_size E nsd) (\<lambda>ls.
           dbind (put_ns i (\<lambda>n. n\<lparr>lba_size := ls, ns_valid := True\<rparr>)) (\<lambda>_. dret (Inr ())))))))))))"

text \<open>\<open>self.io_queues[qid as usize - 1]\<close>, and the first data word of both commands.\<close>

definition queue_command :: "('hw, 'm, 'f, 'v) nvme_env \<Rightarrow> u8 \<Rightarrow> (nvme_queue \<Rightarrow> addr) \<Rightarrow> u16 \<Rightarrow> u16 \<Rightarrow> u32 \<Rightarrow>
    (('hw, 'm, 'f) nvme, nvme_error + unit) drv" where
  "queue_command E code pointer qid depth c11 =
     dbind (dlift (usub (unat qid) 1)) (\<lambda>i.
     dbind (get_queue (Io_queue i)) (\<lambda>q.
     dbind (dlift (usub (pointer q) (nv_pmo E))) (\<lambda>p.
     dbind (dlift (wsub (ucast depth) 1)) (\<lambda>d.
     try_ok (submit_admin_cmd E (new_command code 0 (of_nat p) (d OR push_bit 16 (ucast qid)) c11 0) 0 NVME_COMMAND_TIMEOUT_MS)
       (\<lambda>_. dret (Inr ()))))))"

definition create_cq :: "('hw, 'm, 'f, 'v) nvme_env \<Rightarrow> u16 \<Rightarrow> u16 \<Rightarrow> (('hw, 'm, 'f) nvme, nvme_error + unit) drv" where
  "create_cq E qid depth = queue_command E NVME_ADMIN_CREATE_CQ cqes qid depth 1"

definition create_sq :: "('hw, 'm, 'f, 'v) nvme_env \<Rightarrow> u16 \<Rightarrow> u16 \<Rightarrow> (('hw, 'm, 'f) nvme, nvme_error + unit) drv" where
  "create_sq E qid depth = queue_command E NVME_ADMIN_CREATE_SQ sq_cmds qid depth (push_bit 16 (ucast qid) OR 1)"

section \<open>Transfers\<close>

definition get_namespace :: "u32 \<Rightarrow> (('hw, 'm, 'f) nvme, nvme_error + nvme_namespace) drv" where
  "get_namespace nsid =
     (if nsid = 0 \<or> nsid > 256 then dret (Inl NamespaceNotFound)
      else dbind (dget (\<lambda>s. namespaces (ctl s))) (\<lambda>l. dbind (dlift (index l (unat nsid - 1))) (\<lambda>ns.
        dret (if ns_valid ns then Inr ns else Inl NamespaceNotFound))))"

definition submit_io_cmd :: "('hw, 'm, 'f, 'v) nvme_env \<Rightarrow> nvme_command \<Rightarrow> addr \<Rightarrow> u32 \<Rightarrow> (('hw, 'm, 'f) nvme, nvme_error + unit) drv" where
  "submit_io_cmd E cmd buffer timeout_ms =
     dbind (dget (\<lambda>s. if num_io_queues (ctl s) > 0 then Io_queue 0 else Admin_queue)) (\<lambda>target_queue.
     try_ok get_next_cmd_id (\<lambda>i.
     let cmd = cmd\<lparr>command_id := i\<rparr>
     in dbind (if buffer \<noteq> 0 then dbind (dlift (usub buffer (nv_pmo E))) (\<lambda>p. dret (cmd\<lparr>prp1 := of_nat p, prp2 := 0\<rparr>)) else dret cmd) (\<lambda>cmd.
        try_ok (submit_cmd_to_queue E target_queue) (\<lambda>_.
        wait_on_queue E target_queue (command_id cmd) timeout_ms))))"

definition u32_bytes :: "u32 \<Rightarrow> u8 list" where
  "u32_bytes v = [ucast v, ucast (drop_bit 8 v), ucast (drop_bit 16 v), ucast (drop_bit 24 v)]"

text \<open>The list of the pages of a transfer: the entries are 32 bits wide, and the first index is computed from 0.\<close>

definition fill_prp_list :: "('hw, 'm, 'f, 'v) nvme_env \<Rightarrow> addr \<Rightarrow> addr \<Rightarrow> u32 \<Rightarrow> nat \<Rightarrow> (('hw, 'm, 'f) nvme, unit) drv" where
  "fill_prp_list E prp_list buffer ps num_pages = dfor (\<lambda>i.
     dbind (dlift (rbind (wmul (of_nat i) ps) (\<lambda>o'. wadd (of_nat buffer) o'))) (\<lambda>v.
     dbind (dlift (usub i 1)) (\<lambda>k. nv_store E (prp_list + 4 * k) (u32_bytes v)))) [0..<num_pages]"

text \<open>The second address of a command: nothing, the second page, or the address of a list.\<close>

definition second_prp :: "('hw, 'm, 'f, 'v) nvme_env \<Rightarrow> nat \<Rightarrow> addr \<Rightarrow> u32 \<Rightarrow> nat \<Rightarrow> (('hw, 'm, 'f) nvme, nvme_error + u64) drv" where
  "second_prp E line buffer ps num_pages =
     (if num_pages = 1 then dret (Inr 0)
      else if num_pages = 2
      then dbind (dlift (rbind (uadd buffer (unat ps)) (\<lambda>a. usub a (nv_pmo E)))) (\<lambda>p. dret (Inr (of_nat p)))
      else dbind (dlift (rbind (usub num_pages 1) (\<lambda>n. umul n 8))) (\<lambda>bytes.
           dbind (nv_alloc E bytes) (\<lambda>r. case r of
             None \<Rightarrow> nv_fail E line [lit ''(NVME) Unable to allocate '', decimal bytes, lit '' bytes to read blocks!''] OutOfMemory
           | Some prp_list \<Rightarrow>
               dbind (fill_prp_list E prp_list buffer ps num_pages) (\<lambda>_.
               dbind (dlift (usub prp_list (nv_pmo E))) (\<lambda>p. dret (Inr (of_nat p)))))))"

text \<open>
  \<open>read_blocks\<close> and \<open>write_blocks\<close> differ in the lines of their messages and in a mask on the number of blocks;
  both send the command \<^const>\<open>NVME_IO_READ\<close>.
\<close>

definition transfer_blocks :: "('hw, 'm, 'f, 'v) nvme_env \<Rightarrow> nat \<Rightarrow> nat \<Rightarrow> (u32 \<Rightarrow> u32) \<Rightarrow> u32 \<Rightarrow> u64 \<Rightarrow> u32 \<Rightarrow> addr \<Rightarrow>
    (('hw, 'm, 'f) nvme, nvme_error + unit) drv" where
  "transfer_blocks E line1 line2 msk nsid lba num_blocks buffer =
     dbind (get_namespace nsid) (\<lambda>r. case r of
       Inl e \<Rightarrow> nv_fail E line1 [lit ''(NVME) Unable to get namespace #'', decimal (unat nsid), lit ''! Error: '', error_text e] e
     | Inr ns \<Rightarrow>
         if \<not> ns_valid ns then dret (Inl InvalidParam)
         else dbind (dlift (wsub num_blocks 1)) (\<lambda>count.
         let cmd = new_command NVME_IO_READ nsid 0 (ucast lba) (ucast (drop_bit 32 lba)) (msk count)
         in dbind (dget (\<lambda>s. page_size (ctl s))) (\<lambda>ps.
            dbind (dlift (wmul num_blocks (lba_size ns))) (\<lambda>transfer_size.
            dbind (dlift (rbind (wadd transfer_size ps) (\<lambda>a. rbind (wsub a 1) (\<lambda>b. wdiv b ps)))) (\<lambda>num_pages.
            dbind (dlift (ptr_sub buffer 1 (nv_pmo E))) (\<lambda>first_phys.
            try_ok (second_prp E line2 buffer ps (unat num_pages)) (\<lambda>p2.
            submit_io_cmd E (cmd\<lparr>prp1 := of_nat first_phys, prp2 := p2\<rparr>) buffer NVME_COMMAND_TIMEOUT_MS)))))))"

definition read_blocks :: "('hw, 'm, 'f, 'v) nvme_env \<Rightarrow> u32 \<Rightarrow> u64 \<Rightarrow> u32 \<Rightarrow> addr \<Rightarrow> (('hw, 'm, 'f) nvme, nvme_error + unit) drv" where
  "read_blocks E = transfer_blocks E 668 711 (\<lambda>n. n)"

definition write_blocks :: "('hw, 'm, 'f, 'v) nvme_env \<Rightarrow> u32 \<Rightarrow> u64 \<Rightarrow> u32 \<Rightarrow> addr \<Rightarrow> (('hw, 'm, 'f) nvme, nvme_error + unit) drv" where
  "write_blocks E = transfer_blocks E 740 783 (\<lambda>n. n AND 0xFFFF)"

section \<open>Releasing memory\<close>

text \<open>A \<open>match free(...)\<close> whose error is logged by \<open>report\<close> and otherwise ignored.\<close>

definition free_logged :: "('hw, 'm, 'f, 'v) nvme_env \<Rightarrow> (('hw, 'm, 'f) nvme, unmap_error + unit) drv \<Rightarrow>
    (ustr \<Rightarrow> (('hw, 'm, 'f) nvme, unit) drv) \<Rightarrow> (('hw, 'm, 'f) nvme, unit) drv" where
  "free_logged E m report = dbind m (\<lambda>r. case r of Inl e \<Rightarrow> report (nv_unmap_text E e) | Inr _ \<Rightarrow> dret ())"

text \<open>\<open>free_queue\<close>, which does the same for both of its pointers; \<open>None\<close> is the null pointer.\<close>

definition release :: "('hw, 'm, 'f, 'v) nvme_env \<Rightarrow> queue_ref \<Rightarrow> addr \<Rightarrow> usize \<Rightarrow> nat \<Rightarrow> string \<Rightarrow> (nvme_queue \<Rightarrow> nvme_queue) \<Rightarrow>
    (('hw, 'm, 'f) nvme, unit) drv" where
  "release E r a free_amount line msg clear =
     (if a \<noteq> 0 then dbind (free_logged E (free_ptr E a free_amount) (\<lambda>e. nv_error E line [lit msg, e])) (\<lambda>_. put_queue r clear) else dret ())"

definition free_queue :: "('hw, 'm, 'f, 'v) nvme_env \<Rightarrow> queue_ref option \<Rightarrow> (('hw, 'm, 'f) nvme, nvme_error + unit) drv" where
  "free_queue E queue = (case queue of
     None \<Rightarrow> nv_fail E 1363 [lit ''(NVME) Given queue is null!''] InvalidParam
   | Some r \<Rightarrow>
       dbind (get_queue r) (\<lambda>q.
       dbind (release E r (sq_cmds q) (unat (q_depth q) * size_of NVMeCommand + 4096 - 1) 1373 ''(NVME) Unable to free sq cmds! Error: ''
                (\<lambda>q. q\<lparr>sq_cmds := 0\<rparr>)) (\<lambda>_.
       dbind (release E r (cqes q) (unat (q_depth q) * size_of NVMeCompletion + 4096 - 1) 1385 ''(NVME) Unable to free cqes! Error: ''
                (\<lambda>q. q\<lparr>cqes := 0\<rparr>)) (\<lambda>_. dret (Inr ())))))"

section \<open>Namespaces and I/O queues\<close>

definition init_namespaces :: "('hw, 'm, 'f, 'v) nvme_env \<Rightarrow> (('hw, 'm, 'f) nvme, nvme_error + unit) drv" where
  "init_namespaces E =
     dbind (nv_alloc E 4096) (\<lambda>r. case r of
       None \<Rightarrow> nv_fail E 808 [lit ''(NVME) Unable to allocate 4096 bytes to init namespaces!''] InitFailed
     | Some ns_list \<Rightarrow>
         try_ok (submit_admin_cmd E (new_command NVME_ADMIN_IDENTIFY 0 0 2 0 0) ns_list NVME_COMMAND_TIMEOUT_MS) (\<lambda>_.
         dbind (dfor_ret (\<lambda>i.
             let nsid = ns_list + i
             in if nsid = 0 then dret (Some (Inr ()))
                else dbind (identify_namespace E (of_nat nsid)) (\<lambda>r. case r of
                  Inl e \<Rightarrow> dret (Some (Inl e))
                | Inr _ \<Rightarrow>
                    dbind (dget (\<lambda>s. num_namespaces (ctl s))) (\<lambda>n.
                    dbind (dlift (wadd n 1)) (\<lambda>n'.
                    dbind (set_ctl (num_namespaces_update (\<lambda>_. n'))) (\<lambda>_. dret None))))) [0..<1024]) (\<lambda>stop.
         if stop \<noteq> None \<and> stop \<noteq> Some (Inr ()) then dret (the stop)
         else dbind (free_logged E (free_ptr E ns_list 4096)
                (\<lambda>e. nv_warning E 844 [lit ''(NVME) Unable to free data! Error: '', e, lit ''. Assuming okay...''])) (\<lambda>_. dret (Inr ())))))"

text \<open>Falling back to the admin queue after an error.\<close>

definition fall_back :: "('hw, 'm, 'f, 'v) nvme_env \<Rightarrow> nat \<Rightarrow> string \<Rightarrow> nvme_error \<Rightarrow> (('hw, 'm, 'f) nvme, nvme_error + unit) drv \<Rightarrow>
    (('hw, 'm, 'f) nvme, nvme_error + unit) drv" where
  "fall_back E line what e cleanup =
     dbind (nv_warning E line [lit what, error_text e, lit ''. Falling back to admin queues only...'']) (\<lambda>_.
     try_ok cleanup (\<lambda>_. dbind (set_ctl (num_io_queues_update (\<lambda>_. 0))) (\<lambda>_. dret (Inr ()))))"

definition init_io_queues :: "('hw, 'm, 'f, 'v) nvme_env \<Rightarrow> (('hw, 'm, 'f) nvme, nvme_error + unit) drv" where
  "init_io_queues E =
     try_ok (submit_admin_cmd E (new_command NVME_ADMIN_GET_FEATURES 0 0 7 0 0) 0 NVME_COMMAND_TIMEOUT_MS) (\<lambda>get_feat.
     dbind (get_queue Admin_queue) (\<lambda>q.
     dbind (wait_completion E q (command_id get_feat) NVME_COMMAND_TIMEOUT_MS True) (\<lambda>(r, _). case r of
       Inl e \<Rightarrow> dret (Inl e)
     | Inr _ \<Rightarrow>
         let result = 0 :: u32
         in dbind (dlift (wadd (ucast result :: u16) 1)) (\<lambda>max_sq.
            dbind (dlift (wadd (ucast (drop_bit 16 result) :: u16) 1)) (\<lambda>max_cq.
            dbind (alloc_queue E (Io_queue 0) 1 2) (\<lambda>r. case r of
              Inl e \<Rightarrow> fall_back E 903 ''(NVME) Unable to allocate queue! Error: '' e (dret (Inr ()))
            | Inr _ \<Rightarrow>
            dbind (create_cq E 1 2) (\<lambda>r. case r of
              Inl e \<Rightarrow> fall_back E 916 ''(NVME) Unable to create completion queue! Error: '' e (free_queue E (Some (Io_queue 0)))
            | Inr _ \<Rightarrow>
            dbind (create_sq E 1 2) (\<lambda>r. case r of
              Inl e \<Rightarrow> fall_back E 930 ''(NVME) Unable to create submission queue! Error: '' e
                (try_ok (submit_admin_cmd E (new_command NVME_ADMIN_DELETE_CQ 0 0 1 0 0) 0 NVME_COMMAND_TIMEOUT_MS) (\<lambda>_.
                   free_queue E (Some (Io_queue 0))))
            | Inr _ \<Rightarrow> dbind (set_ctl (num_io_queues_update (\<lambda>_. 1))) (\<lambda>_. dret (Inr ()))))))))))"

section \<open>Device memory\<close>

definition map_device_memory :: "('hw, 'm, 'f, 'v) nvme_env \<Rightarrow> addr \<Rightarrow> usize \<Rightarrow> (('hw, 'm, 'f) nvme, addr option) drv" where
  "map_device_memory E phys_addr n =
     (if phys_addr < 0x100000000
      then dbind (dlift (rbind (uadd phys_addr (nv_pmo E)) (virt_new (nv_ops E)))) (\<lambda>v. dret (Some v))
      else let pages_needed = div_ceil n 4096
      in dbind (nv_alloc_pages E pages_needed) (\<lambda>r. case r of
        None \<Rightarrow> dbind (nv_error E 1134 [lit ''(NVME) Unable to allocate '', decimal pages_needed, lit '' pages!'']) (\<lambda>_. dret None)
      | Some virt_base \<Rightarrow>
          dbind (dfor (\<lambda>i. dbind (dlift (rbind (umul i 4096) (virt_add (nv_ops E) virt_base))) (\<lambda>v.
            free_logged E (nv_free E v 4096) (\<lambda>e. nv_warning E 1143 [lit ''(NVME) Unable to unmap page. Assuming okay... Error: '', e])))
            [0..<pages_needed]) (\<lambda>_.
          dbind (dfor_ret (\<lambda>i.
            dbind (dlift (rbind (umul i 4096) (\<lambda>o'. rbind (uadd virt_base o') (\<lambda>v. rbind (uadd phys_addr o') (\<lambda>p. Ok (v, p)))))) (\<lambda>(v, p).
            dbind (nv_vmem (\<lambda>vm. rbind (map_page (nv_ops_empty E) (nv_frame_of E) (vm_mapper vm) v p {PRESENT, WRITABLE})
                     (\<lambda>(r, mp). Ok (vm\<lparr>vm_mapper := mp\<rparr>, r)))) (\<lambda>r. case r of
              Inr _ \<Rightarrow> dret None
            | Inl e \<Rightarrow> dbind (nv_error E 1163 [lit ''(NVME) Unable to map page for device! Error: '', nv_map_text E e]) (\<lambda>_. dret (Some ())))))
            [0..<pages_needed]) (\<lambda>stop. dret (if stop = None then Some virt_base else None)))))"

definition alloc_aligned_buffer :: "('hw, 'm, 'f, 'v) nvme_env \<Rightarrow> usize \<Rightarrow> (('hw, 'm, 'f) nvme, addr option) drv" where
  "alloc_aligned_buffer E n =
     dbind (dlift (rbind (uadd n 4096) (\<lambda>a. rbind (usub a 1) (\<lambda>b. Ok (b div 4096))))) (\<lambda>pages.
     dbind (nv_alloc_pages E pages) (\<lambda>r. case r of
       None \<Rightarrow> dret None
     | Some buf \<Rightarrow>
         dbind (dlift (usub buf (nv_pmo E))) (\<lambda>phys.
           if phys mod 4096 \<noteq> 0
           then dbind (dlift (umul pages 4096)) (\<lambda>bytes.
                dbind (nv_free E buf bytes) (\<lambda>r. case r of
                  Inl _ \<Rightarrow> dpanic (ExpectFailed ''(NVME) Unable to unmap buffer!'')
                | Inr _ \<Rightarrow> dret None))
           else dret (Some buf))))"

section \<open>Probing\<close>

text \<open>The calls that release the controller, its data and its admin queue after an error.\<close>

definition free_controller :: "('hw, 'm, 'f, 'v) nvme_env \<Rightarrow> nat \<Rightarrow> addr \<Rightarrow> (('hw, 'm, 'f) nvme, unit) drv" where
  "free_controller E line controller = free_logged E (free_ptr E controller (controller_size E))
     (\<lambda>ee. nv_error E line [lit ''(NVME) Unable to free '', decimal (controller_size E), lit '' bytes for NVMe controller! Error: '', ee])"

definition free_admin_queue :: "('hw, 'm, 'f, 'v) nvme_env \<Rightarrow> nat \<Rightarrow> (('hw, 'm, 'f) nvme, unit) drv" where
  "free_admin_queue E line = dbind (free_queue E (Some Admin_queue)) (\<lambda>r. case r of
     Inl ee \<Rightarrow> nv_error E line [lit ''(NVME) Failed to free admin queue! Error: '', error_text ee]
   | Inr _ \<Rightarrow> dret ())"

text \<open>The mapping of the first base address register: the frame is a new one of the allocator.\<close>

definition map_bar :: "('hw, 'm, 'f, 'v) nvme_env \<Rightarrow> addr \<Rightarrow> (('hw, 'm, 'f) nvme, nvme_error + unit) drv" where
  "map_bar E page =
     dbind (nv_vmem (\<lambda>v. rbind (nv_frame E (vm_frames v)) (\<lambda>(f, frame). Ok (v\<lparr>vm_frames := f\<rparr>, frame)))) (\<lambda>frame. case frame of
       None \<Rightarrow> nv_fail E 1226 [lit ''(NVME) Unable to allocate a frame for BAR #0 of the PCI(e) device!''] InitFailed
     | Some f \<Rightarrow>
         dbind (nv_vmem (\<lambda>v. case map_to (nv_ops E) (vm_mapper v) page f {PRESENT, WRITABLE} (vm_frames v) of
             (r, mp, fr) \<Rightarrow> Ok (v\<lparr>vm_mapper := mp, vm_frames := fr\<rparr>, r))) (\<lambda>r. case r of
           Inr _ \<Rightarrow> dret (Inr ())
         | Inl (PageAlreadyMapped _) \<Rightarrow>
             dbind (nv_warning E 1235 [lit ''(NVME) Page for PCI(e) device's BAR #0 is already mapped.'']) (\<lambda>_. dret (Inr ()))
         | Inl e \<Rightarrow> nv_fail E 1238 [lit ''(NVME) Unable to map BAR #0 for PCI(e) device! Error: '', nv_map_text E e] InitFailed))"

text \<open>The three stages after the mapping, each with what it releases when it fails.\<close>

definition start_controller :: "('hw, 'm, 'f, 'v) nvme_env \<Rightarrow> addr \<Rightarrow> (('hw, 'm, 'f) nvme, nvme_error + unit) drv" where
  "start_controller E controller =
     dbind (controller_init E) (\<lambda>r. case r of
       Inl e \<Rightarrow> dbind (dall
         [nv_error E 1254 [lit ''(NVME) Unable to initialize controller! Error: '', error_text e],
          free_controller E 1262 controller]) (\<lambda>_. dret (Inl e))
     | Inr _ \<Rightarrow>
     dbind (identify E) (\<lambda>r. case r of
       Inl e \<Rightarrow> dbind (dall
         [nv_error E 1276 [lit ''(NVME) Unable to identify NVMe controller! Error: '', error_text e],
          free_admin_queue E 1280,
          free_controller E 1291 controller]) (\<lambda>_. dret (Inl e))
     | Inr _ \<Rightarrow>
     dbind (init_io_queues E) (\<lambda>r. case r of
       Inl e \<Rightarrow> dbind (dall
         [nv_error E 1306 [lit ''(NVME) Unable to initialize IO queues! Error: '', error_text e],
          dbind (dget (\<lambda>s. ctrl_data (ctl s))) (\<lambda>d. free_logged E (free_ptr E d (size_of NVMeIDCtrl))
            (\<lambda>ee. nv_error E 1315 [lit ''(NVME) Unable to free NVMe controller's data! Error: '', ee])),
          free_admin_queue E 1325,
          free_controller E 1336 controller]) (\<lambda>_. dret (Inl e))
     | Inr _ \<Rightarrow>
     dbind (init_namespaces E) (\<lambda>r. case r of
       Inl e \<Rightarrow> dbind (nv_warning E 1351 [lit ''(NVME) Unable to initialize NVMe controller's namespaces! Error: '', error_text e])
         (\<lambda>_. dret (Inr ()))
     | Inr _ \<Rightarrow> dret (Inr ())))))"

definition probe_controller :: "('hw, 'm, 'f, 'v) nvme_env \<Rightarrow> pci_device \<Rightarrow> (('hw, 'm, 'f) nvme, nvme_error + unit) drv" where
  "probe_controller E dev =
     dbind (nv_log (info (nv_font E) [lit ''(NVME) Probing PCI(e) device at: bus: '', decimal (unat (pci_bus dev)), lit '', device_id: '',
       decimal (unat (device_id dev)), lit '', func: '', decimal (unat (pci_func dev))])) (\<lambda>_.
     dbind (nv_alloc E (controller_size E)) (\<lambda>r. case r of
       None \<Rightarrow> nv_fail E 1203 [lit ''(NVME) Unable to allocate '', decimal (controller_size E), lit '' bytes for controller!''] OutOfMemory
     | Some controller \<Rightarrow>
         dbind (set_ctl (\<lambda>_. (fresh_controller E)\<lparr>ctl_dev := dev\<rparr>)) (\<lambda>_.
         dbind (nv_run (bar_address (nv_machine E) (nv_ecam E) dev 0)) (\<lambda>b. case b of
           None \<Rightarrow> nv_fail E 1216 [lit ''(NVME) Unable to get BAR #0 from PCI(e) device.''] InitFailed
         | Some a \<Rightarrow>
             dbind (dlift (rbind (uadd (unat a) (nv_pmo E)) (virt_new (nv_ops E)))) (\<lambda>v.
             try_ok (map_bar E (page_of (nv_ops E) v)) (\<lambda>_.
             dbind (nv_run (enable_bus_master (nv_machine E) (nv_ecam E) dev)) (\<lambda>on.
               if \<not> on then nv_fail E 1247 [lit ''(NVME) Unable to enable bus mastering on PCI(e) device!''] InitFailed
               else start_controller E controller)))))))"

definition is_nvme :: "('hw, 'm, 'f, 'v) nvme_env \<Rightarrow> pci_device \<Rightarrow> (('hw, 'm, 'f) nvme, bool) drv" where
  "is_nvme E dev =
     (if class_code dev = NVME_PCI_CLASS \<and> sub_class dev = NVME_PCI_SUBCLASS
      then dbind (nv_run (prog_if (nv_machine E) (nv_ecam E) dev)) (\<lambda>p. dret (p = NVME_PCI_PROG_IF))
      else dret False)"

definition nvme_init :: "('hw, 'm, 'f, 'v) nvme_env \<Rightarrow> (('hw, 'm, 'f) nvme, nvme_error + unit) drv" where
  "nvme_init E =
     dbind (nv_run (scan_pci_bus (nv_machine E) (nv_ecam E))) (\<lambda>devs.
     dbind (dfor_ret (\<lambda>dev. dbind (is_nvme E dev) (\<lambda>b.
         if b then dbind (probe_controller E dev) (\<lambda>r. dret (case r of Inl e \<Rightarrow> Some e | Inr _ \<Rightarrow> None)) else dret None)) devs) (\<lambda>stop.
       dret (case stop of Some e \<Rightarrow> Inl e | None \<Rightarrow> Inr ())))"

section \<open>Shutdown and test\<close>

text \<open>A step of \<open>shutdown\<close> whose error is logged and ends the iteration.\<close>

definition or_skip :: "('s, 'e + 'a) drv \<Rightarrow> ('e \<Rightarrow> ('s, unit) drv) \<Rightarrow> ('s, unit) drv \<Rightarrow> ('s, unit) drv" where
  "or_skip m report k = dbind m (\<lambda>r. case r of Inl e \<Rightarrow> report e | Inr _ \<Rightarrow> k)"

primrec free_io_queues :: "('hw, 'm, 'f, 'v) nvme_env \<Rightarrow> nat list \<Rightarrow> (('hw, 'm, 'f) nvme, unit) drv \<Rightarrow> (('hw, 'm, 'f) nvme, unit) drv" where
  "free_io_queues E [] k = k"
| "free_io_queues E (q # qs) k =
     or_skip (free_queue E (Some (Io_queue q)))
       (\<lambda>e. nv_error E 1428 [lit ''(NVME) Unable to free IO queue #'', decimal q, lit ''! Error: '', error_text e])
       (free_io_queues E qs k)"

text \<open>The loop over the controllers: the last call releases the page of the loop's own variable.\<close>

definition shutdown_one :: "('hw, 'm, 'f, 'v) nvme_env \<Rightarrow> nvme_controller \<Rightarrow> (('hw, 'm, 'f) nvme, unit) drv" where
  "shutdown_one E controller =
     dbind (set_ctl (\<lambda>_. controller)) (\<lambda>_.
     if \<not> ctl_enabled controller then dret ()
     else dbind (read_reg32 E (ucast NVME_REG_CC)) (\<lambda>r. case r of
       None \<Rightarrow> nv_error E 1402 [lit ''(NVME) Couldn't read CC register on NVMe controller!'']
     | Some c \<Rightarrow>
         dbind (write_reg32 E (ucast NVME_REG_CC) (c AND NOT (ucast NVME_CC_EN) OR ucast NVME_CC_SHN_NORMAL)) (\<lambda>_.
         or_skip (wait_ready E False NVME_SHUTDOWN_TIMEOUT_MS)
           (\<lambda>e. nv_error E 1411 [lit ''(NVME) Failed waiting for shutdown! Error: '', error_text e])
         (or_skip (free_queue E (Some Admin_queue))
           (\<lambda>e. nv_error E 1419 [lit ''(NVME) Unable to free admin queue! Error: '', error_text e])
         (dbind (dget (\<lambda>s. unat (num_io_queues (ctl s)))) (\<lambda>n. free_io_queues E [0..<n]
         (dbind (dget (\<lambda>s. ctrl_data (ctl s))) (\<lambda>d. or_skip (free_ptr E d (size_of NVMeIDCtrl))
           (\<lambda>e. nv_error E 1441 [lit ''(NVME) Unable to free controller data! Error: '', nv_unmap_text E e])
         (dbind (nv_log (nftodo (nv_font E) (nv_loc E 1446) [lit ''(NVME) shutdown: Free namespace data''])) (\<lambda>_.
          or_skip (free_ptr E (local_addr E) (controller_size E))
           (\<lambda>e. nv_error E 1455 [lit ''(NVME) Unable to free controller! Error: '', nv_unmap_text E e])
         (dret ())))))))))))"

definition nvme_shutdown :: "('hw, 'm, 'f, 'v) nvme_env \<Rightarrow> nvme_controller list \<Rightarrow> (('hw, 'm, 'f) nvme, unit) drv" where
  "nvme_shutdown E controllers = dfor (shutdown_one E) controllers"

text \<open>\<open>lba_sz + 4096 - 1 / 4096\<close> bytes of both buffers; \<open>False\<close> when one cannot be released.\<close>

definition free_buffers :: "('hw, 'm, 'f, 'v) nvme_env \<Rightarrow> nat \<Rightarrow> nat \<Rightarrow> addr \<Rightarrow> addr \<Rightarrow> usize \<Rightarrow> bool \<Rightarrow> (('hw, 'm, 'f) nvme, bool) drv" where
  "free_buffers E line1 line2 write_buf read_buf lba_sz result =
     (let report = (\<lambda>line e. dbind (nv_error E line [lit ''(NVME) Unable to free write buffer! Error: '', nv_unmap_text E e]) (\<lambda>_. dret False))
      in dbind (dlift (rbind (uadd lba_sz 4096) (\<lambda>a. usub a (1 div 4096)))) (\<lambda>n.
         dbind (free_ptr E write_buf n) (\<lambda>r. case r of
           Inl e \<Rightarrow> report line1 e
         | Inr _ \<Rightarrow> dbind (free_ptr E read_buf n) (\<lambda>r. case r of Inl e \<Rightarrow> report line2 e | Inr _ \<Rightarrow> dret result))))"

primrec last_namespace :: "('hw, 'm, 'f, 'v) nvme_env \<Rightarrow> nat list \<Rightarrow> u32 \<Rightarrow> (('hw, 'm, 'f) nvme, u32) drv" where
  "last_namespace E [] nsid = dret nsid"
| "last_namespace E (i # is) nsid = dbind (get_namespace (of_nat i)) (\<lambda>r. case r of
     Inr _ \<Rightarrow> last_namespace E is (of_nat i)
   | Inl e \<Rightarrow> dbind (nv_warning E 1480 [lit ''(NVME) Unable to get namespace #'', decimal i, lit ''! Error: '', error_text e,
       lit ''. Going to next candidate...'']) (\<lambda>_. last_namespace E is nsid))"

definition test_blocks :: "('hw, 'm, 'f, 'v) nvme_env \<Rightarrow> u32 \<Rightarrow> u64 \<Rightarrow> addr \<Rightarrow> addr \<Rightarrow> usize \<Rightarrow> (('hw, 'm, 'f) nvme, bool) drv" where
  "test_blocks E nsid test_lba write_buf read_buf lba_sz =
     dbind (write_bytes E write_buf 0 lba_sz) (\<lambda>_.
     dbind (copy_local E (length ''lemoncake is cool i guess'') 1 (length ''lemoncake is cool i guess'' + 1)) (\<lambda>_.
     dbind (write_blocks E nsid test_lba 1 write_buf) (\<lambda>r. case r of
       Inl e \<Rightarrow> dbind (nv_error E 1536 [lit ''(NVME) Unable to write testing block! Error: '', error_text e]) (\<lambda>_.
         free_buffers E 1544 1556 write_buf read_buf lba_sz False)
     | Inr _ \<Rightarrow>
         dbind (nv_log (info (nv_font E) [lit ''(NVME) Successfully wrote testing block!''])) (\<lambda>_.
         dbind (write_bytes E read_buf 0xFF lba_sz) (\<lambda>_.
         dbind (read_blocks E nsid test_lba 1 read_buf) (\<lambda>r. case r of
           Inl e \<Rightarrow> dbind (nv_error E 1569 [lit ''(NVME) Unable to read testing block! Error: '', error_text e]) (\<lambda>_.
             free_buffers E 1577 1589 write_buf read_buf lba_sz False)
         | Inr _ \<Rightarrow>
             dbind (nv_load E write_buf (length ''lemoncake is cool i guess'' + 1)) (\<lambda>w.
             dbind (nv_load E read_buf (length ''lemoncake is cool i guess'' + 1)) (\<lambda>r.
               if w = r
               then dbind (nv_log (info (nv_font E) [lit ''(NVME) Successfully read from testing block!''])) (\<lambda>_.
                    free_buffers E 1634 1646 write_buf read_buf lba_sz True)
               else dbind (nv_error E 1600 [lit ''(NVME) Successfully read from testing block, but data read wasn't expected.'']) (\<lambda>_.
                    free_buffers E 1608 1620 write_buf read_buf lba_sz False)))))))))"

definition run_basic_test :: "('hw, 'm, 'f, 'v) nvme_env \<Rightarrow> (('hw, 'm, 'f) nvme, bool) drv" where
  "run_basic_test E =
     (let quit = (\<lambda>line msg. dbind (nv_error E line msg) (\<lambda>_. dret False))
      in dbind (dget (\<lambda>s. ctl_enabled (ctl s))) (\<lambda>on.
        if \<not> on then quit 1469 [lit ''(NVME) Unable to test controller, as it is not enabled!'']
        else dbind (last_namespace E [1..<256] 0) (\<lambda>nsid.
          if nsid = 0 then quit 1491 [lit ''(NVME) No valid namespace candidates.'']
          else dbind (get_namespace nsid) (\<lambda>r. case r of
            Inl e \<Rightarrow> quit 1498 [lit ''(NVME) Could not get namespace #'', decimal (unat nsid), lit '' again! Error: '', error_text e]
          | Inr ns \<Rightarrow>
              let test_lba = (if 0x1000 \<ge> ns_size ns then 0x1000 div 2 else 0x1000)
              in dbind (alloc_aligned_buffer E (unat (lba_size ns))) (\<lambda>b. case b of
                None \<Rightarrow> quit 1514 [lit ''(NVME) Unable to allocate aligned buffer for writing!'']
              | Some write_buf \<Rightarrow> dbind (alloc_aligned_buffer E (unat (lba_size ns))) (\<lambda>b. case b of
                None \<Rightarrow> quit 1521 [lit ''(NVME) Unable to allocate aligned buffer for reading!'']
              | Some read_buf \<Rightarrow> test_blocks E nsid test_lba write_buf read_buf (unat (lba_size ns))))))))"

section \<open>No controller is brought up\<close>

lemma start_controller_fails: "\<not> succeeds (start_controller E controller) s"
proof -
  have "controller_init E s \<noteq> Some (Ok (Inr x, s'))" for x s' using controller_init_fails [of E s] by (simp add: fails_iff)
  then show ?thesis by (auto simp: start_controller_def succeeds_dbind split: sum.splits)
qed

lemma probe_fails: "\<not> succeeds (probe_controller E dev) s"
  by (auto simp: probe_controller_def succeeds_rules start_controller_fails split: option.splits if_splits)

text \<open>
  C39. No controller is ever brought up, whatever the device does. Once the capabilities are read, the initialisation
  of a controller with the NVM command set (bit 37) panics, since the shift that computes the doorbell stride
  overflows; without that bit it ends with \<open>InitFailed\<close>, or in the overflow of one of the sums and shifts before. So neither
  the initialisation nor the probing of a controller succeeds, and no command is submitted by them.
\<close>

theorem nvme_no_controller:
  "\<not> succeeds (probe_controller E dev) s \<and> \<not> succeeds (controller_init E) s \<and>
   (read_reg64 E (ucast NVME_REG_CAP) s = Some (Ok (Some cap, s1)) \<longrightarrow>
     (if bit cap 37 then controller_init E s = Some (Panic ArithOverflow)
      else controller_init E s = Some (Panic ArithOverflow) \<or> (\<exists>s'. controller_init E s = Some (Ok (Inl InitFailed, s')))))"
proof -
  have nvm: "drop_bit 37 cap AND 1 \<noteq> 0 \<longleftrightarrow> bit cap 37" for cap :: u64
    by (simp add: and_one_eq bit_iff_odd_drop_bit even_iff_mod_2_eq_zero)
  have "if bit cap 37 then controller_init E s = Some (Panic ArithOverflow)
      else controller_init E s = Some (Panic ArithOverflow) \<or> (\<exists>s'. controller_init E s = Some (Ok (Inl InitFailed, s')))"
    if "read_reg64 E (ucast NVME_REG_CAP) s = Some (Ok (Some cap, s1))"
    using controller_init_cap [OF that] controller_init_no_nvm [OF that] nvm [of cap] by auto
  then show ?thesis using probe_fails controller_init_fails by blast
qed

theorem nvme_no_controller_witness:
  "controller_init demo_nvme_env (demo_nvme (\<lambda>a. if a = 4 then 0x20 else 0)) = Some (Panic ArithOverflow) \<and>
   \<not> succeeds (probe_controller demo_nvme_env nic) (demo_nvme (\<lambda>_. 0))"
proof -
  let ?s = "demo_nvme (\<lambda>a. if a = 4 then 0x20 else 0)"
  have "bar_reads demo_nvme_env ?s 0"
    by (simp add: bar_reads_def read_bar_def read_config_def demo_nvme_env_def demo_nvme_def inert_machine_def)
  then have addr: "dbind (reg_addr demo_nvme_env 171 0) f ?s = f (Some 0) ?s"
    for f :: "u32 option \<Rightarrow> ((addr \<Rightarrow> u8, addr \<rightharpoonup> addr \<times> page_flag set, boot_frames) nvme, u64 option) drv"
    by (intro dbind_run(1)) (simp add: reg_addr_run [of demo_nvme_env ?s 0 0])
  have "read_reg64 demo_nvme_env 0 ?s = Some (Ok (Some 0x2000000000, ?s))"
    unfolding read_reg64_def addr
    by (simp add: deref_def nv_load_def nv_run_def demo_nvme_env_def demo_nvme_def le_value_def drv dbind_def upt_rec)
  moreover have "bit (0x2000000000 :: u64) 37" by simp
  ultimately show ?thesis
    using nvme_no_controller [of demo_nvme_env nic ?s "0x2000000000" ?s] nvme_no_controller [of demo_nvme_env nic "demo_nvme (\<lambda>_. 0)" 0 ?s]
    by (simp add: NVME_REG_CAP_def)
qed

section \<open>Releasing a queue\<close>

lemma get_queue_iff: "get_queue r s = Some (Ok (q, s')) \<longleftrightarrow> s' = s \<and>
    (case r of Admin_queue \<Rightarrow> q = admin_queue (ctl s) | Io_queue i \<Rightarrow> i < length (io_queues (ctl s)) \<and> q = io_queues (ctl s) ! i)"
  by (auto simp: get_queue_def drv dbind_Ok_iff dlift_Ok_iff index_def split: queue_ref.splits if_splits)

lemma get_queue_keep: "get_queue r s = Some (Ok (q, s)) \<Longrightarrow> ctl s' = ctl s \<Longrightarrow> get_queue r s' = Some (Ok (q, s'))"
  by (simp add: get_queue_iff split: queue_ref.splits)

lemma get_put_queue: "get_queue r s = Some (Ok (q, s)) \<Longrightarrow> put_queue r g s = Some (Ok (u, s')) \<Longrightarrow> get_queue r s' = Some (Ok (g q, s'))"
  by (auto simp: get_queue_iff put_queue_def set_ctl_def drv split: queue_ref.splits)

lemma nv_error_keeps: "nv_error E line msg s = Some (Ok (u, s')) \<Longrightarrow> ctl s' = ctl s"
  by (auto simp: nv_error_def nv_log_def res_iff)

lemma free_ptr_keeps: "free_ptr E a n s = Some (Ok (x, s')) \<Longrightarrow> ctl s' = ctl s"
  by (auto simp: free_ptr_def nv_free_def nv_vmem_def dbind_Ok_iff dlift_Ok_iff res_iff)

lemma free_logged_keeps: "free_logged E (free_ptr E a n) (\<lambda>e. nv_error E line (msg e)) s = Some (Ok (u, s')) \<Longrightarrow> ctl s' = ctl s"
  unfolding free_logged_def dbind_Ok_iff split_sum_ex
  by (auto simp: drv dest!: free_ptr_keeps nv_error_keeps)

lemma release_run:
  assumes "release E r a n line msg clear s = Some (Ok (u, s'))" "get_queue r s = Some (Ok (q, s))"
  shows "get_queue r s' = Some (Ok (if a \<noteq> 0 then clear q else q, s'))"
proof (cases "a = 0")
  case False
  then obtain x s1 where s1: "free_logged E (free_ptr E a n) (\<lambda>e. nv_error E line [lit msg, e]) s = Some (Ok (x, s1))"
    "put_queue r clear s1 = Some (Ok (u, s'))" using assms(1) by (auto simp: release_def dbind_Ok_iff)
  from get_put_queue [OF get_queue_keep [OF assms(2) free_logged_keeps [OF s1(1)]] s1(2)] False show ?thesis by simp
qed (use assms in \<open>auto simp: release_def drv\<close>)

text \<open>
  Releasing a queue releases its memory once: if \<open>free_queue\<close> returns, it reports success, both pointers of
  the queue are null, and calling it again changes nothing.
\<close>

theorem free_queue_once:
  assumes "free_queue E (Some r) s = Some (Ok (x, s'))"
  shows "x = Inr () \<and> (\<exists>q. get_queue r s' = Some (Ok (q, s')) \<and> sq_cmds q = 0 \<and> cqes q = 0) \<and>
    free_queue E (Some r) s' = Some (Ok (Inr (), s'))"
proof -
  obtain q s0 u1 s1 u2 where q: "get_queue r s = Some (Ok (q, s0))" and x: "x = Inr ()"
    and s1: "release E r (sq_cmds q) (unat (q_depth q) * size_of NVMeCommand + 4096 - 1) 1373 ''(NVME) Unable to free sq cmds! Error: ''
                (\<lambda>q. q\<lparr>sq_cmds := 0\<rparr>) s0 = Some (Ok (u1, s1))"
    and s2: "release E r (cqes q) (unat (q_depth q) * size_of NVMeCompletion + 4096 - 1) 1385 ''(NVME) Unable to free cqes! Error: ''
                (\<lambda>q. q\<lparr>cqes := 0\<rparr>) s1 = Some (Ok (u2, s'))"
    using assms unfolding free_queue_def option.case dbind_Ok_iff dret_run by blast
  have "s0 = s" using q by (simp add: get_queue_iff)
  with q s1 have "get_queue r s1 = Some (Ok (if sq_cmds q \<noteq> 0 then q\<lparr>sq_cmds := 0\<rparr> else q, s1))" by (intro release_run) simp_all
  from release_run [OF s2 this]
  obtain q' where q': "get_queue r s' = Some (Ok (q', s'))" "sq_cmds q' = 0" "cqes q' = 0" by (auto split: if_splits)
  moreover have "dbind (get_queue r) f s' = f q' s'" for f :: "nvme_queue \<Rightarrow> (('a, 'b, 'c) nvme, nvme_error + unit) drv"
    by (rule dbind_run(1)) (rule q'(1))
  ultimately show ?thesis using x by (simp add: free_queue_def release_def drv)
qed

theorem free_queue_once_witness:
  "\<exists>s'. free_queue demo_nvme_env (Some Admin_queue) (demo_nvme (\<lambda>_. 0)) = Some (Ok (Inr (), s')) \<and>
     cqes (admin_queue (ctl s')) = 0 \<and> free_queue demo_nvme_env (Some Admin_queue) s' = Some (Ok (Inr (), s'))"
proof -
  have "\<exists>x s'. free_queue demo_nvme_env (Some Admin_queue) (demo_nvme (\<lambda>_. 0)) = Some (Ok (x, s'))"
    by (simp add: free_queue_def release_def get_queue_def put_queue_def set_ctl_def drv demo_nvme_def demo_controller_def demo_queue_def entry_layout
        free_logged_def free_ptr_def nv_free_def nv_vmem_def demo_nvme_env_def demo_mapper_def page_free_def div_ceil_def
        nv_error_def nv_log_def error_def all_println_def all_print_def serial_print_def Let_def dbind_def)
  then obtain x s' where run: "free_queue demo_nvme_env (Some Admin_queue) (demo_nvme (\<lambda>_. 0)) = Some (Ok (x, s'))" by blast
  from free_queue_once [OF this] run show ?thesis by (auto simp: get_queue_iff)
qed

end
