(* ===== verification/Acpi.thy ===== *)
theory Acpi
  imports Paging Pci Console Rust_Str
begin

text \<open>
  The PCIe configuration window from the ACPI tables (\<open>kernel/src/acpi.rs\<close>): finding the entry of the MCFG
  table, mapping the window it names, and handing its address to the PCI code. The tables themselves are
  found by the crate \<open>acpi\<close>: the address of the table, its length and the size of the common header are
  parameters, as are the physical addresses and frames of the crate \<open>x86_64\<close> beside the mapper of \<open>Paging\<close>.
\<close>

section \<open>State and environment\<close>

record ('m, 'f) acpi =
  ac_map :: 'm
  ac_frames :: 'f
  ac_con :: console
  ac_ecam :: usize

record ('m, 'f) acpi_env =
  ac_ops :: "('m, 'f) mapper"
  translate_addr :: "'m \<Rightarrow> addr \<Rightarrow> addr option"
  phys_new :: "addr \<Rightarrow> addr res"
  phys_add :: "addr \<Rightarrow> nat \<Rightarrow> addr res"
  phys_sub :: "addr \<Rightarrow> nat \<Rightarrow> addr res"
  frame_containing :: "addr \<Rightarrow> addr"
  page_from_start :: "addr \<Rightarrow> addr option"
  frame_from_start :: "addr \<Rightarrow> addr option"
  ac_pmo :: nat
  ac_font :: "u8 list"
  ac_loc :: "nat \<Rightarrow> ustr"
  ac_map_text :: "map_to_error \<Rightarrow> ustr"
  ac_mem :: "addr \<Rightarrow> u8"
  mcfg_table :: "addr option"
  table_length :: nat
  sdt_header_size :: nat

definition on_console :: "(console \<Rightarrow> console res) \<Rightarrow> ('m, 'f) acpi \<Rightarrow> ('m, 'f) acpi res" where
  "on_console f s = rbind (f (ac_con s)) (\<lambda>c. Ok (s\<lparr>ac_con := c\<rparr>))"

section \<open>Mapping the window\<close>

primrec map_window :: "('m, 'f) acpi_env \<Rightarrow> nat \<Rightarrow> nat \<Rightarrow> addr \<Rightarrow> addr \<Rightarrow> ('m, 'f) acpi \<Rightarrow> (bool \<times> ('m, 'f) acpi) res" where
  "map_window E i 0 current_page current_frame s = Ok (True, s)"
| "map_window E i (Suc n) current_page current_frame s =
     (case map_to (ac_ops E) (ac_map s) current_page current_frame {PRESENT, WRITABLE} (ac_frames s) of
        (Inl e, m, f) \<Rightarrow>
          rbind (on_console (warning (ac_font E) (ac_loc E 150) [lit ''(ACPI) Unable to map frame '', decimal i, lit '' at '',
            hex_alternate current_page, lit '' ('', hex_alternate current_frame, lit ''). Error: '', ac_map_text E e])
            (s\<lparr>ac_map := m, ac_frames := f\<rparr>)) (\<lambda>s. Ok (False, s))
      | (Inr _, m, f) \<Rightarrow>
          (let s = s\<lparr>ac_map := m, ac_frames := f\<rparr>
           in rbind (virt_add (ac_ops E) current_page 4096) (\<lambda>v.
              case page_from_start E v of
                None \<Rightarrow> Ok (False, s)
              | Some page \<Rightarrow>
                  rbind (phys_add E current_frame 4096) (\<lambda>p.
                  case frame_from_start E p of
                    None \<Rightarrow> Ok (False, s)
                  | Some frame \<Rightarrow> map_window E (Suc i) n page frame s))))"

definition map_ecam_region :: "('m, 'f) acpi_env \<Rightarrow> addr \<Rightarrow> usize \<Rightarrow> ('m, 'f) acpi \<Rightarrow> (addr option \<times> ('m, 'f) acpi) res" where
  "map_ecam_region E phys_base size_bytes s =
     (let start_frame = frame_containing E phys_base
      in rbind (phys_add E phys_base size_bytes) (\<lambda>a.
         rbind (phys_sub E a 1) (\<lambda>end_phys.
         rbind (usub (frame_containing E end_phys) start_frame) (\<lambda>d.
         rbind (uadd (d div 4096) 1) (\<lambda>frame_count.
         rbind (uadd phys_base (ac_pmo E)) (\<lambda>v.
         rbind (virt_new (ac_ops E) v) (\<lambda>virt_base.
           case translate_addr E (ac_map s) virt_base of
             Some mapped_phys \<Rightarrow>
               if mapped_phys = start_frame
               then rbind (on_console (info (ac_font E) [lit ''(ACPI) ECAM virt range already mapped at virt '', hex_alternate virt_base,
                      lit '' ('', hex_alternate mapped_phys, lit '') with size of '', decimal size_bytes, lit '' bytes.'']) s) (\<lambda>s. Ok (Some virt_base, s))
               else rbind (on_console (warning (ac_font E) (ac_loc E 130) [lit ''(ACPI) ECAM virt base '', hex_alternate virt_base,
                      lit '' is mapped to different phys '', hex_alternate mapped_phys, lit ''. Will not remap.'']) s) (\<lambda>s. Ok (None, s))
           | None \<Rightarrow>
               rbind (map_window E 0 frame_count (page_of (ac_ops E) virt_base) start_frame s) (\<lambda>(ok, s).
                 Ok (if ok then Some virt_base else None, s)))))))))"

section \<open>The table\<close>

record mcfg_entry =
  base_address :: nat
  pci_segment_group :: nat
  start_bus :: nat
  end_bus :: nat
  mcfg_reserved :: nat

definition MCFG_ENTRY_SIZE :: nat where
  "MCFG_ENTRY_SIZE = 8 + 2 + 1 + 1 + 4"

definition mcfg_header_size :: "('m, 'f) acpi_env \<Rightarrow> nat" where
  "mcfg_header_size E = sdt_header_size E + 8"

definition little_endian :: "(addr \<Rightarrow> u8) \<Rightarrow> addr \<Rightarrow> nat \<Rightarrow> nat" where
  "little_endian mem a n = foldr (\<lambda>i acc. unat (mem (a + i)) + 256 * acc) [0..<n] 0"

definition entry_at :: "(addr \<Rightarrow> u8) \<Rightarrow> addr \<Rightarrow> mcfg_entry" where
  "entry_at mem a = \<lparr>base_address = little_endian mem a 8, pci_segment_group = little_endian mem (a + 8) 2,
     start_bus = little_endian mem (a + 10) 1, end_bus = little_endian mem (a + 11) 1, mcfg_reserved = little_endian mem (a + 12) 4\<rparr>"

definition find_entry :: "('m, 'f) acpi_env \<Rightarrow> addr \<Rightarrow> string + mcfg_entry" where
  "find_entry E virt_ptr =
     (let total_len = table_length E; hdr_size = mcfg_header_size E
      in if total_len \<le> hdr_size then Inl ''MCFG table has no entries''
         else let entries_bytes = total_len - hdr_size
         in if entries_bytes mod MCFG_ENTRY_SIZE \<noteq> 0 then Inl ''MCFG entries size not multiple of McfgEntry''
         else let entry_count = entries_bytes div MCFG_ENTRY_SIZE
         in if entry_count = 0 then Inl ''MCFG: zero entries''
         else case find (\<lambda>e. pci_segment_group e = 0)
                (map (\<lambda>i. entry_at (ac_mem E) (virt_ptr + hdr_size + MCFG_ENTRY_SIZE * i)) [0..<entry_count]) of
                None \<Rightarrow> Inl ''No MCFG entry for segment 0''
              | Some e \<Rightarrow> Inr e)"

text \<open>\<open>checked_shl(20)\<close> of a \<open>usize\<close> always returns a value: it checks the distance, not the bits lost.\<close>

definition ecam_window_size :: "mcfg_entry \<Rightarrow> nat" where
  "ecam_window_size e = ((end_bus e - start_bus e) + 1) * 2 ^ 20 mod usize_bound"

definition init_pcie_from_acpi :: "('m, 'f) acpi_env \<Rightarrow> ('m, 'f) acpi \<Rightarrow> ((string + unit) \<times> ('m, 'f) acpi) res" where
  "init_pcie_from_acpi E s =
     (case mcfg_table E of
        None \<Rightarrow> Ok (Inl ''MCFG table not found.'', s)
      | Some virt_ptr \<Rightarrow>
          (case find_entry E virt_ptr of
             Inl e \<Rightarrow> Ok (Inl e, s)
           | Inr entry \<Rightarrow>
               rbind (phys_new E (base_address entry)) (\<lambda>phys_base.
               rbind (map_ecam_region E phys_base (ecam_window_size entry) s) (\<lambda>(r, s).
                 case r of
                   None \<Rightarrow> Ok (Inl ''Failed to map ECAM region'', s)
                 | Some virt_base \<Rightarrow>
                     rbind (on_console (info (ac_font E) [lit ''(ACPI) Mapped ECAM at '', hex_alternate (base_address entry), lit '' ('',
                       hex_alternate virt_base, lit ''). Bus range: '', decimal (start_bus entry), lit ''..'', decimal (end_bus entry),
                       lit '' ('', decimal (ecam_window_size entry), lit '' bytes)''])
                       (s\<lparr>ac_ecam := set_ecam_base virt_base (ac_ecam s)\<rparr>)) (\<lambda>s. Ok (Inr (), s))))))"

text \<open>\<open>Handler::map_physical_region\<close>: the virtual address that stands for a physical one.\<close>

definition map_physical_region :: "nat \<Rightarrow> addr \<Rightarrow> addr res" where
  "map_physical_region pmo physical_address =
     rbind (uadd physical_address pmo) (\<lambda>a. if a = 0 then Panic (ExpectFailed ''Couldn't create a NonNull!'') else Ok a)"

section \<open>What the crate promises\<close>

definition phys_ok :: "('m, 'f) acpi_env \<Rightarrow> bool" where
  "phys_ok E \<longleftrightarrow> (\<forall>a < 2 ^ 52. phys_new E a = Ok a) \<and> (\<forall>a n. a + n < 2 ^ 52 \<longrightarrow> phys_add E a n = Ok (a + n)) \<and>
     (\<forall>a n. n \<le> a \<longrightarrow> phys_sub E a n = Ok (a - n)) \<and> (\<forall>a. frame_containing E a = a - a mod 4096) \<and>
     (\<forall>a. 4096 dvd a \<longrightarrow> page_from_start E a = Some a \<and> frame_from_start E a = Some a)"

definition translate_ok :: "('m, 'f) acpi_env \<Rightarrow> ('m \<Rightarrow> addr \<rightharpoonup> addr \<times> page_flag set) \<Rightarrow> bool" where
  "translate_ok E tr \<longleftrightarrow> (\<forall>m a. translate_addr E m a = map_option (\<lambda>(f, _). f + a mod 4096) (tr m (a - a mod 4096)))"

section \<open>The window is mapped\<close>

text \<open>The translation after the pages from \<open>v\<close> on have been mapped to the frames from \<open>p\<close> on.\<close>

definition window_map :: "(addr \<rightharpoonup> addr \<times> page_flag set) \<Rightarrow> nat \<Rightarrow> addr \<Rightarrow> addr \<Rightarrow> (addr \<rightharpoonup> addr \<times> page_flag set)" where
  "window_map t n v p = (\<lambda>q. if \<exists>j < n. q = v + j * 4096 then Some (p + (q - v), {PRESENT, WRITABLE}) else t q)"

lemma window_map_0: "window_map t 0 v p = t"
  by (simp add: window_map_def)

lemma window_map_Suc: "window_map (t(v \<mapsto> (p, {PRESENT, WRITABLE}))) n (v + 4096) (p + 4096) = window_map t (Suc n) v p"
proof
  fix q
  have "(\<exists>j < Suc n. q = v + j * 4096) \<longleftrightarrow> q = v \<or> (\<exists>j < n. q = v + 4096 + j * 4096)"
    by (subst Ex_less_Suc2) (simp add: algebra_simps)
  then show "window_map (t(v \<mapsto> (p, {PRESENT, WRITABLE}))) n (v + 4096) (p + 4096) q = window_map t (Suc n) v p q"
    by (auto simp: window_map_def)
qed

lemma map_window_ok:
  assumes "addresses_ok (ac_ops E)" "map_to_ok (ac_ops E) tr plain ready pool" "phys_ok E"
  shows "ready (ac_frames s) \<Longrightarrow> 3 * n \<le> length (pool (ac_frames s)) \<Longrightarrow> 4096 dvd v \<Longrightarrow> 4096 dvd p \<Longrightarrow> p + n * 4096 < 2 ^ 52 \<Longrightarrow>
    (\<forall>j \<le> n. canonical (v + j * 4096)) \<Longrightarrow> (\<forall>j < n. tr (ac_map s) (v + j * 4096) = None \<and> plain (ac_map s) (v + j * 4096)) \<Longrightarrow>
    \<exists>s'. map_window E i n v p s = Ok (True, s') \<and> tr (ac_map s') = window_map (tr (ac_map s)) n v p \<and> ac_con s' = ac_con s \<and> ac_ecam s' = ac_ecam s"
proof (induction n arbitrary: i v p s)
  case 0
  then show ?case by (simp add: window_map_0)
next
  case (Suc n)
  have free: "tr (ac_map s) v = None" "plain (ac_map s) v" using Suc.prems(7) [THEN spec, of 0] by simp_all
  obtain m' f' k where m': "map_to (ac_ops E) (ac_map s) v p {PRESENT, WRITABLE} (ac_frames s) = (Inr (), m', f')"
    "tr m' = (tr (ac_map s))(v \<mapsto> (p, {PRESENT, WRITABLE}))" "ready f'" "\<And>q. plain (ac_map s) q \<Longrightarrow> plain m' q"
    "k \<le> 3" "pool f' = drop k (pool (ac_frames s))"
    by (rule map_to_okD [OF assms(2) Suc.prems(1) free]) (use Suc.prems(2) in auto)
  let ?s = "s\<lparr>ac_map := m', ac_frames := f'\<rparr>"
  have shift: "v + 4096 + j * 4096 = v + Suc j * 4096" for j by simp
  have step: "map_window E i (Suc n) v p s = map_window E (Suc i) n (v + 4096) (p + 4096) ?s"
    using assms(1,3) Suc.prems(3-6) m'(1) by (auto simp: addresses_ok_def phys_ok_def dest: spec [of _ 1])
  have "\<exists>s'. map_window E (Suc i) n (v + 4096) (p + 4096) ?s = Ok (True, s') \<and>
      tr (ac_map s') = window_map (tr (ac_map ?s)) n (v + 4096) (p + 4096) \<and> ac_con s' = ac_con ?s \<and> ac_ecam s' = ac_ecam ?s"
  proof (rule Suc.IH)
    show "\<forall>j < n. tr (ac_map ?s) (v + 4096 + j * 4096) = None \<and> plain (ac_map ?s) (v + 4096 + j * 4096)"
      using Suc.prems(7) m'(2,4) unfolding shift by auto
    show "\<forall>j \<le> n. canonical (v + 4096 + j * 4096)" using Suc.prems(6) unfolding shift by (metis Suc_le_mono)
  qed (use Suc.prems m' in \<open>auto\<close>)
  then show ?case using step m'(2) by (simp add: window_map_Suc)
qed

lemma little_endian_1: "little_endian mem a 1 < 256"
  using unat_u8_less [of "mem a"] by (simp add: little_endian_def)

lemma find_entry_bus:
  assumes "find_entry E t = Inr e"
  shows "end_bus e < 256"
proof -
  obtain xs where "find (\<lambda>e. pci_segment_group e = 0) (map (\<lambda>i. entry_at (ac_mem E) (t + mcfg_header_size E + MCFG_ENTRY_SIZE * i)) xs) = Some e"
    using assms unfolding find_entry_def Let_def by (auto split: if_splits option.splits)
  then obtain a where "e = entry_at (ac_mem E) a" by (auto simp: find_Some_iff)
  then show ?thesis using little_endian_1 by (simp add: entry_at_def)
qed

text \<open>
  The premises on the platform: the window is page aligned and lies in the address space, its pages are free
  and there are frames for the page tables.
\<close>

definition window_free :: "('m, 'f) acpi_env \<Rightarrow> ('m \<Rightarrow> addr \<rightharpoonup> addr \<times> page_flag set) \<Rightarrow> ('m \<Rightarrow> addr \<Rightarrow> bool) \<Rightarrow> ('f \<Rightarrow> addr list) \<Rightarrow>
    mcfg_entry \<Rightarrow> ('m, 'f) acpi \<Rightarrow> bool" where
  "window_free E tr plain pool e s \<longleftrightarrow> (let v = base_address e + ac_pmo E; n = (end_bus e - start_bus e + 1) * 256
     in 4096 dvd base_address e \<and> 4096 dvd ac_pmo E \<and> base_address e + n * 4096 < 2 ^ 52 \<and> v + n * 4096 < usize_bound \<and>
        (\<forall>j \<le> n. canonical (v + j * 4096)) \<and> (\<forall>j < n. tr (ac_map s) (v + j * 4096) = None \<and> plain (ac_map s) (v + j * 4096)) \<and>
        3 * n \<le> length (pool (ac_frames s)))"

lemma map_ecam_region_ok:
  assumes "addresses_ok (ac_ops E)" "map_to_ok (ac_ops E) tr plain ready pool" "phys_ok E" "translate_ok E tr" "ready (ac_frames s)"
    and "window_free E tr plain pool e s"
  defines "n \<equiv> (end_bus e - start_bus e + 1) * 256" and "v \<equiv> base_address e + ac_pmo E"
  shows "\<exists>s'. map_ecam_region E (base_address e) (n * 4096) s = Ok (Some v, s') \<and>
    tr (ac_map s') = window_map (tr (ac_map s)) n v (base_address e) \<and> ac_con s' = ac_con s"
proof -
  let ?b = "base_address e"
  have w: "4096 dvd ?b" "4096 dvd v" "?b + n * 4096 < 2 ^ 52" "v + n * 4096 < usize_bound" "\<forall>j \<le> n. canonical (v + j * 4096)"
    "\<forall>j < n. tr (ac_map s) (v + j * 4096) = None \<and> plain (ac_map s) (v + j * 4096)" "3 * n \<le> length (pool (ac_frames s))" "0 < n"
    using assms(6) unfolding window_free_def Let_def n_def v_def by simp_all
  have mods: "?b mod 4096 = 0" "v mod 4096 = 0" using w(1,2) by (simp_all add: dvd_eq_mod_eq_0)
  define final where "final = ?b + n * 4096 - 1"
  have "final = 4095 + (?b + (n - 1) * 4096)" using w(8) unfolding final_def by (cases n) simp_all
  moreover have "(4095 + (?b + (n - 1) * 4096)) mod 4096 = 4095" using mods(1) by (simp add: mod_add_eq [symmetric])
  ultimately have final: "final - final mod 4096 = ?b + (n - 1) * 4096" by simp
  obtain s' where s': "map_window E 0 n v ?b s = Ok (True, s')" "tr (ac_map s') = window_map (tr (ac_map s)) n v ?b" "ac_con s' = ac_con s"
    using map_window_ok [OF assms(1-3,5) w(7,2,1,3,5,6), of 0] by blast
  have "tr (ac_map s) v = None" "canonical v" using w(5,6,8) by (metis add.right_neutral mult_0 zero_le)+
  then have pre: "translate_addr E (ac_map s) v = None" "virt_new (ac_ops E) v = Ok v" "page_of (ac_ops E) v = v" "uadd ?b (ac_pmo E) = Ok v"
    using assms(1,4) w(4) mods(2) by (simp_all add: translate_ok_def addresses_ok_def v_def)
  have frames: "frame_containing E ?b = ?b" "frame_containing E final = ?b + (n - 1) * 4096" "phys_add E ?b (n * 4096) = Ok (?b + n * 4096)"
    "phys_sub E (?b + n * 4096) 1 = Ok final"
    using assms(3) w(3,8) final mods(1) by (simp_all add: phys_ok_def final_def)
  have count: "usub (?b + (n - 1) * 4096) ?b = Ok ((n - 1) * 4096)" "(n - 1) * 4096 div 4096 = n - 1" "uadd (n - 1) 1 = Ok n"
    using w(4,8) by (simp_all add: usub_def)
  have "map_ecam_region E ?b (n * 4096) s = Ok (Some v, s')"
    by (simp only: map_ecam_region_def Let_def frames count pre s'(1) rbind_simps option.case prod.case if_True)
  with s'(2,3) show ?thesis by blast
qed

lemma window_page:
  assumes "off < n * 4096" "4096 dvd v"
  shows "window_map t n v p (v + off - (v + off) mod 4096) = Some (p + (off - off mod 4096), {PRESENT, WRITABLE})"
proof -
  have "(v + off) mod 4096 = off mod 4096" using assms(2) by (metis dvd_eq_mod_eq_0 mod_add_left_eq add_0)
  moreover have "off - off mod 4096 = off div 4096 * 4096" by (simp add: minus_mod_eq_div_mult)
  ultimately have "v + off - (v + off) mod 4096 = v + off div 4096 * 4096" by (metis Nat.add_diff_assoc mod_less_eq_dividend)
  moreover have "off div 4096 < n" using assms(1) by (simp add: less_mult_imp_div_less)
  ultimately show ?thesis by (auto simp: window_map_def minus_mod_eq_div_mult)
qed

lemma ecam_addr_window:
  assumes "unat bus \<le> b" "unat slot < 32" "unat func < 8" "unat offset < 4096" "v + (b + 1) * 1048576 < usize_bound"
  shows "window_offset bus slot func offset < (b + 1) * 1048576"
    "ecam_addr v bus slot func offset = Ok (v + window_offset bus slot func offset)"
proof -
  have le: "unat bus * 1048576 \<le> b * 1048576" using assms(1) by simp
  then show off: "window_offset bus slot func offset < (b + 1) * 1048576" using assms(2-4) by (simp add: window_offset_def)
  then show "ecam_addr v bus slot func offset = Ok (v + window_offset bus slot func offset)"
    using assms(5) by (simp add: ecam_addr_def window_offset_def add.assoc)
qed

lemma window_outside:
  assumes "n * 4096 \<le> off" "4096 dvd v"
  shows "window_map t n v p (v + off - (v + off) mod 4096) = t (v + off - (v + off) mod 4096)"
proof -
  have "(v + off) mod 4096 = off mod 4096" using assms(2) by (metis dvd_eq_mod_eq_0 mod_add_left_eq add_0)
  moreover have "off - off mod 4096 = off div 4096 * 4096" by (simp add: minus_mod_eq_div_mult)
  ultimately have "v + off - (v + off) mod 4096 = v + off div 4096 * 4096" by (metis Nat.add_diff_assoc mod_less_eq_dividend)
  moreover have "n \<le> off div 4096" using assms(1) by (simp add: less_eq_div_iff_mult_less_eq)
  ultimately show ?thesis by (auto simp: window_map_def)
qed

text \<open>
  C35. From the table to the devices: when the MCFG table has an entry for segment 0 and the window the kernel maps for it
  is free, the initialisation succeeds and maps as many buses as the entry names, from the base address on. The address
  which the PCI code computes for a register is base plus bus number, so what it reaches are the buses numbered
  from 0 to \<open>end_bus - start_bus\<close>: each register of every function on them is mapped to its physical address. For a
  bus with a higher number, which is one the entry names if \<open>start_bus\<close> is not 0, nothing is mapped.
\<close>

theorem ecam_reaches_devices:
  assumes "addresses_ok (ac_ops E)" "map_to_ok (ac_ops E) tr plain ready pool" "phys_ok E" "translate_ok E tr" "ready (ac_frames s)"
    and "console_ok (ac_con s)" "length (ac_font E) \<le> isize_max"
    and "mcfg_table E = Some t" "find_entry E t = Inr e" "window_free E tr plain pool e s"
  shows "\<exists>s'. init_pcie_from_acpi E s = Ok (Inr (), s') \<and> ac_ecam s' = base_address e + ac_pmo E \<and>
    (\<forall>bus slot func offset. unat bus \<le> end_bus e - start_bus e \<and> unat slot < 32 \<and> unat func < 8 \<and> unat offset < 4096 \<longrightarrow>
      (\<exists>a. ecam_addr (ac_ecam s') bus slot func offset = Ok a \<and>
        tr (ac_map s') (a - a mod 4096) =
          Some (base_address e + (window_offset bus slot func offset - window_offset bus slot func offset mod 4096), {PRESENT, WRITABLE}))) \<and>
    (\<forall>bus slot func offset a. end_bus e - start_bus e < unat bus \<and> ecam_addr (ac_ecam s') bus slot func offset = Ok a \<longrightarrow>
      tr (ac_map s') (a - a mod 4096) = tr (ac_map s) (a - a mod 4096))"
proof -
  let ?n = "(end_bus e - start_bus e + 1) * 256" and ?v = "base_address e + ac_pmo E"
  have w: "4096 dvd ?v" "base_address e < 2 ^ 52" "?v + (end_bus e - start_bus e + 1) * 1048576 < usize_bound"
    using assms(10) unfolding window_free_def Let_def by (simp_all add: algebra_simps)
  have "end_bus e < 256" using find_entry_bus [OF assms(9)] .
  then have "?n * 4096 < usize_bound" by simp
  then have sz: "ecam_window_size e = ?n * 4096" by (simp add: ecam_window_size_def)
  obtain s1 where s1: "map_ecam_region E (base_address e) (ecam_window_size e) s = Ok (Some ?v, s1)"
    "tr (ac_map s1) = window_map (tr (ac_map s)) ?n ?v (base_address e)" "ac_con s1 = ac_con s"
    using map_ecam_region_ok [OF assms(1-5,10)] unfolding sz by blast
  obtain c where "info (ac_font E) [lit ''(ACPI) Mapped ECAM at '', hex_alternate (base_address e), lit '' ('',
      hex_alternate ?v, lit ''). Bus range: '', decimal (start_bus e), lit ''..'', decimal (end_bus e),
      lit '' ('', decimal (ecam_window_size e), lit '' bytes)''] (ac_con s1) = Ok c"
    using log_ok(1) [OF assms(7,6)] unfolding s1(3) by blast
  then have "init_pcie_from_acpi E s = Ok (Inr (), s1\<lparr>ac_ecam := ?v, ac_con := c\<rparr>)"
    using assms(3,8,9) w(2) unfolding init_pcie_from_acpi_def by (simp add: phys_ok_def s1(1) on_console_def set_ecam_base_def)
  moreover have "ecam_addr ?v bus slot func offset = Ok (?v + window_offset bus slot func offset) \<and>
      window_map (tr (ac_map s)) ?n ?v (base_address e) (?v + window_offset bus slot func offset - (?v + window_offset bus slot func offset) mod 4096) =
        Some (base_address e + (window_offset bus slot func offset - window_offset bus slot func offset mod 4096), {PRESENT, WRITABLE})"
    if "unat bus \<le> end_bus e - start_bus e" "unat slot < 32" "unat func < 8" "unat offset < 4096" for bus slot func offset
    using ecam_addr_window [OF that w(3)] by (intro conjI window_page w(1)) simp_all
  moreover have "window_map (tr (ac_map s)) ?n ?v (base_address e) (a - a mod 4096) = tr (ac_map s) (a - a mod 4096)"
    if "end_bus e - start_bus e < unat bus" "ecam_addr ?v bus slot func offset = Ok a" for bus slot func offset a
  proof -
    have "a = ?v + window_offset bus slot func offset" using that(2) by (auto simp: ecam_addr_def window_offset_def res_iff)
    moreover have "(end_bus e - start_bus e + 1) * 1048576 \<le> unat bus * 1048576" using that(1) by (intro mult_le_mono1) simp
    then have "?n * 4096 \<le> window_offset bus slot func offset" by (simp add: window_offset_def)
    ultimately show ?thesis using window_outside [OF _ w(1)] by simp
  qed
  ultimately show ?thesis using s1(2) by (intro exI [of _ "s1\<lparr>ac_ecam := ?v, ac_con := c\<rparr>"]) auto
qed

definition demo_acpi_env :: "(addr \<rightharpoonup> addr \<times> page_flag set, boot_frames) acpi_env" where
  "demo_acpi_env = \<lparr>ac_ops = demo_mapper, translate_addr = \<lambda>m a. map_option (\<lambda>(f, _). f + a mod 4096) (m (a - a mod 4096)), phys_new = Ok,
     phys_add = \<lambda>a n. Ok (a + n), phys_sub = usub, frame_containing = \<lambda>a. a - a mod 4096, page_from_start = Some, frame_from_start = Some,
     ac_pmo = 0x10000000000, ac_font = demo_font, ac_loc = \<lambda>_. [], ac_map_text = \<lambda>_. [], ac_mem = \<lambda>a. if a = 0x102F then 0xE0 else 0,
     mcfg_table = Some 0x1000, table_length = 60, sdt_header_size = 36\<rparr>"

definition demo_acpi :: "(addr \<rightharpoonup> addr \<times> page_flag set, boot_frames) acpi" where
  "demo_acpi = \<lparr>ac_map = Map.empty, ac_frames = boot_frames_init demo_map, ac_con = \<lparr>con_tty = None, con_serial = []\<rparr>, ac_ecam = 0\<rparr>"

theorem ecam_reaches_devices_witness:
  "\<exists>s'. init_pcie_from_acpi demo_acpi_env demo_acpi = Ok (Inr (), s') \<and>
     ecam_addr (ac_ecam s') 0 3 1 0x10 = Ok 0x100E0019010 \<and> ac_map s' 0x100E0019000 = Some (0xE0019000, {PRESENT, WRITABLE})"
proof -
  let ?e = "\<lparr>base_address = 0xE0000000, pci_segment_group = 0, start_bus = 0, end_bus = 0, mcfg_reserved = 0\<rparr>"
  have bytes: "[0..<8] = [0, 1, 2, 3, 4, 5, 6, 7 :: nat]" "[0..<4] = [0, 1, 2, 3 :: nat]" "[0..<2] = [0, 1 :: nat]" by (simp_all add: upt_rec)
  have e: "find_entry demo_acpi_env 0x1000 = Inr ?e"
    by (simp add: find_entry_def demo_acpi_env_def mcfg_header_size_def MCFG_ENTRY_SIZE_def entry_at_def little_endian_def Let_def bytes)
  have laws: "phys_ok demo_acpi_env" "translate_ok demo_acpi_env (\<lambda>m. m)" "ac_ops demo_acpi_env = demo_mapper" "mcfg_table demo_acpi_env = Some 0x1000"
    by (simp_all add: phys_ok_def translate_ok_def demo_acpi_env_def usub_def)
  have free: "window_free demo_acpi_env (\<lambda>m. m) (\<lambda>_ _. True) boot_pool ?e demo_acpi"
    unfolding window_free_def Let_def by (auto simp: demo_acpi_env_def demo_acpi_def demo_pool length_demo_frames intro!: canonical_low)
  have st: "console_ok (ac_con demo_acpi)" "length (ac_font demo_acpi_env) \<le> isize_max" "boot_ready Ok (ac_frames demo_acpi)"
    using demo_ready by (simp_all add: demo_acpi_def console_ok_def demo_font_def demo_acpi_env_def)
  have ops: "addresses_ok (ac_ops demo_acpi_env)" "map_to_ok (ac_ops demo_acpi_env) (\<lambda>m. m) (\<lambda>_ _. True) (boot_ready Ok) boot_pool"
    unfolding laws(3) by (rule demo_addresses_ok demo_map_to_ok)+
  obtain s' where s': "init_pcie_from_acpi demo_acpi_env demo_acpi = Ok (Inr (), s')" "ac_ecam s' = base_address ?e + ac_pmo demo_acpi_env"
    "\<forall>bus slot func offset. unat bus \<le> end_bus ?e - start_bus ?e \<and> unat slot < 32 \<and> unat func < 8 \<and> unat offset < 4096 \<longrightarrow>
      (\<exists>a. ecam_addr (ac_ecam s') bus slot func offset = Ok a \<and>
        ac_map s' (a - a mod 4096) = Some (base_address ?e + (window_offset bus slot func offset - window_offset bus slot func offset mod 4096), {PRESENT, WRITABLE}))"
    using ecam_reaches_devices [OF ops laws(1,2) st(3,1,2) laws(4) e free] by blast
  have "ecam_addr (ac_ecam s') 0 3 1 0x10 = Ok 0x100E0019010" unfolding s'(2) by (simp add: ecam_addr_def demo_acpi_env_def)
  with s'(3) [rule_format, of 0 3 1 "0x10"] s'(1) show ?thesis by (auto simp: window_offset_def)
qed

end
