(* ===== verification/Boot.thy ===== *)
theory Boot
  imports Ustar Elf Rtl8139 Framebuffer
begin

text \<open>
  Steps of the boot sequence that have logic of their own (\<open>kernel/src/main.rs\<close>, \<open>kernel/src/png.rs\<close>): the
  initialisation of the network cards, the ramdisk, the choice of what runs first, the logo, and the panic
  handler. The decoder of images is the crate \<open>zune_png\<close> and a parameter; so is the parser of programs.
\<close>

section \<open>The ramdisk\<close>

definition RAMDISK_START :: addr where
  "RAMDISK_START = 0x500000000000"

fun map_ramdisk :: "('m, 'f) mapper \<Rightarrow> ('f \<Rightarrow> ('f \<times> addr option) res) \<Rightarrow> addr list \<Rightarrow> 'm \<Rightarrow> 'f \<Rightarrow> ('m \<times> 'f) res" where
  "map_ramdisk ops alloc [] m f = Ok (m, f)"
| "map_ramdisk ops alloc (page # pages) m f =
     rbind (alloc f) (\<lambda>(f1, fo).
     rbind (expect ''Unable to allocate a frame!'' fo) (\<lambda>frame.
       case map_to ops m page frame {WRITABLE, PRESENT} f1 of
         (Inl _, _, _) \<Rightarrow> Panic (ExpectFailed ''Unable to map a page for the ramdisk!'')
       | (Inr _, m', f') \<Rightarrow> map_ramdisk ops alloc pages m' f'))"

text \<open>
  \<open>rd.copy_from_slice(ramdisk_data)\<close>: \<open>writable\<close> tells which addresses of a mapper state can be written; the
  first one that cannot faults.
\<close>

definition copy_to :: "('m \<Rightarrow> addr \<Rightarrow> bool) \<Rightarrow> 'm \<Rightarrow> addr \<Rightarrow> u8 list \<Rightarrow> (addr \<Rightarrow> u8) \<Rightarrow> (addr \<Rightarrow> u8) res" where
  "copy_to writable m start bytes mem =
     (case find (\<lambda>i. \<not> writable m (start + i)) [0..<length bytes] of
        Some i \<Rightarrow> Panic (PageFault (start + i))
      | None \<Rightarrow> Ok (write_bytes mem start bytes))"

text \<open>The result is the archive, as the bytes that \<open>USTar\<close> reads, with the changed memory and page tables.\<close>

definition init_ramdisk :: "('m, 'f) mapper \<Rightarrow> ('f \<Rightarrow> ('f \<times> addr option) res) \<Rightarrow> ('m \<Rightarrow> addr \<Rightarrow> bool) \<Rightarrow> usize \<Rightarrow> u8 list \<Rightarrow>
    'm \<Rightarrow> 'f \<Rightarrow> (addr \<Rightarrow> u8) \<Rightarrow> (u8 list option \<times> (addr \<Rightarrow> u8) \<times> 'm \<times> 'f) res" where
  "init_ramdisk ops alloc writable mib ramdisk_data m f mem =
     rbind (virt_new ops RAMDISK_START) (\<lambda>start.
     rbind (rbind (umul mib 1024) (\<lambda>k. umul k 1024)) (\<lambda>n.
     rbind (virt_add ops start n) (\<lambda>end_addr.
     rbind (map_ramdisk ops alloc (page_range (page_of ops start) (page_of ops end_addr)) m f) (\<lambda>(m', f').
       if start = 0 \<or> length ramdisk_data > isize_max then Panic UbCheck
       else rbind (copy_to writable m' start ramdisk_data mem) (\<lambda>mem'.
         Ok (Some (map (\<lambda>i. mem' (start + i)) [0..<length ramdisk_data]), mem', m', f'))))))"

section \<open>What runs first\<close>

definition find_init :: "u8 list \<Rightarrow> (nat \<Rightarrow> ustr) \<Rightarrow> u8 list option \<Rightarrow> console \<Rightarrow> (ustar_file option \<times> console) res" where
  "find_init font loc fs c = (case fs of
     Some data \<Rightarrow>
       rbind (read_file data (as_bytes (lit ''init''))) (\<lambda>i.
         if i = None
         then rbind (error font (loc 234) [lit ''Unable to read init program! Going to kernel shell...''] c) (\<lambda>c. Ok (i, c))
         else Ok (i, c))
   | None \<Rightarrow> rbind (error font (loc 238) [lit ''Unable to get ramdisk! Going to kernel shell...''] c) (\<lambda>c. Ok (None, c)))"

text \<open>The kernel goes to user mode at an entry point and a stack, or to its own shell.\<close>

datatype boot_end = Usermode addr addr | Shell

definition start_first :: "u8 list \<Rightarrow> ('m, 'f) mapper \<Rightarrow> ('f \<Rightarrow> ('f \<times> addr option) res) \<Rightarrow> (u8 list \<Rightarrow> elf option) \<Rightarrow> ustar_file option \<Rightarrow>
    ('m, 'f) vm \<Rightarrow> (addr \<Rightarrow> u8) \<Rightarrow> console \<Rightarrow> (boot_end \<times> ('m, 'f) vm \<times> (addr \<Rightarrow> u8) \<times> console) res" where
  "start_first font ops alloc parse init vm mem c = (case init of
     Some i \<Rightarrow>
       rbind (info font [lit ''Switching to usermode...''] c) (\<lambda>c.
       let c = serial_print [lit ''Don't expect much more output here!'' @ [10]] c
       in rbind (process_switch ops alloc parse (process_new (ustar_read_all i)) 10 vm mem) (\<lambda>(r, _, vm', mem').
         case r of
           SwitchErr _ \<Rightarrow> Panic (ExplicitPanic ''Error while switching to usermode!'')
         | Jump entry stack \<Rightarrow> Ok (Usermode entry stack, vm', mem', c)))
   | None \<Rightarrow> Ok (Shell, vm, mem, c))"

section \<open>Network cards, logo and panics\<close>

primrec init_net_devices :: "'hw rtl_env \<Rightarrow> usize \<Rightarrow> pci_device list \<Rightarrow> ('hw rtls, rtl8139 option list) drv" where
  "init_net_devices E ecam [] = dret []"
| "init_net_devices E ecam (dev # devs) =
     (if vendor_id dev = PCI_VENDOR_ID \<and> device_id dev = PCI_DEVICE_ID
      then dbind (rtl_init E ecam dev) (\<lambda>d. dbind (init_net_devices E ecam devs) (\<lambda>ds. dret (d # ds)))
      else init_net_devices E ecam devs)"

text \<open>What the decoder of an image returns: its bytes (if they are bytes), whether the colours are RGBA, and its size.\<close>

record decoded =
  png_bytes :: "u8 list option"
  png_rgba :: "bool option"
  png_size :: "(usize \<times> usize) option"

fun chunks4 :: "u8 list \<Rightarrow> rgba list" where
  "chunks4 (r # g # b # a # rest) = (r, g, b, a) # chunks4 rest"
| "chunks4 _ = []"

definition draw_png :: "(u8 list \<Rightarrow> decoded option) \<Rightarrow> u8 list \<Rightarrow> usize \<Rightarrow> usize \<Rightarrow> framebuffer option \<Rightarrow> framebuffer option res" where
  "draw_png decode data x y fb =
     rbind (expect ''Unable to decode PNG data!'' (decode data)) (\<lambda>d.
     rbind (expect ''Unable to get colorspace!'' (png_rgba d)) (\<lambda>rgba.
     if \<not> rgba then Panic (ExplicitPanic ''Only PNGS with the RGBA colorspace are supported.'')
     else rbind (expect ''Unable to get image dimensions!'' (png_size d)) (\<lambda>(width, height).
          rbind (expect ''Unable to get pixels!'' (png_bytes d)) (\<lambda>pxls.
            case fb of
              None \<Rightarrow> Ok None
            | Some fb \<Rightarrow> rbind (draw_bitmap fb (chunks4 pxls) width height x y) (\<lambda>fb'. Ok (Some fb'))))))"

definition panic_handler :: "u8 list \<Rightarrow> ustr \<Rightarrow> ustr \<Rightarrow> ustr \<Rightarrow> nat \<Rightarrow> nat \<Rightarrow> console \<Rightarrow> console res" where
  "panic_handler font loc msg file line column c =
     rbind (error font loc [10 # lit ''Uh-oh! The Lemoncake kernel needed to panic.'' @ 10 # lit ''Here's what happened:'' @ 10 # lit ''Panic Message: '' @ 27 # lit ''[31m'',
       msg, 27 # lit ''[0m'' @ 10 # lit ''Location: '' @ 27 # lit ''[33m'', file, lit ''@L'', decimal line, lit '':'', decimal column, 27 # lit ''[0m'']
       c) (\<lambda>c. sad_macro (serial_print [[0x2639]] c))"

section \<open>The ramdisk holds the archive\<close>

definition ramdisk_pages :: "usize \<Rightarrow> addr list" where
  "ramdisk_pages mib = map (\<lambda>j. RAMDISK_START + j * 4096) [0..<Suc (mib * 256)]"

lemma ramdisk_range:
  assumes "addresses_ok ops"
  shows "page_range (page_of ops RAMDISK_START) (page_of ops (RAMDISK_START + mib * 1048576)) = ramdisk_pages mib"
proof -
  have "page_of ops RAMDISK_START = RAMDISK_START" using assms by (intro page_of_aligned) (simp_all add: RAMDISK_START_def)
  moreover have "RAMDISK_START + mib * 1048576 = RAMDISK_START + mib * 256 * 4096" by simp
  moreover have "4096 dvd RAMDISK_START + mib * 256 * 4096" by (intro dvd_add) (simp_all add: RAMDISK_START_def)
  then have "page_of ops (RAMDISK_START + mib * 256 * 4096) = RAMDISK_START + mib * 256 * 4096" by (rule page_of_aligned [OF assms])
  ultimately show ?thesis by (simp only: page_range_def step_range_last step_range_run ramdisk_pages_def)
qed

lemma map_ramdisk_run:
  "map_heap ops alloc {PRESENT, WRITABLE} pages m f = Ok (Inr (), m', f') \<Longrightarrow> map_ramdisk ops alloc pages m f = Ok (m', f')"
proof (induction pages arbitrary: m f)
  case (Cons p ps)
  from Cons.prems obtain f1 frame m1 f2 where
    "alloc f = Ok (f1, Some frame)" "map_to ops m p frame {PRESENT, WRITABLE} f1 = (Inr (), m1, f2)"
    "map_heap ops alloc {PRESENT, WRITABLE} ps m1 f2 = Ok (Inr (), m', f')" by (rule map_heap_ConsE)
  with Cons.IH show ?case by (simp add: insert_commute)
qed simp

text \<open>What can be written, by the translation of the page tables.\<close>

definition writable_ok :: "('m \<Rightarrow> addr \<Rightarrow> bool) \<Rightarrow> ('m \<Rightarrow> addr \<rightharpoonup> addr \<times> page_flag set) \<Rightarrow> bool" where
  "writable_ok writable tr \<longleftrightarrow> (\<forall>m a. writable m a \<longleftrightarrow> (\<exists>f fl. tr m (a - a mod 4096) = Some (f, fl) \<and> WRITABLE \<in> fl))"

lemma ramdisk_page: "i \<le> mib * 1048576 \<Longrightarrow> (RAMDISK_START + i) - (RAMDISK_START + i) mod 4096 \<in> set (ramdisk_pages mib)"
proof -
  assume i: "i \<le> mib * 1048576"
  have "RAMDISK_START mod 4096 = 0" by (simp add: RAMDISK_START_def)
  then have "(RAMDISK_START + i) mod 4096 = i mod 4096" by (metis add_0 mod_add_left_eq)
  moreover have "i - i mod 4096 = i div 4096 * 4096" by (simp add: minus_mod_eq_div_mult)
  ultimately have "(RAMDISK_START + i) - (RAMDISK_START + i) mod 4096 = RAMDISK_START + i div 4096 * 4096"
    by (metis Nat.add_diff_assoc mod_less_eq_dividend)
  moreover have "i div 4096 < Suc (mib * 256)" using div_le_mono [OF i, of 4096] by simp
  ultimately show ?thesis by (auto simp: ramdisk_pages_def)
qed

text \<open>
  C36. With free address space and enough frames, a ramdisk of any size that fits the lower half of the address
  space is set up without a panic, its pages are mapped to frames of their own, and it holds exactly the
  archive, whatever memory held before: the file system reads the bytes of the archive, and no other byte of
  memory changes.
\<close>

theorem ramdisk_holds_archive:
  assumes "addresses_ok ops" "map_to_ok ops tr plain (boot_ready fr) boot_pool" "boot_ready fr f" "writable_ok writable tr"
    and "\<forall>p \<in> set (ramdisk_pages mib). tr m p = None \<and> plain m p" "4 * (mib * 256 + 1) \<le> length (boot_pool f)"
    and "mib < 2 ^ 20" "length archive \<le> mib * 1048576"
  shows "\<exists>mem' m' f' fs. init_ramdisk ops (allocate_frame fr) writable mib archive m f mem = Ok (Some archive, mem', m', f') \<and>
    mapped_run (tr m) (tr m') (ramdisk_pages mib) fs {PRESENT, WRITABLE} \<and>
    (\<forall>a. mem' a = (if RAMDISK_START \<le> a \<and> a < RAMDISK_START + length archive then archive ! (a - RAMDISK_START) else mem a))"
proof -
  have "distinct (boot_pool f)" using assms(3) distinct_frame_addresses by (simp add: boot_ready_def boot_pool_def)
  moreover have "distinct (ramdisk_pages mib)" by (simp add: ramdisk_pages_def distinct_map inj_on_def del: upt_Suc)
  moreover have "4 * length (ramdisk_pages mib) \<le> length (boot_pool f)" using assms(6) by (simp add: ramdisk_pages_def)
  ultimately obtain m' f' fs where run: "map_heap ops (allocate_frame fr) {PRESENT, WRITABLE} (ramdisk_pages mib) m f = Ok (Inr (), m', f')"
    and mapped: "mapped_run (tr m) (tr m') (ramdisk_pages mib) fs {PRESENT, WRITABLE}"
    using boot.map_heap_ok [OF assms(2,3) _ _ assms(5), of "{PRESENT, WRITABLE}"] by blast
  have "mib * 1048576 < 2 ^ 40" using assms(7) by simp
  then have can: "canonical RAMDISK_START" "canonical (RAMDISK_START + mib * 1048576)"
    by (auto intro!: canonical_low simp: RAMDISK_START_def)
  then have pre: "virt_new ops RAMDISK_START = Ok RAMDISK_START" "virt_add ops RAMDISK_START (mib * 1048576) = Ok (RAMDISK_START + mib * 1048576)"
    using assms(1) by (simp_all add: addresses_ok_def)
  have n: "rbind (umul mib 1024) (\<lambda>k. umul k 1024) = Ok (mib * 1048576)" using assms(7) by (simp add: umul_def)
  have "writable m' (RAMDISK_START + i)" if "i < length archive" for i
  proof -
    have "(RAMDISK_START + i) - (RAMDISK_START + i) mod 4096 \<in> set (ramdisk_pages mib)" using that assms(8) by (intro ramdisk_page) simp
    then have "\<exists>g. tr m' ((RAMDISK_START + i) - (RAMDISK_START + i) mod 4096) = Some (g, {PRESENT, WRITABLE})"
      using mapped unfolding mapped_run_def in_set_conv_nth by metis
    then show ?thesis using assms(4) unfolding writable_ok_def by blast
  qed
  then have copy: "copy_to writable m' RAMDISK_START archive mem = Ok (write_bytes mem RAMDISK_START archive)"
    by (auto simp: copy_to_def find_Some_iff split: option.splits)
  have "map (\<lambda>i. write_bytes mem RAMDISK_START archive (RAMDISK_START + i)) [0..<length archive] = archive"
    by (rule nth_equalityI) (simp_all add: write_bytes_def)
  moreover have "\<not> (RAMDISK_START = 0 \<or> length archive > isize_max)" using assms(7,8) by (simp add: RAMDISK_START_def)
  ultimately have "init_ramdisk ops (allocate_frame fr) writable mib archive m f mem = Ok (Some archive, write_bytes mem RAMDISK_START archive, m', f')"
    by (simp add: init_ramdisk_def pre n ramdisk_range [OF assms(1)] map_ramdisk_run [OF run] copy)
  with mapped show ?thesis
    by (intro exI [of _ "write_bytes mem RAMDISK_START archive"] exI [of _ m'] exI [of _ f'] exI [of _ fs]) (simp add: write_bytes_def)
qed

theorem ramdisk_holds_archive_witness:
  "\<exists>mem' m' f'. init_ramdisk demo_mapper (allocate_frame Ok) (\<lambda>m a. \<exists>f fl. m (a - a mod 4096) = Some (f, fl) \<and> WRITABLE \<in> fl) 1 [7, 8]
     Map.empty (boot_frames_init demo_map) (\<lambda>_. 1) = Ok (Some [7, 8], mem', m', f') \<and> mem' (RAMDISK_START + 1) = 8 \<and> mem' (RAMDISK_START + 2) = 1"
proof -
  have "writable_ok (\<lambda>m a. \<exists>f fl. m (a - a mod 4096) = Some (f, fl) \<and> WRITABLE \<in> fl) (\<lambda>m. m)" by (simp add: writable_ok_def)
  from ramdisk_holds_archive [OF demo_addresses_ok demo_map_to_ok demo_ready this, of 1 Map.empty "[7, 8]" "\<lambda>_. 1"]
  show ?thesis by (force simp: demo_pool length_demo_frames)
qed

end
