(* ===== verification/Usermode.thy ===== *)
theory Usermode
  imports Syscall Elf
begin

text \<open>
  Segments, the gates of the interrupt table, and the way into user mode and back (\<open>kernel/src/gdt.rs\<close>,
  \<open>jump_to_usermode\<close> of \<open>kernel/src/syscall.rs\<close>, \<open>init_idt\<close> of \<open>kernel/src/interrupts.rs\<close>). The table of descriptors
  is a type of the crate \<open>x86_64\<close> and a parameter; the instructions of the source and the checks the processor
  makes when a selector is loaded or a gate is entered are modelled. Stacks are memory: 64-bit cells by address.
\<close>

unbundle bit_operations_syntax

section \<open>Descriptors and the processor\<close>

record task_state =
  interrupt_stack_table :: "addr list"
  privilege_stack_table :: "addr list"

datatype descriptor = KernelCode | KernelData | UserCode | UserData | TssSegment task_state

fun dpl :: "descriptor \<Rightarrow> nat" where
  "dpl UserCode = 3"
| "dpl UserData = 3"
| "dpl _ = 0"

fun is_code :: "descriptor \<Rightarrow> bool" where
  "is_code KernelCode = True"
| "is_code UserCode = True"
| "is_code _ = False"

fun is_data :: "descriptor \<Rightarrow> bool" where
  "is_data KernelData = True"
| "is_data UserData = True"
| "is_data _ = False"

text \<open>The crate's table: the empty one, appending a descriptor, and what the processor finds at an index.\<close>

record 'g gdt_ops =
  gdt_new :: 'g
  gdt_append :: "'g \<Rightarrow> descriptor \<Rightarrow> (u16 \<times> 'g) res"
  descriptor_at :: "'g \<Rightarrow> nat \<Rightarrow> descriptor option"
  tss_new :: task_state

record gate =
  gate_handler :: handler
  gate_selector :: u16
  gate_dpl :: nat
  gate_ist :: "nat option"

datatype reg = RAX | RBX | RCX | RDX | RSI | RDI | R8 | R9 | R10 | R11 | R12 | R13 | R14 | R15

record 'g cpu =
  gdtr :: 'g
  idtr :: "nat \<rightharpoonup> gate"
  task_register :: u16
  seg_cs :: u16
  seg_ds :: u16
  seg_es :: u16
  seg_fs :: u16
  seg_gs :: u16
  seg_ss :: u16
  gpr :: "reg \<Rightarrow> u64"
  rip :: u64
  rsp :: u64
  rflags :: u64
  cells :: "u64 \<Rightarrow> u64"

definition rpl :: "u16 \<Rightarrow> nat" where
  "rpl sel = unat sel mod 4"

definition cpl :: "'g cpu \<Rightarrow> nat" where
  "cpl c = rpl (seg_cs c)"

text \<open>A selector with bit 2 names a local table; the kernel has none.\<close>

definition selected :: "'g gdt_ops \<Rightarrow> 'g cpu \<Rightarrow> u16 \<Rightarrow> descriptor option" where
  "selected G c sel = (if unat sel mod 8 \<ge> 4 then None else descriptor_at G (gdtr c) (unat sel div 8))"

text \<open>What the processor checks of a selector loaded into \<open>DS\<close>, \<open>ES\<close>, \<open>FS\<close> or \<open>GS\<close>, into \<open>SS\<close>, and into \<open>CS\<close>.\<close>

definition data_fits :: "'g gdt_ops \<Rightarrow> 'g cpu \<Rightarrow> u16 \<Rightarrow> bool" where
  "data_fits G c sel \<longleftrightarrow> unat sel div 4 = 0 \<or>
     (case selected G c sel of None \<Rightarrow> False | Some d \<Rightarrow> (is_data d \<or> is_code d) \<and> cpl c \<le> dpl d \<and> rpl sel \<le> dpl d)"

definition stack_fits :: "'g gdt_ops \<Rightarrow> 'g cpu \<Rightarrow> nat \<Rightarrow> u16 \<Rightarrow> bool" where
  "stack_fits G c level sel \<longleftrightarrow> rpl sel = level \<and>
     (if unat sel div 4 = 0 then level < 3 else case selected G c sel of None \<Rightarrow> False | Some d \<Rightarrow> is_data d \<and> dpl d = level)"

definition code_fits :: "'g gdt_ops \<Rightarrow> 'g cpu \<Rightarrow> u16 \<Rightarrow> bool" where
  "code_fits G c sel \<longleftrightarrow> (case selected G c sel of None \<Rightarrow> False | Some d \<Rightarrow> is_code d \<and> dpl d = rpl sel)"

definition fault_unless :: "bool \<Rightarrow> 'a \<Rightarrow> 'a res" where
  "fault_unless b x = (if b then Ok x else Panic GpFault)"

section \<open>The tables of the kernel\<close>

definition DOUBLE_FAULT_IST_INDEX :: nat where
  "DOUBLE_FAULT_IST_INDEX = 0"

definition STACK_SIZE :: usize where
  "STACK_SIZE = 4096 * 5"

text \<open>The top of a static array of \<open>STACK_SIZE\<close> bytes at \<open>start\<close> (the same for the stack of system calls, which nothing uses).\<close>

definition stack_top :: "('m, 'f) mapper \<Rightarrow> addr \<Rightarrow> addr res" where
  "stack_top ops start = rbind (virt_new ops start) (\<lambda>stack_start. virt_add ops stack_start STACK_SIZE)"

definition set_index :: "nat \<Rightarrow> 'a \<Rightarrow> 'a list \<Rightarrow> 'a list res" where
  "set_index i x xs = (if i < length xs then Ok (xs[i := x]) else Panic IndexOutOfBounds)"

definition TSS :: "'g gdt_ops \<Rightarrow> ('m, 'f) mapper \<Rightarrow> addr \<Rightarrow> addr \<Rightarrow> task_state res" where
  "TSS G ops stack kstack =
     rbind (stack_top ops stack) (\<lambda>top.
     rbind (set_index DOUBLE_FAULT_IST_INDEX top (interrupt_stack_table (tss_new G))) (\<lambda>ist.
     rbind (stack_top ops kstack) (\<lambda>ktop.
     rbind (set_index 0 ktop (privilege_stack_table (tss_new G))) (\<lambda>pst.
       Ok ((tss_new G)\<lparr>interrupt_stack_table := ist, privilege_stack_table := pst\<rparr>)))))"

record selectors =
  kernel_code_selector :: u16
  user_code_selector :: u16
  kernel_data_selector :: u16
  user_data_selector :: u16
  tss_selector :: u16

definition GDT :: "'g gdt_ops \<Rightarrow> task_state \<Rightarrow> ('g \<times> selectors) res" where
  "GDT G tss =
     rbind (gdt_append G (gdt_new G) KernelCode) (\<lambda>(kc, g).
     rbind (gdt_append G g KernelData) (\<lambda>(kd, g).
     rbind (gdt_append G g UserCode) (\<lambda>(uc, g).
     rbind (gdt_append G g UserData) (\<lambda>(ud, g).
     rbind (gdt_append G g (TssSegment tss)) (\<lambda>(ts, g).
       Ok (g, \<lparr>kernel_code_selector = kc, user_code_selector = uc, kernel_data_selector = kd, user_data_selector = ud, tss_selector = ts\<rparr>))))))"

text \<open>\<open>gdt::init\<close>: loading the table and the segment registers.\<close>

definition set_cs :: "'g gdt_ops \<Rightarrow> u16 \<Rightarrow> 'g cpu \<Rightarrow> 'g cpu res" where
  "set_cs G sel c = fault_unless (code_fits G c sel \<and> cpl c \<le> rpl sel) (c\<lparr>seg_cs := sel\<rparr>)"

definition load_tss :: "'g gdt_ops \<Rightarrow> u16 \<Rightarrow> 'g cpu \<Rightarrow> 'g cpu res" where
  "load_tss G sel c = (case selected G c sel of Some (TssSegment t) \<Rightarrow> Ok (c\<lparr>task_register := sel\<rparr>) | _ \<Rightarrow> Panic GpFault)"

definition gdt_init :: "'g gdt_ops \<Rightarrow> ('m, 'f) mapper \<Rightarrow> addr \<Rightarrow> addr \<Rightarrow> 'g cpu \<Rightarrow> 'g cpu res" where
  "gdt_init G ops stack kstack c =
     rbind (TSS G ops stack kstack) (\<lambda>tss.
     rbind (GDT G tss) (\<lambda>(gdt, sel).
     rbind (set_cs G (kernel_code_selector sel) (c\<lparr>gdtr := gdt\<rparr>)) (\<lambda>c.
     rbind (fault_unless (data_fits G c (kernel_data_selector sel)) (c\<lparr>seg_ds := kernel_data_selector sel\<rparr>)) (\<lambda>c.
     rbind (fault_unless (data_fits G c (kernel_data_selector sel)) (c\<lparr>seg_es := kernel_data_selector sel\<rparr>)) (\<lambda>c.
     rbind (fault_unless (stack_fits G c (cpl c) (kernel_data_selector sel)) (c\<lparr>seg_ss := kernel_data_selector sel\<rparr>)) (\<lambda>c.
       load_tss G (tss_selector sel) c))))))"

text \<open>
  The gates of \<open>IDT\<close>: the crate gives each the code selector of the moment, privilege level 0, interrupts off and
  no stack of its own; the double fault and the system call change that.
\<close>

definition idt_gates :: "u16 \<Rightarrow> nat \<rightharpoonup> gate" where
  "idt_gates cs v = map_option (\<lambda>h.
     \<lparr>gate_handler = h, gate_selector = cs, gate_dpl = (if v = 0x80 then 3 else 0),
      gate_ist = (if v = 8 then Some DOUBLE_FAULT_IST_INDEX else None)\<rparr>) (IDT v)"

definition init_idt :: "'g cpu \<Rightarrow> 'g cpu" where
  "init_idt c = c\<lparr>idtr := idt_gates (seg_cs c)\<rparr>"

section \<open>Into user mode\<close>

definition push :: "u64 \<Rightarrow> 'g cpu \<Rightarrow> 'g cpu" where
  "push v c = c\<lparr>rsp := rsp c - 8, cells := (cells c)(rsp c - 8 := v)\<rparr>"

text \<open>The five cells of a frame, from the top of the stack.\<close>

definition frame_at :: "'g cpu \<Rightarrow> u64 list" where
  "frame_at c = map (\<lambda>i. cells c (rsp c + 8 * of_nat i)) [0..<5]"

text \<open>On the way to an outer level the processor clears the data segments that the level may not use.\<close>

definition keep_segment :: "'g gdt_ops \<Rightarrow> 'g cpu \<Rightarrow> u16 \<Rightarrow> u16" where
  "keep_segment G c sel = (if data_fits G c sel then sel else 0)"

text \<open>In 64-bit mode \<open>iretq\<close> faults while the flag NT is set.\<close>

definition iret :: "'g gdt_ops \<Rightarrow> u64 list \<Rightarrow> 'g cpu \<Rightarrow> 'g cpu res" where
  "iret G frame c =
     (let sel = ucast (frame ! 1); stack_sel = ucast (frame ! 4);
          c' = c\<lparr>rip := frame ! 0, seg_cs := sel, rflags := frame ! 2, rsp := frame ! 3, seg_ss := stack_sel\<rparr>
      in fault_unless (\<not> bit (rflags c) 14 \<and> cpl c \<le> rpl sel \<and> code_fits G c sel \<and> stack_fits G c (rpl sel) stack_sel \<and> canonical (unat (frame ! 0)))
           (if cpl c < rpl sel
            then c'\<lparr>seg_ds := keep_segment G c' (seg_ds c), seg_es := keep_segment G c' (seg_es c),
                    seg_fs := keep_segment G c' (seg_fs c), seg_gs := keep_segment G c' (seg_gs c)\<rparr>
            else c'))"

datatype segment = DS | ES | FS | GS

datatype instr =
    MovAx u16 | MovSeg segment | PushImm u64 | PushReg reg | Pushfq | PopRax | OrRax u64 | Iretq

fun put_segment :: "segment \<Rightarrow> u16 \<Rightarrow> 'g cpu \<Rightarrow> 'g cpu" where
  "put_segment DS v c = c\<lparr>seg_ds := v\<rparr>"
| "put_segment ES v c = c\<lparr>seg_es := v\<rparr>"
| "put_segment FS v c = c\<lparr>seg_fs := v\<rparr>"
| "put_segment GS v c = c\<lparr>seg_gs := v\<rparr>"

fun exec :: "'g gdt_ops \<Rightarrow> instr \<Rightarrow> 'g cpu \<Rightarrow> 'g cpu res" where
  "exec G (MovAx v) c = Ok (c\<lparr>gpr := (gpr c)(RAX := (gpr c RAX AND NOT 0xFFFF) OR ucast v)\<rparr>)"
| "exec G (MovSeg r) c = (let v = ucast (gpr c RAX) in fault_unless (data_fits G c v) (put_segment r v c))"
| "exec G (PushImm v) c = Ok (push v c)"
| "exec G (PushReg r) c = Ok (push (gpr c r) c)"
| "exec G Pushfq c = Ok (push (rflags c AND NOT 0x30000) c)"
| "exec G PopRax c = Ok (c\<lparr>gpr := (gpr c)(RAX := cells c (rsp c)), rsp := rsp c + 8\<rparr>)"
| "exec G (OrRax v) c = Ok (c\<lparr>gpr := (gpr c)(RAX := gpr c RAX OR v)\<rparr>)"
| "exec G Iretq c = iret G (frame_at c) c"

primrec run :: "'g gdt_ops \<Rightarrow> instr list \<Rightarrow> 'g cpu \<Rightarrow> 'g cpu res" where
  "run G [] c = Ok c"
| "run G (i # is) c = rbind (exec G i c) (run G is)"

text \<open>
  The compiler chooses the registers \<open>r1\<close> and \<open>r2\<close> that hold the operands; the source names none and does not say
  that the code changes \<open>rax\<close>.
\<close>

definition jump_to_usermode :: "'g gdt_ops \<Rightarrow> reg \<Rightarrow> reg \<Rightarrow> u64 \<Rightarrow> u64 \<Rightarrow> 'g cpu \<Rightarrow> 'g cpu res" where
  "jump_to_usermode G r1 r2 entry user_stack_top c =
     run G [MovAx 0x23, MovSeg DS, MovSeg ES, MovSeg FS, MovSeg GS,
            PushImm 0x23, PushReg r1, Pushfq, PopRax, OrRax 0x200, PushReg RAX, PushImm 0x1b, PushReg r2, Iretq]
       (c\<lparr>gpr := (gpr c)(r1 := user_stack_top, r2 := entry)\<rparr>)"

section \<open>Through a gate\<close>

text \<open>
  What the processor does at an interrupt: the instruction \<open>int\<close> needs the privilege of the gate, an exception and
  the interrupt of a device do not. Some exceptions push an error code after the frame. The flags TF, IF, NT and RF are
  cleared. The result is the handler that runs.
\<close>

datatype event = Software | Device | Exception u64

definition error_code_vectors :: "nat list" where
  "error_code_vectors = [8, 10, 11, 12, 13, 14, 17, 21, 29, 30]"

definition push_error_code :: "event \<Rightarrow> nat \<Rightarrow> 'g cpu \<Rightarrow> 'g cpu" where
  "push_error_code ev v c = (case ev of Exception err \<Rightarrow> if v \<in> set error_code_vectors then push err c else c | _ \<Rightarrow> c)"

definition gate_stack :: "'g gdt_ops \<Rightarrow> gate \<Rightarrow> nat \<Rightarrow> 'g cpu \<Rightarrow> u64 res" where
  "gate_stack G g level c =
     (case selected G c (task_register c) of
        Some (TssSegment t) \<Rightarrow>
          Ok (case gate_ist g of
                Some i \<Rightarrow> of_nat (interrupt_stack_table t ! i)
              | None \<Rightarrow> if level < cpl c then of_nat (privilege_stack_table t ! level) else rsp c)
      | _ \<Rightarrow> if gate_ist g = None \<and> level = cpl c then Ok (rsp c) else Panic GpFault)"

definition enter_gate :: "'g gdt_ops \<Rightarrow> event \<Rightarrow> nat \<Rightarrow> 'g cpu \<Rightarrow> (handler \<times> 'g cpu) res" where
  "enter_gate G ev v c =
     (case idtr c v of
        None \<Rightarrow> Panic GpFault
      | Some g \<Rightarrow>
          if ev = Software \<and> gate_dpl g < cpl c then Panic GpFault
          else (case selected G c (gate_selector g) of
                  None \<Rightarrow> Panic GpFault
                | Some d \<Rightarrow>
                    if \<not> is_code d \<or> cpl c < dpl d then Panic GpFault
                    else rbind (gate_stack G g (dpl d) c) (\<lambda>top.
                      let c' = push_error_code ev v (push (rip c) (push (ucast (seg_cs c)) (push (rflags c) (push (rsp c) (push (ucast (seg_ss c))
                            (c\<lparr>rsp := top AND NOT 15\<rparr>))))))
                      in Ok (gate_handler g, c'\<lparr>seg_cs := (gate_selector g AND NOT 3) OR of_nat (dpl d), rflags := rflags c AND NOT 0x14300,
                              seg_ss := (if dpl d < cpl c then of_nat (dpl d) else seg_ss c)\<rparr>))))"

section \<open>What the crate promises\<close>

text \<open>
  A new table has the null descriptor only; appending uses the next free one of eight entries (two of them for a
  task state segment) and returns its selector, with the privilege level of the descriptor.
\<close>

fun width :: "descriptor \<Rightarrow> nat" where
  "width (TssSegment t) = 2"
| "width _ = 1"

definition gdt_ok :: "'g gdt_ops \<Rightarrow> ('g \<Rightarrow> nat) \<Rightarrow> bool" where
  "gdt_ok G used \<longleftrightarrow> used (gdt_new G) = 1 \<and> (\<forall>i. descriptor_at G (gdt_new G) i = None) \<and>
     length (interrupt_stack_table (tss_new G)) = 7 \<and> length (privilege_stack_table (tss_new G)) = 3 \<and>
     (\<forall>g d. used g + width d \<le> 8 \<longrightarrow> (\<exists>g'. gdt_append G g d = Ok (of_nat (8 * used g + dpl d), g') \<and> used g' = used g + width d \<and>
        (\<forall>i. descriptor_at G g' i = (if i = used g then Some d else descriptor_at G g i))))"

definition kernel_descriptors :: "task_state \<Rightarrow> nat \<rightharpoonup> descriptor" where
  "kernel_descriptors t = [1 \<mapsto> KernelCode, 2 \<mapsto> KernelData, 3 \<mapsto> UserCode, 4 \<mapsto> UserData, 5 \<mapsto> TssSegment t]"

lemma gdt_append_ok:
  assumes "gdt_ok G used" "used g + width d \<le> 8"
  obtains g' where "gdt_append G g d = Ok (of_nat (8 * used g + dpl d), g')" "used g' = used g + width d"
    "descriptor_at G g' = (descriptor_at G g)(used g \<mapsto> d)"
  using assms unfolding gdt_ok_def fun_upd_def by (metis (no_types, lifting) ext)

lemma GDT_built:
  assumes "gdt_ok G used"
  shows "\<exists>g. GDT G t = Ok (g, \<lparr>kernel_code_selector = 0x08, user_code_selector = 0x1b, kernel_data_selector = 0x10,
     user_data_selector = 0x23, tss_selector = 0x28\<rparr>) \<and> descriptor_at G g = kernel_descriptors t"
proof -
  have new: "used (gdt_new G) = 1" "descriptor_at G (gdt_new G) = Map.empty" using assms by (auto simp: gdt_ok_def)
  obtain g1 where g1: "gdt_append G (gdt_new G) KernelCode = Ok (8, g1)" "used g1 = 2" "descriptor_at G g1 = [1 \<mapsto> KernelCode]"
    by (rule gdt_append_ok [OF assms, of "gdt_new G" KernelCode]) (simp_all add: new)
  obtain g2 where g2: "gdt_append G g1 KernelData = Ok (16, g2)" "used g2 = 3" "descriptor_at G g2 = [1 \<mapsto> KernelCode, 2 \<mapsto> KernelData]"
    by (rule gdt_append_ok [OF assms, of g1 KernelData]) (simp_all add: g1)
  obtain g3 where g3: "gdt_append G g2 UserCode = Ok (27, g3)" "used g3 = 4" "descriptor_at G g3 = [1 \<mapsto> KernelCode, 2 \<mapsto> KernelData, 3 \<mapsto> UserCode]"
    by (rule gdt_append_ok [OF assms, of g2 UserCode]) (simp_all add: g2)
  obtain g4 where g4: "gdt_append G g3 UserData = Ok (35, g4)" "used g4 = 5"
    "descriptor_at G g4 = [1 \<mapsto> KernelCode, 2 \<mapsto> KernelData, 3 \<mapsto> UserCode, 4 \<mapsto> UserData]"
    by (rule gdt_append_ok [OF assms, of g3 UserData]) (simp_all add: g3)
  obtain g5 where g5: "gdt_append G g4 (TssSegment t) = Ok (40, g5)" "descriptor_at G g5 = kernel_descriptors t"
    by (rule gdt_append_ok [OF assms, of g4 "TssSegment t"]) (simp_all add: g4 kernel_descriptors_def)
  show ?thesis by (simp add: GDT_def g1(1) g2(1) g3(1) g4(1) g5)
qed

lemma TSS_built:
  assumes "gdt_ok G used" "addresses_ok ops" "canonical stack" "canonical (stack + STACK_SIZE)" "canonical kstack" "canonical (kstack + STACK_SIZE)"
  shows "\<exists>t. TSS G ops stack kstack = Ok t \<and> interrupt_stack_table t ! 0 = stack + STACK_SIZE \<and> privilege_stack_table t ! 0 = kstack + STACK_SIZE"
proof -
  have "stack_top ops stack = Ok (stack + STACK_SIZE)" "stack_top ops kstack = Ok (kstack + STACK_SIZE)"
    using assms by (simp_all add: stack_top_def addresses_ok_def)
  then show ?thesis using assms(1) by (simp add: TSS_def set_index_def gdt_ok_def DOUBLE_FAULT_IST_INDEX_def)
qed

lemmas selector_checks = selected_def data_fits_def stack_fits_def code_fits_def fault_unless_def rpl_def cpl_def kernel_descriptors_def

text \<open>The processor after \<open>gdt::init\<close>.\<close>

definition kernel_segments :: "'g \<Rightarrow> 'g cpu \<Rightarrow> 'g cpu" where
  "kernel_segments g c = c\<lparr>gdtr := g, task_register := 0x28, seg_cs := 0x08, seg_ds := 0x10, seg_es := 0x10, seg_ss := 0x10\<rparr>"

lemma gdt_init_ok:
  assumes "gdt_ok G used" "addresses_ok ops" "canonical stack" "canonical (stack + STACK_SIZE)" "canonical kstack" "canonical (kstack + STACK_SIZE)"
    and "cpl c = 0"
  shows "\<exists>g t. gdt_init G ops stack kstack c = Ok (kernel_segments g c) \<and> descriptor_at G g = kernel_descriptors t \<and>
    interrupt_stack_table t ! 0 = stack + STACK_SIZE \<and> privilege_stack_table t ! 0 = kstack + STACK_SIZE"
proof -
  obtain t where t: "TSS G ops stack kstack = Ok t" "interrupt_stack_table t ! 0 = stack + STACK_SIZE" "privilege_stack_table t ! 0 = kstack + STACK_SIZE"
    using TSS_built [OF assms(1-6)] by blast
  obtain g where g: "GDT G t = Ok (g, \<lparr>kernel_code_selector = 0x08, user_code_selector = 0x1b, kernel_data_selector = 0x10,
     user_data_selector = 0x23, tss_selector = 0x28\<rparr>)" "descriptor_at G g = kernel_descriptors t" using GDT_built [OF assms(1)] by blast
  have "gdt_init G ops stack kstack c = Ok (kernel_segments g c)"
    using assms(7) by (simp add: gdt_init_def t(1) g set_cs_def load_tss_def selector_checks kernel_segments_def)
  with g(2) t show ?thesis by blast
qed

section \<open>Entering user mode\<close>

lemma frame_at_cells:
  "frame_at c = [cells c (rsp c), cells c (rsp c + 8), cells c (rsp c + 16), cells c (rsp c + 24), cells c (rsp c + 32)]"
proof -
  have "[0..<5] = [0, 1, 2, 3, 4 :: nat]" by (simp add: upt_rec)
  then show ?thesis by (simp add: frame_at_def)
qed

lemma frame_pushed:
  "frame_at (push a (push b (push f (push d (push e c))))) = [a, b, f, d, e]"
  by (simp add: frame_at_cells push_def)

lemma ax_selector: "ucast ((x AND NOT 0xFFFF) OR 0x23 :: u64) = (0x23 :: u16)"
proof -
  have low: "(0xFFFF :: u64) = mask 16" by (simp add: mask_eq_exp_minus_1)
  show ?thesis unfolding low by (rule bit_word_eqI) (auto simp: bit_simps)
qed

text \<open>The flags that \<open>jump_to_usermode\<close> passes on.\<close>

definition user_flags :: "'g cpu \<Rightarrow> u64" where
  "user_flags c = (rflags c AND NOT 0x30000) OR 0x200"

lemma run_last: "rbind m (run G []) = m"
  by (cases m) simp_all

lemma iret_user:
  assumes "descriptor_at G (gdtr c) = kernel_descriptors t" "seg_cs c = 0x08" "canonical (unat ip)"
    and "seg_ds c = 0x23" "seg_es c = 0x23" "seg_fs c = 0x23" "seg_gs c = 0x23" "\<not> bit (rflags c) 14"
  shows "iret G [ip, 0x1b, fl, sp, 0x23] c = Ok (c\<lparr>rip := ip, seg_cs := 0x1b, rflags := fl, rsp := sp, seg_ss := 0x23\<rparr>)"
proof -
  have "keep_segment G (c\<lparr>rip := ip, seg_cs := 0x1b, rflags := fl, rsp := sp, seg_ss := 0x23\<rparr>) 0x23 = 0x23"
    using assms(1) by (simp add: keep_segment_def selector_checks)
  then show ?thesis using assms by (simp add: iret_def selector_checks)
qed

text \<open>Everything up to the \<open>iretq\<close>: the frame on the stack and the state it is executed in.\<close>

lemma jump_to_iret:
  assumes "descriptor_at G g = kernel_descriptors t" "r1 \<noteq> r2"
  shows "\<exists>k. jump_to_usermode G r1 r2 entry ustack (kernel_segments g c) =
      iret G [if r2 = RAX then user_flags c else entry, 0x1b, user_flags c, if r1 = RAX then (ustack AND NOT 0xFFFF) OR 0x23 else ustack, 0x23] k \<and>
    gdtr k = g \<and> idtr k = idtr c \<and> task_register k = 0x28 \<and> seg_cs k = 0x08 \<and> rflags k = rflags c \<and>
    seg_ds k = 0x23 \<and> seg_es k = 0x23 \<and> seg_fs k = 0x23 \<and> seg_gs k = 0x23"
proof -
  define k where "k = kernel_segments g c"
  define rs where "rs = (gpr c)(r1 := ustack, r2 := entry)"
  define a where "a = (rs RAX AND NOT 0xFFFF) OR 0x23"
  define k1 where "k1 = k\<lparr>gpr := rs(RAX := a), seg_ds := 0x23, seg_es := 0x23, seg_fs := 0x23, seg_gs := 0x23\<rparr>"
  have a: "ucast a = (0x23 :: u16)" unfolding a_def by (rule ax_selector)
  have segments: "jump_to_usermode G r1 r2 entry ustack k = run G [PushImm 0x23, PushReg r1, Pushfq, PopRax, OrRax 0x200, PushReg RAX, PushImm 0x1b, PushReg r2, Iretq] k1"
    using assms(1) a by (simp add: jump_to_usermode_def k1_def k_def kernel_segments_def selector_checks rs_def a_def)
  define f where "f = user_flags c"
  define k2 where "k2 = push ((rs(RAX := f)) r2) (push 0x1b (push f (push ((rs(RAX := a)) r1) (push 0x23 (k1\<lparr>gpr := rs(RAX := f)\<rparr>)))))"
  have "run G [PushImm 0x23, PushReg r1, Pushfq, PopRax, OrRax 0x200, PushReg RAX, PushImm 0x1b, PushReg r2, Iretq] k1 =
      iret G [(rs(RAX := f)) r2, 0x1b, f, (rs(RAX := a)) r1, 0x23] k2"
    by (simp add: push_def frame_at_cells k1_def k2_def k_def kernel_segments_def f_def user_flags_def run_last)
  also have "(rs(RAX := f)) r2 = (if r2 = RAX then user_flags c else entry)" by (simp add: rs_def f_def)
  also have "(rs(RAX := a)) r1 = (if r1 = RAX then (ustack AND NOT 0xFFFF) OR 0x23 else ustack)" using assms(2) by (auto simp: rs_def a_def)
  finally show ?thesis unfolding k_def [symmetric] segments f_def
    by (intro exI [of _ k2]) (simp add: k2_def k1_def k_def kernel_segments_def push_def)
qed

lemma jump_runs:
  assumes "descriptor_at G g = kernel_descriptors t" "r1 \<noteq> r2"
    and "canonical (unat (if r2 = RAX then user_flags c else entry))"
  shows "if bit (rflags c) 14 then jump_to_usermode G r1 r2 entry ustack (kernel_segments g c) = Panic GpFault
    else \<exists>c'. jump_to_usermode G r1 r2 entry ustack (kernel_segments g c) = Ok c' \<and> gdtr c' = g \<and> idtr c' = idtr c \<and> task_register c' = 0x28 \<and>
    seg_cs c' = 0x1b \<and> seg_ss c' = 0x23 \<and> seg_ds c' = 0x23 \<and> seg_es c' = 0x23 \<and> seg_fs c' = 0x23 \<and> seg_gs c' = 0x23 \<and> rflags c' = user_flags c \<and>
    rip c' = (if r2 = RAX then user_flags c else entry) \<and> rsp c' = (if r1 = RAX then (ustack AND NOT 0xFFFF) OR 0x23 else ustack)"
proof -
  obtain k where k: "jump_to_usermode G r1 r2 entry ustack (kernel_segments g c) =
      iret G [if r2 = RAX then user_flags c else entry, 0x1b, user_flags c, if r1 = RAX then (ustack AND NOT 0xFFFF) OR 0x23 else ustack, 0x23] k"
    "gdtr k = g" "idtr k = idtr c" "task_register k = 0x28" "seg_cs k = 0x08" "rflags k = rflags c"
    "seg_ds k = 0x23" "seg_es k = 0x23" "seg_fs k = 0x23" "seg_gs k = 0x23"
    using jump_to_iret [OF assms(1,2)] by blast
  show ?thesis
  proof (cases "bit (rflags c) 14")
    case True
    then show ?thesis unfolding k(1) by (simp add: iret_def fault_unless_def k(6) Let_def)
  next
    case False
    then show ?thesis unfolding k(1)
      using iret_user [of G k t, OF _ k(5) assms(3) k(7-10)] assms(1) k by simp
  qed
qed

text \<open>
  C2. The selectors that \<open>jump_to_usermode\<close> has as constants are those of the user segments in the table the kernel
  builds: after \<open>gdt::init\<close> in the kernel, whatever the processor's state, the jump passes every check of the
  processor and ends at the lowest privilege with interrupts on, at the entry point and the stack asked for,
  provided that the compiler has put neither operand in \<open>rax\<close>; if it has, the program starts at an address made
  of the flags, or on a stack whose low 16 bits are those of the selector. The one flag that matters is NT: with it
  set, the \<open>iretq\<close> faults.
\<close>

theorem usermode_entered:
  assumes "gdt_ok G used" "addresses_ok ops" "canonical stack" "canonical (stack + STACK_SIZE)" "canonical kstack" "canonical (kstack + STACK_SIZE)"
    and "cpl c = 0" "r1 \<noteq> r2" "canonical (unat (if r2 = RAX then user_flags c else entry))"
  shows "if bit (rflags c) 14 then rbind (gdt_init G ops stack kstack c) (jump_to_usermode G r1 r2 entry ustack) = Panic GpFault
    else \<exists>c'. rbind (gdt_init G ops stack kstack c) (jump_to_usermode G r1 r2 entry ustack) = Ok c' \<and>
    cpl c' = 3 \<and> selected G c' (seg_cs c') = Some UserCode \<and> selected G c' (seg_ss c') = Some UserData \<and>
    set [seg_ds c', seg_es c', seg_fs c', seg_gs c'] = {seg_ss c'} \<and> bit (rflags c') 9 \<and> idtr c' = idtr c \<and>
    rip c' = (if r2 = RAX then user_flags c else entry) \<and> rsp c' = (if r1 = RAX then (ustack AND NOT 0xFFFF) OR 0x23 else ustack)"
proof -
  obtain g t where init: "gdt_init G ops stack kstack c = Ok (kernel_segments g c)" and g: "descriptor_at G g = kernel_descriptors t"
    using gdt_init_ok [OF assms(1-7)] by blast
  note jump = jump_runs [OF g assms(8,9), where ustack = ustack]
  show ?thesis
  proof (cases "bit (rflags c) 14")
    case True
    with jump init show ?thesis by simp
  next
    case False
    with jump obtain c' where c': "jump_to_usermode G r1 r2 entry ustack (kernel_segments g c) = Ok c'" "gdtr c' = g" "idtr c' = idtr c"
      "seg_cs c' = 0x1b" "seg_ss c' = 0x23" "seg_ds c' = 0x23" "seg_es c' = 0x23" "seg_fs c' = 0x23" "seg_gs c' = 0x23" "rflags c' = user_flags c"
      "rip c' = (if r2 = RAX then user_flags c else entry)" "rsp c' = (if r1 = RAX then (ustack AND NOT 0xFFFF) OR 0x23 else ustack)"
      by (simp only: if_False) blast
    have "bit (user_flags c) 9" by (simp add: user_flags_def bit_simps)
    with init c' g False show ?thesis by (simp add: selector_checks)
  qed
qed

text \<open>A table as a list of descriptors, and a processor as a boot loader may leave it.\<close>

definition list_gdt :: "descriptor option list gdt_ops" where
  "list_gdt = \<lparr>gdt_new = [None],
     gdt_append = \<lambda>g d. if length g + width d \<le> 8 then Ok (of_nat (8 * length g + dpl d), g @ Some d # replicate (width d - 1) None) else Panic (ExplicitPanic ''GDT full''),
     descriptor_at = \<lambda>g i. if i < length g then g ! i else None,
     tss_new = \<lparr>interrupt_stack_table = replicate 7 0, privilege_stack_table = replicate 3 0\<rparr>\<rparr>"

lemma list_gdt_ok: "gdt_ok list_gdt length"
proof -
  have at: "descriptor_at list_gdt (g @ Some d # replicate n None) i = (if i = length g then Some d else descriptor_at list_gdt g i)" for g d n i
    by (auto simp: list_gdt_def nth_append nth_Cons split: nat.splits)
  have "length (g @ Some d # replicate (width d - 1) None) = length g + width d" for g d by (cases d) simp_all
  moreover have "gdt_append list_gdt g d = Ok (of_nat (8 * length g + dpl d), g @ Some d # replicate (width d - 1) None)" if "length g + width d \<le> 8" for g d
    using that by (simp add: list_gdt_def)
  moreover have "length (gdt_new list_gdt) = 1" "\<forall>i. descriptor_at list_gdt (gdt_new list_gdt) i = None"
    "length (interrupt_stack_table (tss_new list_gdt)) = 7" "length (privilege_stack_table (tss_new list_gdt)) = 3"
    by (simp_all add: list_gdt_def)
  ultimately show ?thesis using at unfolding gdt_ok_def by blast
qed

definition boot_cpu :: "u16 \<Rightarrow> descriptor option list cpu" where
  "boot_cpu cs = \<lparr>gdtr = [], idtr = Map.empty, task_register = 0, seg_cs = cs, seg_ds = 0, seg_es = 0, seg_fs = 0, seg_gs = 0, seg_ss = 0,
     gpr = \<lambda>_. 0, rip = 0, rsp = 0x8000, rflags = 2, cells = \<lambda>_. 0\<rparr>"

theorem usermode_entered_witness:
  "\<exists>c'. rbind (gdt_init list_gdt demo_mapper 0x10000 0x20000 (boot_cpu 8)) (jump_to_usermode list_gdt RDI RSI 0x401000 0x7000) = Ok c' \<and>
     cpl c' = 3 \<and> rip c' = 0x401000 \<and> rsp c' = 0x7000 \<and> bit (rflags c') 9"
proof -
  have "canonical 0x10000" "canonical (0x10000 + STACK_SIZE)" "canonical 0x20000" "canonical (0x20000 + STACK_SIZE)" "cpl (boot_cpu 8) = 0"
    "canonical (unat (if RSI = RAX then user_flags (boot_cpu 8) else 0x401000))" and nt: "\<not> bit (rflags (boot_cpu 8)) 14"
    by (simp_all add: canonical_low STACK_SIZE_def cpl_def rpl_def boot_cpu_def)
  from usermode_entered [where ?r1.0 = RDI and ustack = "0x7000", OF list_gdt_ok demo_addresses_ok this(1-5) _ this(6)] nt show ?thesis by auto
qed

section \<open>System calls from user mode\<close>

text \<open>
  A program as \<open>jump_to_usermode\<close> starts it, under the tables of the kernel.
\<close>

definition in_user_mode :: "'g gdt_ops \<Rightarrow> addr \<Rightarrow> 'g cpu \<Rightarrow> bool" where
  "in_user_mode G kstack c \<longleftrightarrow> (\<exists>t. descriptor_at G (gdtr c) = kernel_descriptors t \<and> privilege_stack_table t ! 0 = kstack + STACK_SIZE) \<and>
     task_register c = 0x28 \<and> seg_cs c = 0x1b \<and> seg_ss c = 0x23 \<and> seg_ds c = 0x23 \<and> seg_es c = 0x23 \<and> seg_fs c = 0x23 \<and> seg_gs c = 0x23 \<and>
     idtr c = idt_gates 0x08 \<and> canonical (unat (rip c))"

lemma IDT_int80: "IDT 0x80 = Some Int80Entry"
  unfolding IDT_def Let_def fun_upd_def by simp

lemma aligned_stack: "16 dvd n \<Longrightarrow> (of_nat n :: u64) AND NOT 15 = of_nat n"
proof -
  assume "16 dvd n"
  then have "take_bit 4 n = 0" by (simp add: take_bit_eq_mod)
  then have low: "take_bit 4 (of_nat n :: u64) = 0" unfolding take_bit_of_nat by simp
  have m: "(15 :: u64) = mask 4" by (simp add: mask_eq_exp_minus_1)
  have "\<not> bit (of_nat n :: u64) i" if "i < 4" for i using low that by (metis bit_take_bit_iff bit_0_eq bot_apply bot_bool_def)
  then show ?thesis unfolding m by (intro bit_word_eqI) (auto simp: bit_and_iff bit_not_iff bit_mask_iff)
qed

lemma int80_enters:
  assumes "in_user_mode G kstack c" "16 dvd kstack"
  shows "\<exists>k. enter_gate G Software 0x80 c = Ok (Int80Entry, k) \<and> gdtr k = gdtr c \<and> idtr k = idtr c \<and> task_register k = task_register c \<and> seg_cs k = 0x08 \<and> \<not> bit (rflags k) 9 \<and> \<not> bit (rflags k) 14 \<and>
    frame_at k = [rip c, 0x1b, rflags c, rsp c, 0x23] \<and> rsp k = of_nat (kstack + STACK_SIZE) - 40 \<and>
    seg_ds k = 0x23 \<and> seg_es k = 0x23 \<and> seg_fs k = 0x23 \<and> seg_gs k = 0x23"
proof -
  obtain t where t: "descriptor_at G (gdtr c) = kernel_descriptors t" "privilege_stack_table t ! 0 = kstack + STACK_SIZE"
    and c: "task_register c = 0x28" "seg_cs c = 0x1b" "seg_ss c = 0x23" "seg_ds c = 0x23" "seg_es c = 0x23" "seg_fs c = 0x23" "seg_gs c = 0x23"
      "idtr c = idt_gates 0x08"
    using assms(1) unfolding in_user_mode_def by blast
  let ?top = "of_nat (kstack + STACK_SIZE) :: u64"
  let ?g = "\<lparr>gate_handler = Int80Entry, gate_selector = 0x08, gate_dpl = 3, gate_ist = None\<rparr>"
  let ?c = "push (rip c) (push 0x1b (push (rflags c) (push (rsp c) (push 0x23 (c\<lparr>rsp := ?top\<rparr>)))))"
  have "16 dvd kstack + STACK_SIZE" using assms(2) by (simp add: STACK_SIZE_def)
  then have top: "?top AND NOT 15 = ?top" by (rule aligned_stack)
  have stack: "gate_stack G ?g 0 c = Ok ?top" using t c by (simp add: gate_stack_def selector_checks)
  have gate: "idtr c 0x80 = Some ?g" using c by (simp add: idt_gates_def IDT_int80)
  have "enter_gate G Software 0x80 c = Ok (Int80Entry, ?c\<lparr>seg_cs := 0x08, rflags := rflags c AND NOT 0x14300, seg_ss := 0\<rparr>)"
    using t(1) c(2,3) stack top by (simp add: enter_gate_def gate selector_checks push_error_code_def)
  moreover have "frame_at (?c\<lparr>seg_cs := 0x08, rflags := rflags c AND NOT 0x14300, seg_ss := 0\<rparr>) = frame_at ?c" by (simp add: frame_at_cells)
  moreover have "\<not> bit (rflags c AND NOT 0x14300) 9" "\<not> bit (rflags c AND NOT 0x14300) 14"
    by (simp_all add: bit_simps del: bit_numeral_simps) (simp_all add: bit_numeral_rec)
  ultimately show ?thesis using c unfolding frame_pushed by (simp add: push_def)
qed

lemma user_int_refused:
  assumes "seg_cs c = 0x1b" "idtr c = idt_gates cs" "v \<noteq> 0x80"
  shows "enter_gate G Software v c = Panic GpFault"
  using assms by (auto simp: enter_gate_def idt_gates_def cpl_def rpl_def split: option.splits)

lemma stub_stack_aligned: "16 dvd kstack \<Longrightarrow> 16 dvd unat (of_nat (kstack + STACK_SIZE) - 40 - 56 :: u64)"
proof -
  assume "16 dvd kstack"
  then have "16 dvd int (kstack + STACK_SIZE) - 96" unfolding STACK_SIZE_def by presburger
  then have "16 dvd (int (kstack + STACK_SIZE) - 96) mod 2 ^ 64" by (simp add: dvd_mod)
  moreover have "(of_nat (kstack + STACK_SIZE) - 40 - 56 :: u64) = word_of_int (int (kstack + STACK_SIZE) - 96)" by simp
  ultimately have "16 dvd uint (of_nat (kstack + STACK_SIZE) - 40 - 56 :: u64)" by (simp only: uint_word_of_int) simp
  then show ?thesis unfolding uint_nat by (simp only: of_nat_dvd_iff [of 16, symmetric, where 'a = int] of_nat_numeral)
qed

text \<open>The buffer that a call writes is not kernel memory; only \<open>inttostr\<close> writes.\<close>

definition program_buffer :: "'r sys_env \<Rightarrow> regs \<Rightarrow> bool" where
  "program_buffer E u \<longleftrightarrow> (reg_rax u = 5 \<longrightarrow> \<not> in_kernel E (unat (reg_rdi u)) (min (length (decimal (unat (reg_rdx u)))) (unat (reg_rsi u))))"

lemma int80_returns_frame:
  assumes "int80_entry E u frame s = Some (Ok (r, fr, s'))"
  shows "fr = frame" and "env_kernel E a \<Longrightarrow> sys_mem s' a = sys_mem s a"
  using assms syscall_keeps_kernel by (auto simp: int80_entry_registers split: option.splits res.splits)

text \<open>
  C3. A program in user mode that executes \<open>int\<close> reaches the kernel through vector 0x80 only; \<open>int\<close> with any other vector is
  refused by the processor (its faults and the interrupts of devices enter the kernel too, through their own gates).
  Through that gate the kernel runs with interrupts off on the stack of the task state segment, which
  is aligned to 16 bytes where the stub calls the handler, as the calling convention requires. That stack is part of
  the kernel's memory; as long as the buffer of the call is not (the kernel does not check this), no byte of
  the stack is overwritten, and whenever the system call returns, the \<open>iretq\<close> of the stub brings the program back to
  the instruction and the stack it came from, with its flags, and again in user mode under the same tables.
\<close>

theorem syscall_comes_back:
  assumes "in_user_mode G kstack c" "16 dvd kstack"
  shows "\<exists>k. enter_gate G Software 0x80 c = Ok (Int80Entry, k) \<and> cpl k = 0 \<and> \<not> bit (rflags k) 9 \<and> 16 dvd unat (rsp k - 56) \<and>
    (\<forall>E u s r fr s'. (\<forall>a. kstack \<le> a \<and> a < kstack + STACK_SIZE \<longrightarrow> env_kernel E a) \<and> program_buffer E u \<and>
        int80_entry E u (frame_at k) s = Some (Ok (r, fr, s')) \<longrightarrow>
      (\<forall>a. kstack \<le> a \<and> a < kstack + STACK_SIZE \<longrightarrow> sys_mem s' a = sys_mem s a) \<and>
      (\<exists>c'. iret G fr k = Ok c' \<and> in_user_mode G kstack c' \<and> rip c' = rip c \<and> rsp c' = rsp c \<and> rflags c' = rflags c)) \<and>
    (\<forall>v. v \<noteq> 0x80 \<longrightarrow> enter_gate G Software v c = Panic GpFault)"
proof -
  obtain k where k: "enter_gate G Software 0x80 c = Ok (Int80Entry, k)" "gdtr k = gdtr c" "idtr k = idtr c" "task_register k = task_register c"
    "seg_cs k = 0x08" "\<not> bit (rflags k) 9" "\<not> bit (rflags k) 14" "frame_at k = [rip c, 0x1b, rflags c, rsp c, 0x23]"
    "rsp k = of_nat (kstack + STACK_SIZE) - 40" "seg_ds k = 0x23" "seg_es k = 0x23" "seg_fs k = 0x23" "seg_gs k = 0x23"
    using int80_enters [OF assms] by blast
  obtain t where t: "descriptor_at G (gdtr k) = kernel_descriptors t" and user: "seg_cs c = 0x1b" "idtr c = idt_gates 0x08" "canonical (unat (rip c))"
    using assms(1) k(2) unfolding in_user_mode_def by auto
  let ?c = "k\<lparr>rip := rip c, seg_cs := 0x1b, rflags := rflags c, rsp := rsp c, seg_ss := 0x23\<rparr>"
  have "iret G (frame_at k) k = Ok ?c" unfolding k(8) by (rule iret_user [OF t k(5) user(3) k(10-13) k(7)])
  moreover have "in_user_mode G kstack ?c" using assms(1) k unfolding in_user_mode_def by simp
  ultimately have resumed: "(\<forall>a. kstack \<le> a \<and> a < kstack + STACK_SIZE \<longrightarrow> sys_mem s' a = sys_mem s a) \<and> (\<exists>c'. iret G fr k = Ok c' \<and> in_user_mode G kstack c' \<and> rip c' = rip c \<and> rsp c' = rsp c \<and> rflags c' = rflags c)"
    if owned: "\<forall>a. kstack \<le> a \<and> a < kstack + STACK_SIZE \<longrightarrow> env_kernel E a" and returned: "int80_entry E u (frame_at k) s = Some (Ok (r, fr, s'))"
    for E u s r fr s'
    using int80_returns_frame [OF returned] owned by simp
  have "16 dvd unat (rsp k - 56)" unfolding k(9) by (rule stub_stack_aligned [OF assms(2)])
  moreover have "cpl k = 0" using k(5) by (simp add: cpl_def rpl_def)
  ultimately show ?thesis using k(1,6) user_int_refused [OF user(1,2)] by (intro exI [of _ k] conjI) (use resumed in blast)+
qed

lemma demo_user_mode:
  "in_user_mode list_gdt 0x20000 ((boot_cpu 0x1b)\<lparr>rip := 0x401000, rsp := 0x7000,
     gdtr := [None, Some KernelCode, Some KernelData, Some UserCode, Some UserData,
       Some (TssSegment \<lparr>interrupt_stack_table = [0], privilege_stack_table = [0x20000 + STACK_SIZE]\<rparr>), None],
     idtr := idt_gates 0x08, task_register := 0x28, seg_ss := 0x23, seg_ds := 0x23, seg_es := 0x23, seg_fs := 0x23, seg_gs := 0x23\<rparr>)"
proof -
  have "descriptor_at list_gdt [None, Some KernelCode, Some KernelData, Some UserCode, Some UserData, Some (TssSegment t), None] = kernel_descriptors t" for t
    by (auto simp: list_gdt_def kernel_descriptors_def nth_Cons split: nat.splits)
  then show ?thesis unfolding in_user_mode_def by (simp add: boot_cpu_def canonical_low) (metis nth_Cons_0 task_state.select_convs(2))
qed

theorem syscall_comes_back_witness:
  "\<exists>c k fr s'. in_user_mode list_gdt 0x20000 c \<and> enter_gate list_gdt Software 0x80 c = Ok (Int80Entry, k) \<and>
     int80_entry quiet_env \<lparr>reg_rax = 5, reg_rdi = 4096, reg_rsi = 64, reg_rdx = 7, reg_r10 = 0, reg_r8 = 0, reg_r9 = 0\<rparr> (frame_at k) demo_sys
       = Some (Ok (1, fr, s')) \<and>
     (\<exists>c'. iret list_gdt fr k = Ok c' \<and> rip c' = rip c \<and> rsp c' = rsp c) \<and> enter_gate list_gdt Software 14 c = Panic GpFault"
proof -
  let ?u = "\<lparr>reg_rax = 5, reg_rdi = 4096, reg_rsi = 64, reg_rdx = 7, reg_r10 = 0, reg_r8 = 0, reg_r9 = 0\<rparr>"
  have digits: "length (decimal 7) = 1" by (simp add: decimal.simps)
  have "mapped (sys_mem demo_sys) 4096 1" by (simp add: mapped_def demo_sys_def dom_def)
  then obtain s' where "sys_inttostr quiet_env 4096 64 7 demo_sys = Ok (1, s')"
    using sys_inttostr_ok [of 64 4096 7 demo_sys quiet_env] demo_buffer [of 4096 1] demo_heap_room [of 1] digits by (simp add: Let_def)
  then have call: "int80_entry quiet_env ?u frame demo_sys = Some (Ok (1, frame, s'))" for frame
    by (simp add: int80_entry_registers syscall_handler_def)
  have pb: "program_buffer quiet_env ?u" using demo_buffer [of 4096 1] digits by (simp add: program_buffer_def)
  have stack: "\<forall>a. (0x20000 :: nat) \<le> a \<and> a < 0x20000 + STACK_SIZE \<longrightarrow> env_kernel quiet_env a" by (simp add: quiet_env_def)
  obtain c where c: "in_user_mode list_gdt 0x20000 c" using demo_user_mode by blast
  have "16 dvd (0x20000 :: nat)" by simp
  from syscall_comes_back [OF c this] obtain k where k: "enter_gate list_gdt Software 0x80 c = Ok (Int80Entry, k)"
    "\<And>(E :: unit sys_env) u s r fr s'. (\<forall>a. (0x20000 :: nat) \<le> a \<and> a < 0x20000 + STACK_SIZE \<longrightarrow> env_kernel E a) \<Longrightarrow> program_buffer E u \<Longrightarrow>
       int80_entry E u (frame_at k) s = Some (Ok (r, fr, s')) \<Longrightarrow> \<exists>c'. iret list_gdt fr k = Ok c' \<and> rip c' = rip c \<and> rsp c' = rsp c"
    "\<And>v. v \<noteq> 0x80 \<Longrightarrow> enter_gate list_gdt Software v c = Panic GpFault" by metis
  show ?thesis using c k(1) call k(2) [OF stack pb call] k(3) [of 14] by auto
qed

section \<open>The order of the tables\<close>

lemma kernel_code_only:
  assumes "descriptor_at G (gdtr c) = kernel_descriptors t" "rpl cs = 0"
  shows "(\<exists>d. selected G c cs = Some d \<and> is_code d \<and> dpl d = 0) \<longleftrightarrow> cs = 0x08"
proof
  assume "\<exists>d. selected G c cs = Some d \<and> is_code d \<and> dpl d = 0"
  then have "unat cs mod 8 < 4" "unat cs div 8 = 1"
    using assms(1) by (auto simp: selected_def kernel_descriptors_def split: if_splits)
  moreover have "unat cs mod 4 = 0" using assms(2) by (simp add: rpl_def)
  ultimately have "unat cs = 8" by presburger
  then show "cs = 0x08" by (simp add: word_unat_eq_iff)
qed (use assms(1) in \<open>simp add: selected_def kernel_descriptors_def\<close>)

lemma same_level_gate:
  assumes "descriptor_at G (gdtr c) = kernel_descriptors t" "cpl c = 0" "task_register c = 0x28" "rpl cs = 0" "idtr c = idt_gates cs" "IDT v = Some h"
  shows "enter_gate G ev v c = (if cs = 0x08
    then let top = if v = 8 then of_nat (interrupt_stack_table t ! 0) else rsp c;
             c' = push_error_code ev v (push (rip c) (push (ucast (seg_cs c)) (push (rflags c) (push (rsp c) (push (ucast (seg_ss c)) (c\<lparr>rsp := top AND NOT 15\<rparr>))))))
         in Ok (h, c'\<lparr>seg_cs := 0x08, rflags := rflags c AND NOT 0x14300, seg_ss := seg_ss c\<rparr>)
    else Panic GpFault)"
proof (cases "cs = 0x08")
  case True
  have "selected G c 0x28 = Some (TssSegment t)" "selected G c 0x08 = Some KernelCode"
    using assms(1) by (simp_all add: selected_def kernel_descriptors_def)
  then show ?thesis using assms(2,3,5,6) True
    by (simp add: enter_gate_def idt_gates_def gate_stack_def Let_def DOUBLE_FAULT_IST_INDEX_def)
next
  case False
  then have "\<nexists>d. selected G c cs = Some d \<and> is_code d \<and> dpl d = 0" using kernel_code_only [OF assms(1,4)] by blast
  then show ?thesis using assms(2,5,6) False by (auto simp: enter_gate_def idt_gates_def split: option.splits)
qed

lemma IDT_double_fault: "IDT 8 = Some DoubleFaultHandler"
  unfolding IDT_def Let_def fun_upd_def set_all_upt by simp

text \<open>
  C34. \<open>kernel_main\<close> loads the interrupt table before the segments, so the gates keep the code selector the boot loader
  left: after both steps an interrupt of any vector that has a handler, be it an exception or a device's, is delivered
  exactly when that selector was 0x08, the one the kernel's own table uses; otherwise the first interrupt is a fault that
  cannot be delivered either. The double fault runs on its own stack, with the five cells of the frame and the error code
  on it.
\<close>

theorem gates_keep_boot_selector:
  assumes "gdt_ok G used" "addresses_ok ops" "canonical stack" "canonical (stack + STACK_SIZE)" "canonical kstack" "canonical (kstack + STACK_SIZE)"
    and "cpl c = 0" "16 dvd stack"
  shows "\<exists>c'. gdt_init G ops stack kstack (init_idt c) = Ok c' \<and>
    (\<forall>ev v. IDT v \<noteq> None \<longrightarrow> ((\<exists>k. enter_gate G ev v c' = Ok (the (IDT v), k)) \<longleftrightarrow> seg_cs c = 0x08)) \<and>
    (\<forall>err h k. enter_gate G (Exception err) 8 c' = Ok (h, k) \<longrightarrow>
      h = DoubleFaultHandler \<and> rsp k = of_nat (stack + STACK_SIZE) - 48 \<and> cells k (rsp k) = err)"
proof -
  have "cpl (init_idt c) = 0" using assms(7) by (simp add: init_idt_def cpl_def)
  from gdt_init_ok [OF assms(1-6) this] obtain g t where
    g: "gdt_init G ops stack kstack (init_idt c) = Ok (kernel_segments g (init_idt c))" "descriptor_at G g = kernel_descriptors t"
       "interrupt_stack_table t ! 0 = stack + STACK_SIZE" by blast
  let ?c = "kernel_segments g (init_idt c)"
  have "16 dvd stack + STACK_SIZE" using assms(8) by (simp add: STACK_SIZE_def)
  then have top: "of_nat (stack + STACK_SIZE) AND NOT 15 = (of_nat (stack + STACK_SIZE) :: u64)" by (rule aligned_stack)
  have c: "descriptor_at G (gdtr ?c) = kernel_descriptors t" "cpl ?c = 0" "task_register ?c = 0x28" "rpl (seg_cs c) = 0" "idtr ?c = idt_gates (seg_cs c)"
    using g(2) assms(7) by (simp_all add: kernel_segments_def init_idt_def cpl_def rpl_def)
  note gate = same_level_gate [OF c]
  have "(\<exists>k. enter_gate G ev v ?c = Ok (the (IDT v), k)) \<longleftrightarrow> seg_cs c = 0x08" if handled: "IDT v \<noteq> None" for ev v
  proof -
    obtain h where h: "IDT v = Some h" using handled by blast
    show ?thesis unfolding gate [OF h] by (simp add: h Let_def)
  qed
  moreover have "h = DoubleFaultHandler \<and> rsp k = of_nat (stack + STACK_SIZE) - 48 \<and> cells k (rsp k) = err"
    if "enter_gate G (Exception err) 8 ?c = Ok (h, k)" for err h k
    using that top unfolding gate [OF IDT_double_fault] g(3)
    by (auto simp: Let_def push_error_code_def error_code_vectors_def push_def split: if_splits)
  ultimately show ?thesis using g(1) by blast
qed

theorem gates_keep_boot_selector_witness:
  "\<exists>c c'. gdt_init list_gdt (demo_mapper :: (_, boot_frames) mapper) 0x10000 0x20000 (init_idt (boot_cpu 8)) = Ok c \<and> (\<exists>k. enter_gate list_gdt Device 48 c = Ok (TimerHandler, k)) \<and>
     gdt_init list_gdt (demo_mapper :: (_, boot_frames) mapper) 0x10000 0x20000 (init_idt (boot_cpu 0x38)) = Ok c' \<and> (\<nexists>k. enter_gate list_gdt Device 48 c' = Ok (TimerHandler, k))"
proof -
  have can: "canonical 0x10000" "canonical (0x10000 + STACK_SIZE)" "canonical 0x20000" "canonical (0x20000 + STACK_SIZE)"
    by (simp_all add: canonical_low STACK_SIZE_def)
  have cs: "cpl (boot_cpu 8) = 0" "cpl (boot_cpu 0x38) = 0" "16 dvd (0x10000 :: nat)" "seg_cs (boot_cpu 8) = 8" "seg_cs (boot_cpu 0x38) = 0x38"
    by (simp_all add: cpl_def rpl_def boot_cpu_def)
  obtain c where "gdt_init list_gdt (demo_mapper :: (_, boot_frames) mapper) 0x10000 0x20000 (init_idt (boot_cpu 8)) = Ok c" "\<exists>k. enter_gate list_gdt Device 48 c = Ok (TimerHandler, k)"
    using gates_keep_boot_selector [OF list_gdt_ok demo_addresses_ok can cs(1,3)] unfolding cs(4) by (metis IDT_timer option.sel option.simps(3))
  moreover obtain c' where "gdt_init list_gdt (demo_mapper :: (_, boot_frames) mapper) 0x10000 0x20000 (init_idt (boot_cpu 0x38)) = Ok c'" and
    refused: "(\<exists>k. enter_gate list_gdt Device 48 c' = Ok (the (IDT 48), k)) \<longleftrightarrow> 0x38 = (0x08 :: u16)"
    using gates_keep_boot_selector [OF list_gdt_ok demo_addresses_ok can cs(2,3)] unfolding cs(5) by (metis IDT_timer option.simps(3))
  moreover have "\<nexists>k. enter_gate list_gdt Device 48 c' = Ok (TimerHandler, k)" using refused by (simp add: IDT_timer)
  ultimately show ?thesis by blast
qed

end
