(* ===== verification/Screen.thy ===== *)
theory Screen
  imports Console
begin

text \<open>
  The size of the screen: no output operation that returns changes the resolution of the framebuffer behind the
  terminal, nor makes it go away. The boot sequence computes the place of the logo from it after it has printed.
\<close>

lemma rfold_keeps:
  assumes "\<And>x s s'. f x s = Ok s' \<Longrightarrow> w s' = w s" and "rfold f xs s = Ok s'"
  shows "w s' = w s"
  using assms(2) by (induction xs arbitrary: s) (auto simp: rbind_Ok_iff dest: assms(1))

lemma put_pixel_size: "put_pixel fb x y c = Ok fb' \<Longrightarrow> resolution fb' = resolution fb"
  by (cases c; cases "fb_format fb") (auto simp: put_pixel_def resolution_def rbind_Ok_iff split: if_splits)

lemma draw_bitmap_size:
  assumes "draw_bitmap fb bitmap w h x y = Ok fb'"
  shows "resolution fb' = resolution fb"
proof (cases "min (fb_width fb - x) w = 0 \<or> min (fb_height fb - y) h = 0")
  case True
  then show ?thesis using assms by (simp only: draw_bitmap_def Let_def if_True res.inject)
next
  case False
  have pixel: "resolution b' = resolution b"
    if "rbind (uadd base col) (\<lambda>i. if i < length bitmap then (case bitmap ! i of (r, g, bl, a) \<Rightarrow>
          if a \<noteq> 0 then rbind (uadd x col) (\<lambda>px. rbind (uadd y row) (\<lambda>py. put_pixel b px py (r, g, bl))) else Ok b) else Ok b) = Ok b'"
    for base col row b b'
    using that by (auto simp: rbind_Ok_iff split_beta split: if_splits dest: put_pixel_size)
  have "resolution b' = resolution b"
    if "rbind (umul row w) (\<lambda>base. rfold (\<lambda>col b. rbind (uadd base col) (\<lambda>i. if i < length bitmap then (case bitmap ! i of (r, g, bl, a) \<Rightarrow>
          if a \<noteq> 0 then rbind (uadd x col) (\<lambda>px. rbind (uadd y row) (\<lambda>py. put_pixel b px py (r, g, bl))) else Ok b) else Ok b)) cols b) = Ok b'"
    for row cols b b'
  proof -
    from that obtain base where "rfold (\<lambda>col b. rbind (uadd base col) (\<lambda>i. if i < length bitmap then (case bitmap ! i of (r, g, bl, a) \<Rightarrow>
          if a \<noteq> 0 then rbind (uadd x col) (\<lambda>px. rbind (uadd y row) (\<lambda>py. put_pixel b px py (r, g, bl))) else Ok b) else Ok b)) cols b = Ok b'"
      unfolding rbind_Ok_iff by blast
    then show ?thesis by (rule rfold_keeps [rotated]) (rule pixel)
  qed
  then show ?thesis using assms unfolding draw_bitmap_def Let_def if_not_P [OF False] by (rule rfold_keeps)
qed

lemma draw_char_size:
  "draw_char_psf D fh fb x y c color = Ok (fh', fb') \<Longrightarrow> map_option resolution fb' = map_option resolution fb"
  by (auto simp: draw_char_psf_def Let_def rbind_Ok_iff split: prod.splits option.splits if_splits) (erule draw_bitmap_size)

definition screen_size :: "tty \<Rightarrow> (usize \<times> usize) option" where
  "screen_size t = map_option resolution (t_fb t)"

lemma tty_draw_size: "tty_draw D t x y c color = Ok t' \<Longrightarrow> screen_size t' = screen_size t"
  by (auto simp: tty_draw_def rbind_Ok_iff screen_size_def dest: draw_char_size)

lemma clear_screen_size: "clear_screen fb c = Ok fb' \<Longrightarrow> resolution fb' = resolution fb"
  by (cases "fb_format fb") (auto simp: clear_screen_def resolution_def rbind_Ok_iff)

lemma tty_background_size: "tty_background t = Ok t' \<Longrightarrow> screen_size t' = screen_size t"
  by (auto simp: tty_background_def screen_size_def rbind_Ok_iff split: option.splits dest: clear_screen_size)

lemma redraw_cell_size: "redraw_cell D P y x t = Ok t' \<Longrightarrow> screen_size t' = screen_size t"
  by (auto simp: redraw_cell_def rbind_Ok_iff split: if_splits dest: tty_draw_size)

lemma scroll_up_size:
  assumes "scroll_up D t = Ok t'"
  shows "screen_size t' = screen_size t"
proof -
  obtain b t1 where "tty_background (t\<lparr>t_buf := b\<rparr>) = Ok t1"
    and draw: "rfold (\<lambda>y. rfold (\<lambda>x. redraw_cell D (\<lambda>c. cell_ch c \<noteq> 0) y x) [0..<t_width t1]) [0..<t_height t1] t1 = Ok t'"
    using assms by (auto simp: scroll_up_def rbind_Ok_iff)
  then have "screen_size t1 = screen_size t" by (auto simp: screen_size_def dest: tty_background_size)
  moreover have "screen_size t' = screen_size t1" using draw
    by (rule rfold_keeps [rotated]) (erule rfold_keeps [rotated], erule redraw_cell_size)
  ultimately show ?thesis by simp
qed

lemma redraw_row_size: "redraw_row D r t = Ok t' \<Longrightarrow> screen_size t' = screen_size t"
  unfolding redraw_row_def by (erule rfold_keeps [rotated]) (auto simp: rbind_Ok_iff dest: tty_draw_size)

lemma delete_at_size: "delete_at t r e = Ok t' \<Longrightarrow> screen_size t' = screen_size t"
  by (auto simp: delete_at_def rbind_Ok_iff screen_size_def)

lemma tty_delete_size:
  assumes "tty_delete D t b = Ok t'"
  shows "screen_size t' = screen_size t"
proof (cases "t_cy t \<ge> t_height t \<or> b \<and> t_cx t = 0 \<or> \<not> b \<and> t_cx t \<ge> t_width t")
  case True
  then have "t' = t" using assms by (cases b) (auto simp: tty_delete_def rbind_Ok_iff split: if_splits)
  then show ?thesis by simp
next
  case False
  define t0 where "t0 = (if b then t\<lparr>t_cx := t_cx t - 1\<rparr> else t)"
  obtain r e where "rbind (delete_at t0 r e) (\<lambda>t1. rbind (tty_background t1) (redraw_row D r)) = Ok t'"
    using assms False by (cases b) (auto simp: tty_delete_def rbind_Ok_iff [of "umul _ _"] rbind_Ok_iff [of "uadd _ _"] t0_def)
  then obtain t1 t2 where "delete_at t0 r e = Ok t1" "tty_background t1 = Ok t2" "redraw_row D r t2 = Ok t'" unfolding rbind_Ok_iff by blast
  then have "screen_size t' = screen_size t0" using delete_at_size tty_background_size redraw_row_size by metis
  then show ?thesis by (simp add: t0_def screen_size_def)
qed

lemma set_char_size: "set_char D t x y c color = Ok t' \<Longrightarrow> screen_size t' = screen_size t"
  by (auto simp: set_char_def rbind_Ok_iff split: if_splits dest!: tty_draw_size) (simp add: screen_size_def)

lemma put_char_size:
  assumes "put_char D t c = Ok t'"
  shows "screen_size t' = screen_size t"
proof (cases "c \<in> {10, 13, 8, 127}")
  case True
  then show ?thesis using assms tty_delete_size [of D t _ t']
    by (auto simp: put_char_def rbind_Ok_iff screen_size_def)
next
  case False
  then obtain t1 x where "set_char D t (t_cx t) (t_cy t) c (t_fg t) = Ok t1" "t' = t1\<lparr>t_cx := x\<rparr>"
    using assms by (auto simp: put_char_def rbind_Ok_iff)
  then show ?thesis by (simp add: set_char_size [symmetric]) (simp add: screen_size_def)
qed

lemma wrap_cursor_size:
  assumes "wrap_cursor D t = Ok t'"
  shows "screen_size t' = screen_size t"
proof -
  obtain t1 where wrapped: "(if t_cx t \<ge> t_width t then rbind (uadd (t_cy t) 1) (\<lambda>y. Ok (t\<lparr>t_cx := 0, t_cy := y\<rparr>)) else Ok t) = Ok t1"
    and t': "(if t_cy t1 \<ge> t_height t1 then rbind (scroll_up D t1) (\<lambda>t2. rbind (usub (t_height t2) 1) (\<lambda>y. Ok (t2\<lparr>t_cy := y\<rparr>))) else Ok t1) = Ok t'"
    using assms unfolding wrap_cursor_def rbind_Ok_iff [of "If _ _ _"] by blast
  from wrapped have t1: "screen_size t1 = screen_size t" by (auto simp: rbind_Ok_iff screen_size_def split: if_splits)
  show ?thesis
  proof (cases "t_cy t1 \<ge> t_height t1")
    case True
    then obtain t2 y where "scroll_up D t1 = Ok t2" "t' = t2\<lparr>t_cy := y\<rparr>" using t' by (auto simp: rbind_Ok_iff)
    then show ?thesis using t1 scroll_up_size [of D t1 t2] by (simp add: screen_size_def)
  qed (use t1 t' in simp)
qed

lemma write_str_size: "write_str D t cs = Ok t' \<Longrightarrow> screen_size t' = screen_size t"
proof (induction D t cs rule: write_str.induct)
  case (2 D t c cs)
  obtain o' rest where e: "escape c cs = (o', rest)" by (cases "escape c cs")
  show ?case
  proof (cases o')
    case (Some ds)
    with 2(2) [OF e [symmetric] Some] 2(3) e show ?thesis by (simp add: screen_size_def)
  next
    case None
    with 2(3) e obtain t1 t2 where t: "put_char D t c = Ok t1" "wrap_cursor D t1 = Ok t2" "write_str D t2 rest = Ok t'"
      by (auto simp: rbind_Ok_iff)
    with 2(1) [OF e [symmetric] None t(1,2)] put_char_size [OF t(1)] wrap_cursor_size [OF t(2)] show ?thesis by simp
  qed
qed simp

text \<open>The size of the screen behind a console.\<close>

definition console_size :: "console \<Rightarrow> (usize \<times> usize) option" where
  "console_size c = Option.bind (con_tty c) screen_size"

lemma tty_write_fmt_size: "tty_write_fmt D pieces t = Ok t' \<Longrightarrow> screen_size t' = screen_size t"
  unfolding tty_write_fmt_def by (erule rfold_keeps [rotated]) (rule write_str_size)

lemma print_size:
  "print D pieces c = Ok c' \<Longrightarrow> console_size c' = console_size c"
  "all_print D pieces c = Ok c' \<Longrightarrow> console_size c' = console_size c"
  by (auto simp: print_def all_print_def Let_def serial_print_def console_size_def rbind_Ok_iff split: option.splits intro: tty_write_fmt_size)

lemma log_size:
  "info D args c = Ok c' \<Longrightarrow> console_size c' = console_size c"
  "warning D loc args c = Ok c' \<Longrightarrow> console_size c' = console_size c"
  "error D loc args c = Ok c' \<Longrightarrow> console_size c' = console_size c"
  unfolding info_def warning_def error_def all_println_def by (erule print_size)+

end
