(* ===== verification/Kernel.thy ===== *)
theory Kernel
  imports Acpi Boot Usermode Screen
begin

text \<open>
  The boot sequence (\<open>kernel_main\<close> of \<open>kernel/src/main.rs\<close>, and \<open>memory::init\<close> of \<open>kernel/src/memory.rs\<close>), composed of the
  components in the order of the source: the part before interrupts are enabled, the moment at which they are,
  and the rest up to user mode or the shell.

  The state is what the statics and the local variables of the sequence hold. The boot loader's information,
  the tables of ACPI (the crate \<open>acpi\<close>), what \<open>cpuid\<close> reports (the crate \<open>raw_cpuid\<close>), the files included in the
  kernel, and the crates of the components are the environment.
\<close>

unbundle bit_operations_syntax

section \<open>State and environment\<close>

record ('m, 'f, 'hw, 'g, 'q, 'w) kernel =
  k_con :: console
  k_heap :: bump
  k_vm :: "('m, 'f) vm"
  k_mem :: "addr \<Rightarrow> u8"
  k_ecam :: usize
  k_cpu :: "'g cpu"
  k_irq :: "('hw, 'q, 'w) irq_state"
  k_io_apic :: "io_apic option"
  k_fs :: "u8 list option"

record boot_info =
  bi_framebuffer :: "framebuffer option"
  physical_memory_offset :: "nat option"
  memory_regions :: "memory_region list"
  rsdp_addr :: "nat option"

datatype interrupt_model = ApicModel addr "(u8 \<times> u32 \<times> u32) list" | UnknownModel

record ('m, 'hw, 'g, 'q) kernel_env =
  ke_font :: "u8 list"
  ke_font_height :: usize
  ke_loc :: "nat \<Rightarrow> ustr"
  ke_art :: ustr
  ke_version :: ustr
  ke_ops :: "('m, boot_frames) mapper"
  ke_frame_of :: "addr \<Rightarrow> addr res"
  ke_level_4_frame :: addr
  ke_page_table :: "addr \<Rightarrow> addr \<Rightarrow> 'm"
  ke_decode :: "u8 list \<Rightarrow> decoded option"
  ke_logo :: "u8 list"
  ke_acpi :: "('m, boot_frames) acpi_env"
  ke_tables :: "addr \<Rightarrow> bool"
  ke_platform :: "interrupt_model option"
  ke_frequency :: "u32 option"
  ke_machine :: "'hw machine"
  ke_gdt :: "'g gdt_ops"
  ke_stack :: addr
  ke_kstack :: addr
  ke_queue :: "('q, u8) array_queue"
  ke_nic :: rtl8139
  ke_rtl :: "'hw rtl_env"
  ke_writable :: "'m \<Rightarrow> addr \<Rightarrow> bool"
  ke_archive :: "u8 list"
  ke_parse :: "u8 list \<Rightarrow> elf option"

definition logged :: "(console \<Rightarrow> console res) \<Rightarrow> ('m, 'f, 'hw, 'g, 'q, 'w) kernel \<Rightarrow> ('m, 'f, 'hw, 'g, 'q, 'w) kernel res" where
  "logged f s = rbind (f (k_con s)) (\<lambda>c. Ok (s\<lparr>k_con := c\<rparr>))"

definition say :: "('m, 'hw, 'g, 'q) kernel_env \<Rightarrow> string \<Rightarrow> ('m, 'f, 'hw, 'g, 'q, 'w) kernel \<Rightarrow> ('m, 'f, 'hw, 'g, 'q, 'w) kernel res" where
  "say E msg = logged (info (ke_font E) [lit msg])"

section \<open>The screen\<close>

text \<open>\<open>split(".")\<close>: the piece before the first dot always exists, the second one need not.\<close>

definition version_major :: "ustr \<Rightarrow> ustr" where
  "version_major v = takeWhile (\<lambda>c. c \<noteq> 46) v"

definition version_minor :: "ustr \<Rightarrow> ustr" where
  "version_minor v = (if 46 \<in> set v then takeWhile (\<lambda>c. c \<noteq> 46) (tl (dropWhile (\<lambda>c. c \<noteq> 46) v)) else [63])"

definition start_screen :: "('m, 'hw, 'g, 'q) kernel_env \<Rightarrow> boot_info \<Rightarrow> ('m, 'f, 'hw, 'g, 'q, 'w) kernel \<Rightarrow> ('m, 'f, 'hw, 'g, 'q, 'w) kernel res" where
  "start_screen E bi s =
     (let c = serial_print [27 # lit ''[2J'' @ 27 # lit ''[1;1H''] (k_con s)
      in rbind (expect ''No framebuffer found!'' (bi_framebuffer bi)) (\<lambda>fb.
         rbind (clear_tty (tty_new (Some fb) (ke_font_height E) TTY_BUFFER)) (\<lambda>t.
         rbind (println (ke_font E) [27 # lit ''[0m'', ke_art E] (c\<lparr>con_tty := Some t\<rparr>)) (\<lambda>c.
         rbind (info (ke_font E) [lit ''Running Lemoncake version '', version_major (ke_version E), lit ''m'', version_minor (ke_version E),
                  lit ''. (c) 2025, SniverDaBest''] c) (\<lambda>c.
         rbind (warning (ke_font E) (ke_loc E 104) [lit ''This is a hobby project. Don't expect it to be stable, secure, or even work.''] c) (\<lambda>c.
           Ok (s\<lparr>k_con := c\<rparr>)))))))"

section \<open>Memory\<close>

text \<open>\<open>memory::init\<close>: the page table that \<open>Cr3\<close> names, seen through the offset.\<close>

definition memory_init :: "('m, 'hw, 'g, 'q) kernel_env \<Rightarrow> nat \<Rightarrow> 'm res" where
  "memory_init E pmo =
     rbind (virt_new (ke_ops E) pmo) (\<lambda>offset.
     rbind (virt_add (ke_ops E) offset (ke_level_4_frame E)) (\<lambda>virt. Ok (ke_page_table E virt offset)))"

definition upper_hex :: "nat \<Rightarrow> ustr" where
  "upper_hex n = 48 # 120 # map (\<lambda>c. if 97 \<le> c then c - 32 else c) (hexadecimal n)"

definition start_memory :: "('m, 'hw, 'g, 'q) kernel_env \<Rightarrow> boot_info \<Rightarrow> ('m, boot_frames, 'hw, 'g, 'q, 'w) kernel \<Rightarrow>
    (nat \<times> ('m, boot_frames, 'hw, 'g, 'q, 'w) kernel) res" where
  "start_memory E bi s =
     rbind (expect ''No physical memory offset found!'' (physical_memory_offset bi)) (\<lambda>pmo.
     rbind (logged (info (ke_font E) [lit ''Physical memory offset: '', upper_hex pmo]) s) (\<lambda>s.
     rbind (say E ''Getting mapping & frame allocator...'' s) (\<lambda>s.
     rbind (memory_init E pmo) (\<lambda>m.
     let f = boot_frames_init (memory_regions bi)
     in rbind (say E ''Initializing heap...'' s) (\<lambda>s.
        rbind (init_heap (ke_ops E) (allocate_frame (ke_frame_of E)) (k_heap s) m f) (\<lambda>(r, heap, m, f).
          case r of
            Inl e \<Rightarrow> Panic (ExpectFailed ''Unable to initialize heap!'')
          | Inr _ \<Rightarrow> Ok (pmo, s\<lparr>k_heap := heap, k_vm := (k_vm s)\<lparr>vm_mapper := m, vm_frames := f\<rparr>\<rparr>)))))))"

section \<open>The logo\<close>

definition on_framebuffer :: "(framebuffer option \<Rightarrow> framebuffer option res) \<Rightarrow> console \<Rightarrow> console res" where
  "on_framebuffer f = on_tty (\<lambda>t. rbind (f (t_fb t)) (\<lambda>fb. Ok (t\<lparr>t_fb := fb\<rparr>)))"

definition show_logo :: "('m, 'hw, 'g, 'q) kernel_env \<Rightarrow> ('m, 'f, 'hw, 'g, 'q, 'w) kernel \<Rightarrow> ('m, 'f, 'hw, 'g, 'q, 'w) kernel res" where
  "show_logo E s =
     (case Option.bind (con_tty (k_con s)) t_fb of
        None \<Rightarrow> Panic (ExplicitPanic ''Couldn't get resolution!'')
      | Some fb \<Rightarrow>
          rbind (logged (info (ke_font E) [lit ''Resolution: '', decimal (fb_width fb), lit ''x'', decimal (fb_height fb)]) s) (\<lambda>s.
          rbind (say E ''Displaying logo...'' s) (\<lambda>s.
          rbind (usub (fb_width fb) 64) (\<lambda>x. logged (on_framebuffer (draw_png (ke_decode E) (ke_logo E) x 0)) s))))"

section \<open>The platform\<close>

text \<open>
  The tables are found from the address of the RSDP; \<open>init_pcie_from_acpi\<close> works on the mapper, the frames, the
  console and \<open>ECAM_BASE\<close> of the kernel.
\<close>

definition start_pcie :: "('m, 'hw, 'g, 'q) kernel_env \<Rightarrow> nat \<Rightarrow> boot_info \<Rightarrow> ('m, boot_frames, 'hw, 'g, 'q, 'w) kernel \<Rightarrow>
    ('m, boot_frames, 'hw, 'g, 'q, 'w) kernel res" where
  "start_pcie E pmo bi s =
     rbind (say E ''Getting ACPI information...'' s) (\<lambda>s.
     rbind (expect ''Unable to get the RSDP address!'' (rsdp_addr bi)) (\<lambda>rsdp.
     if \<not> ke_tables E rsdp then Panic (ExpectFailed ''Unable to get ACPI tables from the RSDP!'')
     else rbind (say E ''Setting up PCIe (MCFG)...'' s) (\<lambda>s.
       let a = \<lparr>ac_map = vm_mapper (k_vm s), ac_frames = vm_frames (k_vm s), ac_con = k_con s, ac_ecam = k_ecam s\<rparr>
       in rbind (init_pcie_from_acpi ((ke_acpi E)\<lparr>ac_pmo := pmo\<rparr>) a) (\<lambda>(r, a).
          let s = s\<lparr>k_vm := (k_vm s)\<lparr>vm_mapper := ac_map a, vm_frames := ac_frames a\<rparr>, k_con := ac_con a, k_ecam := ac_ecam a\<rparr>
          in case r of
               Inl e \<Rightarrow> logged (warning (ke_font E) (ke_loc E 147) [lit ''PCIe ECAM init failed. Falling back to legacy CF8/CFC. Error: '', lit e]) s
             | Inr _ \<Rightarrow> say E ''PCIe ECAM initialized using MMIO ECAM.'' s))))"

definition scan_devices :: "('m, 'hw, 'g, 'q) kernel_env \<Rightarrow> ('m, 'f, 'hw, 'g, 'q, 'w) kernel \<Rightarrow>
    (pci_device list \<times> ('m, 'f, 'hw, 'g, 'q, 'w) kernel) res" where
  "scan_devices E s =
     rbind (say E ''Scanning PCIe bus...'' s) (\<lambda>s.
     rbind (scan_pci_bus (ke_machine E) (k_ecam s) (irq_hw (k_irq s))) (\<lambda>(devs, hw).
       Ok (devs, s\<lparr>k_irq := (k_irq s)\<lparr>irq_hw := hw\<rparr>\<rparr>)))"

definition load_tables :: "('m, 'hw, 'g, 'q) kernel_env \<Rightarrow> ('m, 'f, 'hw, 'g, 'q, 'w) kernel \<Rightarrow> ('m, 'f, 'hw, 'g, 'q, 'w) kernel res" where
  "load_tables E s =
     rbind (say E ''Initializing IDT & GDT...'' s) (\<lambda>s.
     rbind (gdt_init (ke_gdt E) (ke_ops E) (ke_stack E) (ke_kstack E) (init_idt (k_cpu s))) (\<lambda>c. Ok (s\<lparr>k_cpu := c\<rparr>)))"

text \<open>\<open>OnceCell::get_or_init\<close>: a cell that holds a value keeps it.\<close>

definition get_or_init :: "'a option \<Rightarrow> 'a \<Rightarrow> 'a" where
  "get_or_init cell x = (case cell of Some y \<Rightarrow> y | None \<Rightarrow> x)"

definition start_io_apic :: "('m, 'hw, 'g, 'q) kernel_env \<Rightarrow> nat \<Rightarrow> u8 \<times> u32 \<times> u32 \<Rightarrow> ('m, 'f, 'hw, 'g, 'q, 'w) kernel \<Rightarrow>
    ('m, 'f, 'hw, 'g, 'q, 'w) kernel res" where
  "start_io_apic E pmo ioapic s = (case ioapic of (n, address, gsi) \<Rightarrow>
     rbind (io_init (phys_new (ke_acpi E)) (virt_new (ke_ops E)) (get_or_init (k_io_apic s)) pmo n address gsi) (\<lambda>ioa.
     rbind (route_inputs (ke_machine E) (virt_add (ke_ops E)) ioa (irq_hw (k_irq s))) (\<lambda>hw.
       Ok (s\<lparr>k_io_apic := Some ioa, k_irq := (k_irq s)\<lparr>irq_hw := hw\<rparr>\<rparr>))))"

definition start_apic :: "('m, 'hw, 'g, 'q) kernel_env \<Rightarrow> nat \<Rightarrow> ('m, 'f, 'hw, 'g, 'q, 'w) kernel \<Rightarrow> ('m, 'f, 'hw, 'g, 'q, 'w) kernel res" where
  "start_apic E pmo s =
     rbind (expect ''Unable to get platform info!'' (ke_platform E)) (\<lambda>model.
     rbind (say E ''Setting up PICS/APIC'' s) (\<lambda>s.
       case model of
         UnknownModel \<Rightarrow> Panic (ExplicitPanic ''The legacy PICS are not supported!'')
       | ApicModel address io_apics \<Rightarrow>
           rbind (phys_new (ke_acpi E) address) (\<lambda>p.
           rbind (la_init (ke_machine E) (virt_new (ke_ops E)) (get_or_init (lapic_cell (k_irq s))) pmo p (irq_hw (k_irq s))) (\<lambda>(lapic, hw).
           rbind (timer_setup (ke_machine E) lapic (case ke_frequency E of Some freq \<Rightarrow> freq | None \<Rightarrow> 1000000) hw) (\<lambda>hw.
             rfold (start_io_apic E pmo) io_apics (s\<lparr>k_irq := (k_irq s)\<lparr>lapic_cell := Some lapic, irq_hw := hw\<rparr>\<rparr>))))))"

text \<open>Everything up to the instruction that enables interrupts, with the devices that the scan found.\<close>

definition before_interrupts :: "('m, 'hw, 'g, 'q) kernel_env \<Rightarrow> boot_info \<Rightarrow> ('m, boot_frames, 'hw, 'g, 'q, 'w) kernel \<Rightarrow>
    (nat \<times> pci_device list \<times> ('m, boot_frames, 'hw, 'g, 'q, 'w) kernel) res" where
  "before_interrupts E bi s =
     rbind (start_screen E bi s) (\<lambda>s.
     rbind (start_memory E bi s) (\<lambda>(pmo, s).
     rbind (show_logo E s) (\<lambda>s.
     rbind (start_pcie E pmo bi s) (\<lambda>s.
     rbind (scan_devices E s) (\<lambda>(devs, s).
     rbind (load_tables E s) (\<lambda>s.
     rbind (start_apic E pmo s) (\<lambda>s.
     rbind (say E ''Enabling interrupts...'' s) (\<lambda>s. Ok (pmo, devs, s)))))))))"

section \<open>Interrupts are on\<close>

definition enable_interrupts :: "'g cpu \<Rightarrow> 'g cpu" where
  "enable_interrupts c = c\<lparr>rflags := rflags c OR 0x200\<rparr>"

text \<open>
  From here on interrupts may arrive between any two instructions; \<open>early\<close> are the vectors of those that come
  before the queue of scancodes exists.
\<close>

definition start_queue :: "('m, 'hw, 'g, 'q) kernel_env \<Rightarrow> nat list \<Rightarrow> ('m, 'f, 'hw, 'g, 'q, 'w) kernel \<Rightarrow> ('m, 'f, 'hw, 'g, 'q, 'w) kernel res" where
  "start_queue E early s =
     (let s = s\<lparr>k_cpu := enable_interrupts (k_cpu s)\<rparr>
      in rbind (rfold (deliver (ke_machine E) (ke_queue E)) early (k_irq s)) (\<lambda>irq.
         rbind (say E ''Initializing scancode queue...'' (s\<lparr>k_irq := irq\<rparr>)) (\<lambda>s.
         rbind (scancode_stream_new (ke_queue E) (irq_kb (k_irq s))) (\<lambda>kb.
           Ok (s\<lparr>k_irq := (k_irq s)\<lparr>irq_kb := kb\<rparr>\<rparr>)))))"

definition start_network :: "('m, 'hw, 'g, 'q) kernel_env \<Rightarrow> nat \<Rightarrow> pci_device list \<Rightarrow> ('m, 'f, 'hw, 'g, 'q, 'w) kernel \<Rightarrow>
    ('m, 'f, 'hw, 'g, 'q, 'w) kernel res option" where
  "start_network E pmo devs s =
     (case say E ''Initializing network device(s)...'' s of
        Panic e \<Rightarrow> Some (Panic e)
      | Ok s \<Rightarrow>
          (case init_net_devices ((ke_rtl E)\<lparr>nic_pmo := pmo\<rparr>) (k_ecam s) devs
                  \<lparr>nic_self = ke_nic E, nic_mem = k_mem s, nic_con = k_con s, nic_hw = irq_hw (k_irq s)\<rparr> of
             None \<Rightarrow> None
           | Some (Panic e) \<Rightarrow> Some (Panic e)
           | Some (Ok (_, n)) \<Rightarrow> Some (Ok (s\<lparr>k_mem := nic_mem n, k_con := nic_con n, k_irq := (k_irq s)\<lparr>irq_hw := nic_hw n\<rparr>\<rparr>))))"

definition start_program :: "('m, 'hw, 'g, 'q) kernel_env \<Rightarrow> ('m, boot_frames, 'hw, 'g, 'q, 'w) kernel \<Rightarrow>
    (boot_end \<times> ('m, boot_frames, 'hw, 'g, 'q, 'w) kernel) res" where
  "start_program E s =
     rbind (say E ''Initializing ramdisk...'' s) (\<lambda>s.
     rbind (init_ramdisk (ke_ops E) (allocate_frame (ke_frame_of E)) (ke_writable E) 50 (ke_archive E) (vm_mapper (k_vm s)) (vm_frames (k_vm s)) (k_mem s))
       (\<lambda>(fs, mem, m, f).
     let s = s\<lparr>k_fs := fs, k_mem := mem, k_vm := (k_vm s)\<lparr>vm_mapper := m, vm_frames := f\<rparr>\<rparr>
     in rbind (say E ''Getting init program...'' s) (\<lambda>s.
        rbind (find_init (ke_font E) (ke_loc E) (k_fs s) (k_con s)) (\<lambda>(i, c).
        rbind (start_first (ke_font E) (ke_ops E) (allocate_frame (ke_frame_of E)) (ke_parse E) i (k_vm s) (k_mem s) c) (\<lambda>(r, vm, mem, c).
          Ok (r, s\<lparr>k_vm := vm, k_mem := mem, k_con := c\<rparr>))))))"

definition kernel_main :: "('m, 'hw, 'g, 'q) kernel_env \<Rightarrow> boot_info \<Rightarrow> nat list \<Rightarrow> ('m, boot_frames, 'hw, 'g, 'q, 'w) kernel \<Rightarrow>
    (boot_end \<times> ('m, boot_frames, 'hw, 'g, 'q, 'w) kernel) res option" where
  "kernel_main E bi early s =
     (case rbind (before_interrupts E bi s) (\<lambda>(pmo, devs, s). rbind (start_queue E early s) (\<lambda>s. Ok (pmo, devs, s))) of
        Panic e \<Rightarrow> Some (Panic e)
      | Ok (pmo, devs, s) \<Rightarrow>
          (case start_network E pmo devs s of
             None \<Rightarrow> None
           | Some r \<Rightarrow> Some (rbind r (start_program E))))"

section \<open>Printing\<close>

definition ready_console :: "usize \<times> usize \<Rightarrow> console \<Rightarrow> bool" where
  "ready_console wh c \<longleftrightarrow> console_ok c \<and> console_size c = Some wh"

lemma log_ready:
  assumes "length D \<le> isize_max" "ready_console wh c"
  shows "\<exists>c'. info D args c = Ok c' \<and> ready_console wh c'" "\<exists>c'. warning D loc args c = Ok c' \<and> ready_console wh c'"
    "\<exists>c'. println D args c = Ok c' \<and> ready_console wh c'"
  using assms log_ok [of D c] log_size print_ok [of D c] print_size(1) unfolding ready_console_def println_def by metis+

lemma logged_ready:
  assumes "length (ke_font E) \<le> isize_max" "ready_console wh (k_con s)"
  shows "\<exists>c. logged (info (ke_font E) args) s = Ok (s\<lparr>k_con := c\<rparr>) \<and> ready_console wh c"
    "\<exists>c. logged (warning (ke_font E) loc args) s = Ok (s\<lparr>k_con := c\<rparr>) \<and> ready_console wh c"
    "\<exists>c. say E msg s = Ok (s\<lparr>k_con := c\<rparr>) \<and> ready_console wh c"
proof -
  show "\<exists>c. logged (info (ke_font E) args) s = Ok (s\<lparr>k_con := c\<rparr>) \<and> ready_console wh c" for args
    using log_ready(1) [OF assms, of args] by (auto simp: logged_def)
  then show "\<exists>c. say E msg s = Ok (s\<lparr>k_con := c\<rparr>) \<and> ready_console wh c" by (simp add: say_def)
  show "\<exists>c. logged (warning (ke_font E) loc args) s = Ok (s\<lparr>k_con := c\<rparr>) \<and> ready_console wh c"
    using log_ready(2) [OF assms, of loc args] by (auto simp: logged_def)
qed

section \<open>A platform that fits\<close>

definition screen_fits :: "('m, 'hw, 'g, 'q) kernel_env \<Rightarrow> boot_info \<Rightarrow> framebuffer \<Rightarrow> bool" where
  "screen_fits E bi fb \<longleftrightarrow> length (ke_font E) \<le> isize_max \<and> ke_font_height E < 4294967296 \<and> bi_framebuffer bi = Some fb \<and> good_fb (Some fb) \<and>
     64 \<le> fb_width fb \<and> 8 \<le> fb_height fb \<and>
     (\<exists>d w h px. ke_decode E (ke_logo E) = Some d \<and> png_rgba d = Some True \<and> png_size d = Some (w, h) \<and> png_bytes d = Some px \<and> w * h < usize_bound)"

definition memory_fits :: "('m, 'hw, 'g, 'q) kernel_env \<Rightarrow> boot_info \<Rightarrow> nat \<Rightarrow> ('m \<Rightarrow> addr \<rightharpoonup> addr \<times> page_flag set) \<Rightarrow> ('m \<Rightarrow> addr \<Rightarrow> bool) \<Rightarrow> bool" where
  "memory_fits E bi pmo tr plain \<longleftrightarrow> physical_memory_offset bi = Some pmo \<and> canonical pmo \<and> canonical (pmo + ke_level_4_frame E) \<and>
     addresses_ok (ke_ops E) \<and> map_to_ok (ke_ops E) tr plain (boot_ready (ke_frame_of E)) boot_pool \<and>
     boot_ready (ke_frame_of E) (boot_frames_init (memory_regions bi)) \<and> 15360 \<le> length (boot_pool (boot_frames_init (memory_regions bi))) \<and>
     (\<forall>p \<in> set heap_pages. tr (ke_page_table E (pmo + ke_level_4_frame E) pmo) p = None \<and> plain (ke_page_table E (pmo + ke_level_4_frame E) pmo) p)"

text \<open>Firmware whose tables name the APICs but no PCIe window, so that the bus is scanned through the ports.\<close>

definition firmware_fits :: "('m, 'hw, 'g, 'q) kernel_env \<Rightarrow> boot_info \<Rightarrow> nat \<Rightarrow> addr \<Rightarrow> (u8 \<times> u32 \<times> u32) list \<Rightarrow> bool" where
  "firmware_fits E bi pmo la ios \<longleftrightarrow> (\<exists>r. rsdp_addr bi = Some r \<and> ke_tables E r) \<and> mcfg_table (ke_acpi E) = None \<and> phys_ok (ke_acpi E) \<and>
     ke_platform E = Some (ApicModel la ios) \<and> la < 2 ^ 52 \<and> canonical (la + pmo) \<and> la + pmo + 4096 < usize_bound \<and>
     (\<forall>(n, a, g) \<in> set ios. unat a + pmo + 16 < usize_bound \<and> canonical (unat a + pmo) \<and> canonical (unat a + pmo + 16))"

definition tables_fit :: "('m, 'hw, 'g, 'q) kernel_env \<Rightarrow> ('g \<Rightarrow> nat) \<Rightarrow> bool" where
  "tables_fit E used \<longleftrightarrow> gdt_ok (ke_gdt E) used \<and> canonical (ke_stack E) \<and> canonical (ke_stack E + STACK_SIZE) \<and>
     canonical (ke_kstack E) \<and> canonical (ke_kstack E + STACK_SIZE)"

section \<open>Every step returns\<close>

lemma start_screen_ok:
  assumes "screen_fits E bi fb"
  shows "\<exists>c. start_screen E bi s = Ok (s\<lparr>k_con := c\<rparr>) \<and> ready_console (resolution fb) c"
proof -
  have p: "length (ke_font E) \<le> isize_max" "bi_framebuffer bi = Some fb" using assms by (simp_all add: screen_fits_def)
  let ?t = "tty_new (Some fb) (ke_font_height E) TTY_BUFFER"
  have ok: "tty_ok ?t" using assms by (auto simp: screen_fits_def tty_ok_def tty_new_def resolution_def TTY_BUFFER_def)
  then obtain t where t: "clear_tty ?t = Ok t" "tty_ok t" using clear_tty_ok by blast
  have "screen_size t = screen_size ?t" using t(1) tty_background_size [of ?t] by (auto simp: clear_tty_def rbind_Ok_iff screen_size_def)
  then have "screen_size t = Some (resolution fb)" by (simp add: screen_size_def tty_new_def split: prod.splits)
  with t(2) have "ready_console (resolution fb) ((serial_print m c)\<lparr>con_tty := Some t\<rparr>)" for m c
    by (simp add: ready_console_def console_ok_def console_size_def)
  note start = log_ready(3) [OF p(1) this]
  obtain c1 where c1: "println (ke_font E) [27 # lit ''[0m'', ke_art E] ((serial_print [27 # lit ''[2J'' @ 27 # lit ''[1;1H''] (k_con s))\<lparr>con_tty := Some t\<rparr>) = Ok c1"
    "ready_console (resolution fb) c1" using start by blast
  obtain c2 where c2: "info (ke_font E) [lit ''Running Lemoncake version '', version_major (ke_version E), lit ''m'', version_minor (ke_version E),
                  lit ''. (c) 2025, SniverDaBest''] c1 = Ok c2" "ready_console (resolution fb) c2" using log_ready(1) [OF p(1) c1(2)] by blast
  obtain c3 where "warning (ke_font E) (ke_loc E 104) [lit ''This is a hobby project. Don't expect it to be stable, secure, or even work.''] c2 = Ok c3"
    "ready_console (resolution fb) c3" using log_ready(2) [OF p(1) c2(2)] by blast
  then show ?thesis by (intro exI [of _ c3]) (simp add: start_screen_def p(2) t(1) c1(1) c2(1))
qed

lemma start_memory_ok:
  assumes "length (ke_font E) \<le> isize_max" "memory_fits E bi pmo tr plain" "ready_console wh (k_con s)" "k_heap s = bump_new"
  shows "\<exists>c m f. start_memory E bi s = Ok (pmo, s\<lparr>k_con := c, k_heap := kernel_bump, k_vm := (k_vm s)\<lparr>vm_mapper := m, vm_frames := f\<rparr>\<rparr>) \<and>
    ready_console wh c \<and> (\<forall>a. HEAP_START \<le> a \<longrightarrow> a < HEAP_START + HEAP_SIZE \<longrightarrow> tr m (a - a mod 4096) \<noteq> None)"
proof -
  note mf = assms(2) [unfolded memory_fits_def]
  obtain c1 where c1: "logged (info (ke_font E) [lit ''Physical memory offset: '', upper_hex pmo]) s = Ok (s\<lparr>k_con := c1\<rparr>)" "ready_console wh c1"
    using logged_ready(1) [OF assms(1,3)] by blast
  obtain c2 where c2: "say E ''Getting mapping & frame allocator...'' (s\<lparr>k_con := c1\<rparr>) = Ok (s\<lparr>k_con := c2\<rparr>)" "ready_console wh c2"
    using logged_ready(3) [OF assms(1), of wh "s\<lparr>k_con := c1\<rparr>" "''Getting mapping & frame allocator...''"] c1(2) by auto
  obtain c3 where c3: "say E ''Initializing heap...'' (s\<lparr>k_con := c2\<rparr>) = Ok (s\<lparr>k_con := c3\<rparr>)" "ready_console wh c3"
    using logged_ready(3) [OF assms(1), of wh "s\<lparr>k_con := c2\<rparr>" "''Initializing heap...''"] c2(2) by auto
  let ?m = "ke_page_table E (pmo + ke_level_4_frame E) pmo" and ?f = "boot_frames_init (memory_regions bi)"
  have m: "memory_init E pmo = Ok ?m" using mf by (simp add: memory_init_def addresses_ok_def)
  obtain m' f' where "init_heap (ke_ops E) (allocate_frame (ke_frame_of E)) bump_new ?m ?f = Ok (Inr (), kernel_bump, m', f')"
    "\<forall>a. HEAP_START \<le> a \<longrightarrow> a < HEAP_START + HEAP_SIZE \<longrightarrow> tr m' (a - a mod 4096) \<noteq> None"
    using init_heap_ok [of "ke_ops E" tr plain "ke_frame_of E" ?f ?m] mf by blast
  with c3(2) show ?thesis using mf by (simp add: start_memory_def c1(1) c2(1) c3(1) m assms(4)) blast
qed

lemma show_logo_ok:
  assumes "screen_fits E bi fb" "ready_console (resolution fb) (k_con s)"
  shows "\<exists>c. show_logo E s = Ok (s\<lparr>k_con := c\<rparr>) \<and> ready_console (resolution fb) c"
proof -
  have font: "length (ke_font E) \<le> isize_max" and wide: "64 \<le> fb_width fb" using assms(1) by (simp_all add: screen_fits_def)
  obtain d w h px where logo: "ke_decode E (ke_logo E) = Some d" "png_rgba d = Some True" "png_size d = Some (w, h)" "png_bytes d = Some px" "w * h < usize_bound"
    using assms(1) unfolding screen_fits_def by blast
  obtain t fb1 where fb1: "con_tty (k_con s) = Some t" "t_fb t = Some fb1" "resolution fb1 = resolution fb"
    using assms(2) by (auto simp: ready_console_def console_size_def screen_size_def bind_eq_Some_conv)
  obtain c1 where c1: "logged (info (ke_font E) [lit ''Resolution: '', decimal (fb_width fb1), lit ''x'', decimal (fb_height fb1)]) s = Ok (s\<lparr>k_con := c1\<rparr>)"
    "ready_console (resolution fb) c1" using logged_ready(1) [OF font assms(2)] by blast
  obtain c2 where c2: "say E ''Displaying logo...'' (s\<lparr>k_con := c1\<rparr>) = Ok (s\<lparr>k_con := c2\<rparr>)" "ready_console (resolution fb) c2"
    using logged_ready(3) [OF font, of "resolution fb" "s\<lparr>k_con := c1\<rparr>" "''Displaying logo...''"] c1(2) by auto
  obtain t2 fb2 where fb2: "con_tty c2 = Some t2" "t_fb t2 = Some fb2" "resolution fb2 = resolution fb" "tty_ok t2"
    using c2(2) by (auto simp: ready_console_def console_ok_def console_size_def screen_size_def bind_eq_Some_conv)
  then have good: "good_fb (Some fb2)" by (simp add: tty_ok_def)
  then obtain fb3 where fb3: "draw_bitmap fb2 (chunks4 px) w h (fb_width fb1 - 64) 0 = Ok fb3" "same_shape fb2 fb3"
    using draw_bitmap_clips_aux [of fb2 w h "chunks4 px" "fb_width fb1 - 64" 0] logo(5) by (auto simp: good_fb_def)
  have "tty_ok (t2\<lparr>t_fb := Some fb3\<rparr>)" using fb2(4) good_fb_shape [OF good fb3(2)] by (simp add: tty_ok_def)
  moreover have "resolution fb3 = resolution fb" using fb3(2) fb2(3) by (simp add: same_shape_def resolution_def)
  moreover have "on_framebuffer (draw_png (ke_decode E) (ke_logo E) (fb_width fb1 - 64) 0) c2 = Ok (c2\<lparr>con_tty := Some (t2\<lparr>t_fb := Some fb3\<rparr>)\<rparr>)"
    by (simp add: on_framebuffer_def on_tty_def fb2 draw_png_def logo fb3(1))
  moreover have "usub (fb_width fb1) 64 = Ok (fb_width fb1 - 64)" using wide fb1(3) by (simp add: resolution_def usub_def)
  ultimately have "show_logo E s = Ok (s\<lparr>k_con := c2\<lparr>con_tty := Some (t2\<lparr>t_fb := Some fb3\<rparr>)\<rparr>\<rparr>)"
    "ready_console (resolution fb) (c2\<lparr>con_tty := Some (t2\<lparr>t_fb := Some fb3\<rparr>)\<rparr>)"
    by (simp_all add: show_logo_def fb1 c1(1) c2(1) logged_def [of "on_framebuffer _"] ready_console_def console_ok_def console_size_def screen_size_def)
  then show ?thesis by blast
qed

lemma start_pcie_ok:
  assumes "length (ke_font E) \<le> isize_max" "firmware_fits E bi pmo la ios" "ready_console wh (k_con s)"
  shows "\<exists>c. start_pcie E pmo bi s = Ok (s\<lparr>k_con := c\<rparr>) \<and> ready_console wh c"
proof -
  obtain r where r: "rsdp_addr bi = Some r" "ke_tables E r" "mcfg_table (ke_acpi E) = None" using assms(2) unfolding firmware_fits_def by blast
  obtain c1 where c1: "say E ''Getting ACPI information...'' s = Ok (s\<lparr>k_con := c1\<rparr>)" "ready_console wh c1"
    using logged_ready(3) [OF assms(1,3)] by blast
  obtain c2 where c2: "say E ''Setting up PCIe (MCFG)...'' (s\<lparr>k_con := c1\<rparr>) = Ok (s\<lparr>k_con := c2\<rparr>)" "ready_console wh c2"
    using logged_ready(3) [OF assms(1), of wh "s\<lparr>k_con := c1\<rparr>" "''Setting up PCIe (MCFG)...''"] c1(2) by auto
  obtain c3 where c3: "logged (warning (ke_font E) (ke_loc E 147) [lit ''PCIe ECAM init failed. Falling back to legacy CF8/CFC. Error: '',
      lit ''MCFG table not found.'']) (s\<lparr>k_con := c2\<rparr>) = Ok (s\<lparr>k_con := c3\<rparr>)" "ready_console wh c3"
    using logged_ready(2) [OF assms(1), of wh "s\<lparr>k_con := c2\<rparr>" "ke_loc E 147"] c2(2) by fastforce
  have "s\<lparr>k_con := c, k_vm := (k_vm s)\<lparr>vm_mapper := vm_mapper (k_vm s), vm_frames := vm_frames (k_vm s)\<rparr>, k_ecam := k_ecam s\<rparr> = s\<lparr>k_con := c\<rparr>" for c by simp
  then have "start_pcie E pmo bi s = Ok (s\<lparr>k_con := c3\<rparr>)"
    by (simp add: start_pcie_def c1(1) c2(1) r init_pcie_from_acpi_def Let_def c3(1))
  with c3(2) show ?thesis by blast
qed

lemma scan_devices_ok:
  assumes "length (ke_font E) \<le> isize_max" "pci_space (ke_machine E) (k_ecam s) space latch" "ready_console wh (k_con s)"
  shows "\<exists>c devs hw. scan_devices E s = Ok (devs, s\<lparr>k_con := c, k_irq := (k_irq s)\<lparr>irq_hw := hw\<rparr>\<rparr>) \<and> ready_console wh c"
proof -
  obtain c where c: "say E ''Scanning PCIe bus...'' s = Ok (s\<lparr>k_con := c\<rparr>)" "ready_console wh c" using logged_ready(3) [OF assms(1,3)] by blast
  obtain devs hw where "scan_pci_bus (ke_machine E) (k_ecam s) (irq_hw (k_irq s)) = Ok (devs, hw)" using scan_pci_bus_run [OF assms(2)] by blast
  then have "scan_devices E s = Ok (devs, s\<lparr>k_con := c, k_irq := (k_irq s)\<lparr>irq_hw := hw\<rparr>\<rparr>)" by (simp add: scan_devices_def c(1))
  with c(2) show ?thesis by blast
qed

lemma load_tables_ok:
  assumes "length (ke_font E) \<le> isize_max" "tables_fit E used" "addresses_ok (ke_ops E)" "cpl (k_cpu s) = 0" "ready_console wh (k_con s)"
  shows "\<exists>c g t. load_tables E s = Ok (s\<lparr>k_con := c, k_cpu := kernel_segments g (init_idt (k_cpu s))\<rparr>) \<and> ready_console wh c \<and>
    descriptor_at (ke_gdt E) g = kernel_descriptors t"
proof -
  obtain c where c: "say E ''Initializing IDT & GDT...'' s = Ok (s\<lparr>k_con := c\<rparr>)" "ready_console wh c" using logged_ready(3) [OF assms(1,5)] by blast
  have tf: "gdt_ok (ke_gdt E) used" "canonical (ke_stack E)" "canonical (ke_stack E + STACK_SIZE)" "canonical (ke_kstack E)" "canonical (ke_kstack E + STACK_SIZE)"
    using assms(2) by (simp_all add: tables_fit_def)
  have "cpl (init_idt (k_cpu s)) = 0" using assms(4) by (simp add: init_idt_def cpl_def)
  from gdt_init_ok [OF tf(1) assms(3) tf(2-5) this] obtain g t where
    g: "gdt_init (ke_gdt E) (ke_ops E) (ke_stack E) (ke_kstack E) (init_idt (k_cpu s)) = Ok (kernel_segments g (init_idt (k_cpu s)))"
      "descriptor_at (ke_gdt E) g = kernel_descriptors t" by blast
  have "load_tables E s = Ok (s\<lparr>k_con := c, k_cpu := kernel_segments g (init_idt (k_cpu s))\<rparr>)" by (simp add: load_tables_def c(1) g(1))
  with c(2) g(2) show ?thesis by blast
qed

lemma route_inputs_total:
  assumes "vadd (io_virt io) 0x10 = Ok a"
  shows "\<exists>hw'. route_inputs H vadd io hw = Ok hw'"
proof -
  have "\<exists>hw'. route_input H vadd io (of_nat i) hw = Ok hw'" if i: "i < 24" for i hw
  proof -
    have rd: "io_read H vadd io r hw = Ok (read_volatile H (set_sel H io r hw) a)" and
      wr: "io_write H vadd io r v hw = Ok (write_volatile H (set_sel H io r hw) a v)" for r v hw
      using assms by (simp_all add: io_read_def io_write_def)
    have "push_bit 32 (ucast (high :: u32)) AND ucast (low :: u32) = (0 :: u64)" for high low
      by (rule bit_word_eqI) (auto simp: bit_simps dest: bit_imp_le_length)
    note sum = wadd_disjoint [OF this]
    have "delivery_mode (red_tbl_new n\<lparr>vector := v\<rparr>) < 4" for n v using delivery_mode_new by simp
    note st = red_tbl_store_word [OF this]
    have "wadd 50 (of_nat i :: u32) = Ok (of_nat (50 + i))" using i by (simp add: wadd_def unat_of_nat)
    then show ?thesis by (simp add: route_input_def read_redtlb_def write_redtlb_def redtlb_regs [OF i] rd wr sum st split_beta)
  qed
  then have "\<exists>hw'. rfold (route_input H vadd io) (map of_nat [0..<24]) hw = Ok hw' \<and> True"
    unfolding rfold_map by (intro rfold_invariant) auto
  then show ?thesis by (simp add: route_inputs_def)
qed

lemma start_io_apics_ok:
  assumes "addresses_ok (ke_ops E)" "phys_ok (ke_acpi E)" "k_io_apic s = None"
    and "\<forall>(n, a, g) \<in> set ios. unat a + pmo + 16 < usize_bound \<and> canonical (unat a + pmo) \<and> canonical (unat a + pmo + 16)"
  shows "\<exists>io hw. rfold (start_io_apic E pmo) ios s = Ok (s\<lparr>k_io_apic := io, k_irq := (k_irq s)\<lparr>irq_hw := hw\<rparr>\<rparr>)"
proof -
  let ?I = "\<lambda>s'. \<exists>io hw. s' = s\<lparr>k_io_apic := io, k_irq := (k_irq s)\<lparr>irq_hw := hw\<rparr>\<rparr> \<and>
    (\<forall>ioa. io = Some ioa \<longrightarrow> (\<exists>a. virt_add (ke_ops E) (io_virt ioa) 0x10 = Ok a))"
  have step: "\<exists>s2. start_io_apic E pmo x s1 = Ok s2 \<and> ?I s2" if x: "x \<in> set ios" and I: "?I s1" for x s1
  proof -
    obtain n ad g where xe: "x = (n, ad, g)" by (cases x)
    obtain io hw where s1: "s1 = s\<lparr>k_io_apic := io, k_irq := (k_irq s)\<lparr>irq_hw := hw\<rparr>\<rparr>"
      "\<forall>ioa. io = Some ioa \<longrightarrow> (\<exists>a. virt_add (ke_ops E) (io_virt ioa) 0x10 = Ok a)" using I by blast
    have b: "unat ad + pmo < usize_bound" "canonical (unat ad + pmo)" "canonical (unat ad + pmo + 16)" using assms(4) x xe by auto
    have "unat ad < 2 ^ 32" using unsigned_less [of ad] by simp
    then have p: "phys_new (ke_acpi E) (unat ad) = Ok (unat ad)" using assms(2) by (simp add: phys_ok_def)
    define ioa where "ioa = get_or_init io \<lparr>io_virt = unat ad + pmo, global_system_int = g, io_id = n\<rparr>"
    have init: "io_init (phys_new (ke_acpi E)) (virt_new (ke_ops E)) (get_or_init io) pmo n ad g = Ok ioa"
      using assms(1) b p by (simp add: io_init_def addresses_ok_def ioa_def)
    have add: "\<exists>a. virt_add (ke_ops E) (io_virt ioa) 0x10 = Ok a"
      using s1(2) assms(1) b(3) by (cases io) (auto simp: ioa_def get_or_init_def addresses_ok_def)
    then obtain hw' where "route_inputs (ke_machine E) (virt_add (ke_ops E)) ioa hw = Ok hw'" using route_inputs_total [of "virt_add (ke_ops E)" ioa] by metis
    then have "start_io_apic E pmo x s1 = Ok (s\<lparr>k_io_apic := Some ioa, k_irq := (k_irq s)\<lparr>irq_hw := hw'\<rparr>\<rparr>)"
      by (simp add: start_io_apic_def xe s1(1) init)
    with add show ?thesis by (intro exI conjI) auto
  qed
  have "?I s" using assms(3) by (intro exI [of _ None] exI [of _ "irq_hw (k_irq s)"]) simp
  with rfold_invariant [of ios ?I "start_io_apic E pmo" s] step show ?thesis by blast
qed

lemma start_apic_ok:
  assumes "length (ke_font E) \<le> isize_max" "firmware_fits E bi pmo la ios" "addresses_ok (ke_ops E)" "ready_console wh (k_con s)"
    and "lapic_cell (k_irq s) = None" "k_io_apic s = None"
  shows "\<exists>c io hw. start_apic E pmo s = Ok (s\<lparr>k_con := c, k_io_apic := io, k_irq := (k_irq s)\<lparr>lapic_cell := Some \<lparr>la_virt = la + pmo\<rparr>, irq_hw := hw\<rparr>\<rparr>) \<and>
    ready_console wh c"
proof -
  have ff: "ke_platform E = Some (ApicModel la ios)" "phys_new (ke_acpi E) la = Ok la" "canonical (la + pmo)" "la + pmo + 4096 < usize_bound" "phys_ok (ke_acpi E)"
    "\<forall>(n, a, g) \<in> set ios. unat a + pmo + 16 < usize_bound \<and> canonical (unat a + pmo) \<and> canonical (unat a + pmo + 16)"
    using assms(2) by (auto simp: firmware_fits_def phys_ok_def)
  obtain c where c: "say E ''Setting up PICS/APIC'' s = Ok (s\<lparr>k_con := c\<rparr>)" "ready_console wh c" using logged_ready(3) [OF assms(1,4)] by blast
  let ?la = "\<lparr>la_virt = la + pmo\<rparr>"
  have "\<exists>hw. la_init (ke_machine E) (virt_new (ke_ops E)) (get_or_init None) pmo la (irq_hw (k_irq s)) = Ok (?la, hw)"
    using assms(3) ff(3,4) by (simp add: la_init_def addresses_ok_def get_or_init_def la_read_def la_write_def Let_def split_beta)
  then obtain hw1 where hw1: "la_init (ke_machine E) (virt_new (ke_ops E)) (get_or_init None) pmo la (irq_hw (k_irq s)) = Ok (?la, hw1)" by blast
  obtain hw2 where hw2: "timer_setup (ke_machine E) ?la (case ke_frequency E of Some freq \<Rightarrow> freq | None \<Rightarrow> 1000000) hw1 = Ok hw2"
    using ff(4) by (simp add: timer_setup_def set_div_conf_def set_lvt_timer_def set_init_count_def la_write_def)
  let ?s = "s\<lparr>k_con := c, k_irq := (k_irq s)\<lparr>lapic_cell := Some ?la, irq_hw := hw2\<rparr>\<rparr>"
  have "k_io_apic ?s = None" using assms(6) by simp
  from start_io_apics_ok [OF assms(3) ff(5) this ff(6)] obtain io hw3 where
    io: "rfold (start_io_apic E pmo) ios ?s = Ok (?s\<lparr>k_io_apic := io, k_irq := (k_irq ?s)\<lparr>irq_hw := hw3\<rparr>\<rparr>)" by blast
  have "start_apic E pmo s = Ok (s\<lparr>k_con := c, k_io_apic := io, k_irq := (k_irq s)\<lparr>lapic_cell := Some ?la, irq_hw := hw3\<rparr>\<rparr>)"
    using io by (simp add: start_apic_def ff(1,2) c(1) assms(5) hw1 hw2)
  with c(2) show ?thesis by blast
qed

section \<open>Interrupts before the queue exists\<close>

lemma IDT_vector:
  "32 \<le> v \<Longrightarrow> v < 256 \<Longrightarrow> IDT v = Some (if v = 0x80 then Int80Entry else if 50 \<le> v \<and> v < 74 then IoApicHandler (v - 50)
     else if v = 49 then TimerHandler2 else if v = 48 then TimerHandler else GenericHandler)"
  unfolding IDT_def Let_def fun_upd_def set_all_upt by simp

lemma early_interrupt:
  assumes "32 \<le> v" "v < 256" "lapic_cell s = Some la" "la_virt la + 4096 < usize_bound" "tick_count s + 1 < usize_bound"
  shows "v \<noteq> 51 \<Longrightarrow> \<exists>s'. deliver H Q v s = Ok s' \<and> lapic_cell s' = Some la \<and> irq_kb s' = irq_kb s \<and> tick_count s' \<le> tick_count s + 1"
    "scancode_queue (irq_kb s) = None \<Longrightarrow> deliver H Q 51 s = Panic (ExplicitPanic ''(KEYBOARD) Scancode queue is uninitialized.'')"
proof -
  have eoi: "\<exists>s'. end_of_interrupt H s1 = Ok s' \<and> lapic_cell s' = Some la \<and> irq_kb s' = irq_kb s1 \<and> tick_count s' = tick_count s1"
    if "lapic_cell s1 = Some la" for s1
    using that assms(4) by (simp add: end_of_interrupt_def eoi_def la_write_def)
  show "\<exists>s'. deliver H Q v s = Ok s' \<and> lapic_cell s' = Some la \<and> irq_kb s' = irq_kb s \<and> tick_count s' \<le> tick_count s + 1" if "v \<noteq> 51"
  proof -
    have "\<exists>s'. timer_interrupt_handler H s = Ok s' \<and> lapic_cell s' = Some la \<and> irq_kb s' = irq_kb s \<and> tick_count s' \<le> tick_count s + 1"
      using eoi [of "s\<lparr>tick_count := tick_count s + 1\<rparr>"] assms(3,5) by (auto simp: timer_interrupt_handler_def)
    moreover have "\<exists>s'. ioapic_handler H Q (v - 50) s = Ok s' \<and> lapic_cell s' = Some la \<and> irq_kb s' = irq_kb s \<and> tick_count s' \<le> tick_count s + 1" if "50 \<le> v"
      using eoi [of s] assms(3) that \<open>v \<noteq> 51\<close> by (auto simp: ioapic_handler_def)
    ultimately show ?thesis using eoi [of s] assms(3) unfolding deliver_def IDT_vector [OF assms(1,2)] by auto
  qed
  show "deliver H Q 51 s = Panic (ExplicitPanic ''(KEYBOARD) Scancode queue is uninitialized.'')" if "scancode_queue (irq_kb s) = None"
    using that IDT_vector [of 51] by (simp add: deliver_def ioapic_handler_def add_scancode_def split_beta)
qed

lemma early_interrupts:
  assumes "set early \<subseteq> {32..<256}" "lapic_cell s = Some la" "la_virt la + 4096 < usize_bound" "tick_count s + length early < usize_bound"
    and "scancode_queue (irq_kb s) = None"
  shows "if 51 \<in> set early then rfold (deliver H Q) early s = Panic (ExplicitPanic ''(KEYBOARD) Scancode queue is uninitialized.'')
    else \<exists>s'. rfold (deliver H Q) early s = Ok s' \<and> irq_kb s' = irq_kb s"
  using assms(1,2,4,5)
proof (induction early arbitrary: s)
  case (Cons v early)
  have v: "32 \<le> v" "v < 256" "tick_count s + 1 < usize_bound" using Cons.prems by auto
  show ?case
  proof (cases "v = 51")
    case True
    then show ?thesis using early_interrupt(2) [OF v(1,2) Cons.prems(2) assms(3) v(3) Cons.prems(4)] by simp
  next
    case False
    obtain s1 where s1: "deliver H Q v s = Ok s1" "lapic_cell s1 = Some la" "irq_kb s1 = irq_kb s" "tick_count s1 \<le> tick_count s + 1"
      using early_interrupt(1) [OF v(1,2) Cons.prems(2) assms(3) v(3) False] by blast
    have "set early \<subseteq> {32..<256}" "tick_count s1 + length early < usize_bound" "scancode_queue (irq_kb s1) = None" using Cons.prems s1 by auto
    from Cons.IH [OF this(1) s1(2) this(2,3)] False s1(1,3) show ?thesis by (simp split: if_splits)
  qed
qed simp

lemma start_queue_cases:
  assumes "length (ke_font E) \<le> isize_max" "ready_console wh (k_con s)" "lapic_cell (k_irq s) = Some la" "la_virt la + 4096 < usize_bound"
    and "scancode_queue (irq_kb (k_irq s)) = None" "set early \<subseteq> {32..<256}" "tick_count (k_irq s) + length early < usize_bound"
  shows "if 51 \<in> set early then start_queue E early s = Panic (ExplicitPanic ''(KEYBOARD) Scancode queue is uninitialized.'')
    else \<exists>s2. start_queue E early s = Ok s2 \<and> scancode_queue (irq_kb (k_irq s2)) = Some (aq_new (ke_queue E) 100)"
proof (cases "51 \<in> set early")
  case True
  then show ?thesis using early_interrupts [OF assms(6,3,4,7,5), of "ke_machine E" "ke_queue E"] by (simp add: start_queue_def)
next
  case False
  then obtain irq where irq: "rfold (deliver (ke_machine E) (ke_queue E)) early (k_irq s) = Ok irq" "irq_kb irq = irq_kb (k_irq s)"
    using early_interrupts [OF assms(6,3,4,7,5), of "ke_machine E" "ke_queue E"] by auto
  let ?s = "s\<lparr>k_cpu := enable_interrupts (k_cpu s), k_irq := irq\<rparr>"
  have "ready_console wh (k_con ?s)" using assms(2) by simp
  from logged_ready(3) [OF assms(1) this] obtain c where c: "say E ''Initializing scancode queue...'' ?s = Ok (?s\<lparr>k_con := c\<rparr>)" by blast
  show ?thesis using False assms(5) irq c by (simp add: start_queue_def scancode_stream_new_def)
qed

section \<open>The kernel boots\<close>

lemma before_interrupts_ok:
  assumes "screen_fits E bi fb" "memory_fits E bi pmo tr plain" "firmware_fits E bi pmo la ios" "tables_fit E used"
    and "pci_space (ke_machine E) 0 space latch" "k_ecam s = 0" "k_heap s = bump_new" "k_io_apic s = None" "lapic_cell (k_irq s) = None"
    and "scancode_queue (irq_kb (k_irq s)) = None" "seg_cs (k_cpu s) = 0x08"
  shows "\<exists>devs s' g t. before_interrupts E bi s = Ok (pmo, devs, s') \<and> ready_console (resolution fb) (k_con s') \<and> k_heap s' = kernel_bump \<and>
    (\<forall>a. HEAP_START \<le> a \<longrightarrow> a < HEAP_START + HEAP_SIZE \<longrightarrow> tr (vm_mapper (k_vm s')) (a - a mod 4096) \<noteq> None) \<and>
    k_cpu s' = kernel_segments g (init_idt (k_cpu s)) \<and> descriptor_at (ke_gdt E) g = kernel_descriptors t \<and>
    lapic_cell (k_irq s') = Some \<lparr>la_virt = la + pmo\<rparr> \<and> irq_kb (k_irq s') = irq_kb (k_irq s) \<and> tick_count (k_irq s') = tick_count (k_irq s)"
proof -
  have font: "length (ke_font E) \<le> isize_max" using assms(1) by (simp add: screen_fits_def)
  have ops: "addresses_ok (ke_ops E)" using assms(2) by (simp add: memory_fits_def)
  let ?wh = "resolution fb"
  obtain c1 where s1: "start_screen E bi s = Ok (s\<lparr>k_con := c1\<rparr>)" "ready_console ?wh c1" using start_screen_ok [OF assms(1)] by blast
  define s1 where "s1 = s\<lparr>k_con := c1\<rparr>"
  have "ready_console ?wh (k_con s1)" "k_heap s1 = bump_new" using s1(2) assms(7) by (simp_all add: s1_def)
  from start_memory_ok [OF font assms(2) this] obtain c2 m f where s2: "start_memory E bi s1 = Ok (pmo, s1\<lparr>k_con := c2, k_heap := kernel_bump,
      k_vm := (k_vm s1)\<lparr>vm_mapper := m, vm_frames := f\<rparr>\<rparr>)" "ready_console ?wh c2"
    and heap: "\<forall>a. HEAP_START \<le> a \<longrightarrow> a < HEAP_START + HEAP_SIZE \<longrightarrow> tr m (a - a mod 4096) \<noteq> None" by blast
  define s2 where "s2 = s1\<lparr>k_con := c2, k_heap := kernel_bump, k_vm := (k_vm s1)\<lparr>vm_mapper := m, vm_frames := f\<rparr>\<rparr>"
  have "ready_console ?wh (k_con s2)" using s2(2) by (simp add: s2_def)
  from show_logo_ok [OF assms(1) this] obtain c3 where s3: "show_logo E s2 = Ok (s2\<lparr>k_con := c3\<rparr>)" "ready_console ?wh c3" by blast
  define s3 where "s3 = s2\<lparr>k_con := c3\<rparr>"
  have "ready_console ?wh (k_con s3)" using s3(2) by (simp add: s3_def)
  from start_pcie_ok [OF font assms(3) this] obtain c4 where s4: "start_pcie E pmo bi s3 = Ok (s3\<lparr>k_con := c4\<rparr>)" "ready_console ?wh c4" by blast
  define s4 where "s4 = s3\<lparr>k_con := c4\<rparr>"
  have "pci_space (ke_machine E) (k_ecam s4) space latch" "ready_console ?wh (k_con s4)"
    using s4(2) assms(5,6) by (simp_all add: s4_def s3_def s2_def s1_def)
  from scan_devices_ok [OF font this] obtain c5 devs hw where
    s5: "scan_devices E s4 = Ok (devs, s4\<lparr>k_con := c5, k_irq := (k_irq s4)\<lparr>irq_hw := hw\<rparr>\<rparr>)" "ready_console ?wh c5" by blast
  define s5 where "s5 = s4\<lparr>k_con := c5, k_irq := (k_irq s4)\<lparr>irq_hw := hw\<rparr>\<rparr>"
  have cpu: "k_cpu s5 = k_cpu s" by (simp add: s5_def s4_def s3_def s2_def s1_def)
  then have "cpl (k_cpu s5) = 0" "ready_console ?wh (k_con s5)" using s5(2) assms(11) by (simp_all add: s5_def cpl_def rpl_def)
  from load_tables_ok [OF font assms(4) ops this] obtain c6 g t where
    s6: "load_tables E s5 = Ok (s5\<lparr>k_con := c6, k_cpu := kernel_segments g (init_idt (k_cpu s5))\<rparr>)" "ready_console ?wh c6"
    and g: "descriptor_at (ke_gdt E) g = kernel_descriptors t" by blast
  define s6 where "s6 = s5\<lparr>k_con := c6, k_cpu := kernel_segments g (init_idt (k_cpu s5))\<rparr>"
  have "ready_console ?wh (k_con s6)" "lapic_cell (k_irq s6) = None" "k_io_apic s6 = None"
    using s6(2) assms(8,9) by (simp_all add: s6_def s5_def s4_def s3_def s2_def s1_def)
  from start_apic_ok [OF font assms(3) ops this] obtain c7 io hw' where
    s7: "start_apic E pmo s6 = Ok (s6\<lparr>k_con := c7, k_io_apic := io, k_irq := (k_irq s6)\<lparr>lapic_cell := Some \<lparr>la_virt = la + pmo\<rparr>, irq_hw := hw'\<rparr>\<rparr>)"
      "ready_console ?wh c7" by blast
  define s7 where "s7 = s6\<lparr>k_con := c7, k_io_apic := io, k_irq := (k_irq s6)\<lparr>lapic_cell := Some \<lparr>la_virt = la + pmo\<rparr>, irq_hw := hw'\<rparr>\<rparr>"
  have "ready_console ?wh (k_con s7)" using s7(2) by (simp add: s7_def)
  from logged_ready(3) [OF font this] obtain c8 where s8: "say E ''Enabling interrupts...'' s7 = Ok (s7\<lparr>k_con := c8\<rparr>)" "ready_console ?wh c8" by blast
  define s8 where "s8 = s7\<lparr>k_con := c8\<rparr>"
  have run: "before_interrupts E bi s = Ok (pmo, devs, s8)"
    unfolding before_interrupts_def s1(1) rbind_simps s1_def [symmetric] s2(1) prod.case s2_def [symmetric] s3(1) s3_def [symmetric] s4(1) s4_def [symmetric]
      s5(1) s5_def [symmetric] s6(1) s6_def [symmetric] s7(1) s7_def [symmetric] s8(1) s8_def [symmetric] ..
  note chain = s8_def s7_def s6_def s5_def s4_def s3_def s2_def s1_def
  have "ready_console ?wh (k_con s8)" using s8(2) by (simp add: s8_def)
  moreover have "k_heap s8 = kernel_bump" "vm_mapper (k_vm s8) = m" "k_cpu s8 = kernel_segments g (init_idt (k_cpu s))"
    "lapic_cell (k_irq s8) = Some \<lparr>la_virt = la + pmo\<rparr>" "irq_kb (k_irq s8) = irq_kb (k_irq s)" "tick_count (k_irq s8) = tick_count (k_irq s)"
    by (simp_all add: chain)
  ultimately show ?thesis using run heap g by (metis (no_types, lifting))
qed

text \<open>
  C1. On a platform that has what the kernel asks for, every step up to the enabling of interrupts returns, and then:
  the console is well formed, every byte of the heap is mapped and the allocator covers it, and, if the boot loader
  ran on code selector 0x08, the processor can deliver every vector that has a handler. Of the interrupts that
  come before the queue of scancodes exists all but one kind are harmless: the queue is created after them. A key
  in that gap makes the kernel panic.
\<close>

theorem boot_to_interrupts:
  assumes "screen_fits E bi fb" "memory_fits E bi pmo tr plain" "firmware_fits E bi pmo la ios" "tables_fit E used"
    and "pci_space (ke_machine E) 0 space latch" "k_ecam s = 0" "k_heap s = bump_new" "k_io_apic s = None" "lapic_cell (k_irq s) = None"
    and "scancode_queue (irq_kb (k_irq s)) = None" "seg_cs (k_cpu s) = 0x08"
  shows "\<exists>devs s'. before_interrupts E bi s = Ok (pmo, devs, s') \<and> console_ok (k_con s') \<and> k_heap s' = kernel_bump \<and>
    (\<forall>a. HEAP_START \<le> a \<and> a < HEAP_START + HEAP_SIZE \<longrightarrow> tr (vm_mapper (k_vm s')) (a - a mod 4096) \<noteq> None) \<and>
    (\<forall>ev v h. IDT v = Some h \<longrightarrow> (\<exists>k. enter_gate (ke_gdt E) ev v (k_cpu s') = Ok (h, k))) \<and>
    (\<forall>early. set early \<subseteq> {32..<256} \<and> tick_count (k_irq s) + length early < usize_bound \<longrightarrow>
      (if 51 \<in> set early then start_queue E early s' = Panic (ExplicitPanic ''(KEYBOARD) Scancode queue is uninitialized.'')
       else \<exists>s2. start_queue E early s' = Ok s2 \<and> scancode_queue (irq_kb (k_irq s2)) = Some (aq_new (ke_queue E) 100)))"
proof -
  have font: "length (ke_font E) \<le> isize_max" using assms(1) by (simp add: screen_fits_def)
  obtain devs s8 g t where run: "before_interrupts E bi s = Ok (pmo, devs, s8)" and con: "ready_console (resolution fb) (k_con s8)"
    and heap: "k_heap s8 = kernel_bump" "\<forall>a. HEAP_START \<le> a \<longrightarrow> a < HEAP_START + HEAP_SIZE \<longrightarrow> tr (vm_mapper (k_vm s8)) (a - a mod 4096) \<noteq> None"
    and cpu: "k_cpu s8 = kernel_segments g (init_idt (k_cpu s))" "descriptor_at (ke_gdt E) g = kernel_descriptors t"
    and irq: "lapic_cell (k_irq s8) = Some \<lparr>la_virt = la + pmo\<rparr>" "irq_kb (k_irq s8) = irq_kb (k_irq s)" "tick_count (k_irq s8) = tick_count (k_irq s)"
    using before_interrupts_ok [OF assms] by blast
  have la: "la_virt \<lparr>la_virt = la + pmo\<rparr> + 4096 < usize_bound" using assms(3) by (simp add: firmware_fits_def)
  have q: "scancode_queue (irq_kb (k_irq s8)) = None" using irq(2) assms(10) by simp
  have gates: "\<exists>k. enter_gate (ke_gdt E) ev v (k_cpu s8) = Ok (h, k)" if "IDT v = Some h" for ev v h
    using same_level_gate [of "ke_gdt E" "k_cpu s8" t "0x08" v h ev] that cpu assms(11)
    by (simp add: kernel_segments_def init_idt_def cpl_def rpl_def Let_def)
  have "if 51 \<in> set early then start_queue E early s8 = Panic (ExplicitPanic ''(KEYBOARD) Scancode queue is uninitialized.'')
       else \<exists>s2. start_queue E early s8 = Ok s2 \<and> scancode_queue (irq_kb (k_irq s2)) = Some (aq_new (ke_queue E) 100)"
    if "set early \<subseteq> {32..<256} \<and> tick_count (k_irq s) + length early < usize_bound" for early
    using start_queue_cases [OF font con irq(1) la q, of early] that irq(3) by auto
  moreover have "console_ok (k_con s8)" using con by (simp add: ready_console_def)
  ultimately show ?thesis using run heap gates by (intro exI [of _ devs] exI [of _ s8] conjI) blast+
qed

text \<open>A small platform: 64 by 8 pixels, no PCI devices, one local APIC.\<close>

definition small_fb :: framebuffer where
  "small_fb = \<lparr>fb_width = 64, fb_height = 8, fb_stride = 64, fb_bpp = 3, fb_format = PixRgb, fb_buf = replicate 1536 0\<rparr>"

definition small_env :: "(addr \<rightharpoonup> addr \<times> page_flag set, u32 \<times> (cfg_key \<Rightarrow> u32), descriptor option list, nat \<times> u8 list) kernel_env" where
  "small_env = \<lparr>ke_font = demo_font, ke_font_height = 8, ke_loc = \<lambda>_. [], ke_art = [], ke_version = lit ''25.11.0'', ke_ops = demo_mapper, ke_frame_of = Ok,
     ke_level_4_frame = 0x1000, ke_page_table = \<lambda>_ _. Map.empty, ke_decode = \<lambda>_. Some \<lparr>png_bytes = Some [], png_rgba = Some True, png_size = Some (0, 0)\<rparr>,
     ke_logo = [], ke_acpi = demo_acpi_env\<lparr>mcfg_table := None\<rparr>, ke_tables = \<lambda>_. True, ke_platform = Some (ApicModel 0xFEE00000 []), ke_frequency = None,
     ke_machine = pci_box 0 (\<lambda>_ v. v), ke_gdt = list_gdt, ke_stack = 0x10000, ke_kstack = 0x20000, ke_queue = list_queue,
     ke_nic = \<lparr>mac = [], mar = [], tsd = [], tsad = [], rbstart = 0, rtl_cmd = 0, imr = 0, isr = 0, tx_current = 0, rx_offset = 0, ioaddr = 0, rtl_irq = 0\<rparr>,
     ke_rtl = \<lparr>nic_machine = pci_box 0 (\<lambda>_ v. v), nic_font = demo_font, nic_loc = \<lambda>_. [], nic_pmo = 0, nic_rx_buf = 0, map_device = \<lambda>_. Ok None\<rparr>,
     ke_writable = \<lambda>m a. \<exists>f fl. m (a - a mod 4096) = Some (f, fl) \<and> WRITABLE \<in> fl, ke_archive = [], ke_parse = \<lambda>_. None\<rparr>"

definition small_info :: boot_info where
  "small_info = \<lparr>bi_framebuffer = Some small_fb, physical_memory_offset = Some 0x10000000000, memory_regions = demo_map, rsdp_addr = Some 0xE0000\<rparr>"

definition small_kernel :: "(addr \<rightharpoonup> addr \<times> page_flag set, boot_frames, u32 \<times> (cfg_key \<Rightarrow> u32), descriptor option list, nat \<times> u8 list, nat) kernel" where
  "small_kernel = \<lparr>k_con = \<lparr>con_tty = None, con_serial = []\<rparr>, k_heap = bump_new,
     k_vm = \<lparr>vm_mapper = Map.empty, vm_frames = boot_frames_init demo_map, next_virt = 0, next_virt_user = 0\<rparr>, k_mem = \<lambda>_. 0, k_ecam = 0,
     k_cpu = boot_cpu 8, k_irq = \<lparr>tick_count = 0, lapic_cell = None, irq_kb = \<lparr>scancode_queue = None, kb_waker = None, kb_woken = []\<rparr>, irq_hw = (0, \<lambda>_. 0xFFFFFFFF)\<rparr>,
     k_io_apic = None, k_fs = None\<rparr>"

theorem boot_to_interrupts_witness:
  "\<exists>devs s'. before_interrupts small_env small_info small_kernel = Ok (0x10000000000, devs, s') \<and>
     start_queue small_env [48, 51] s' = Panic (ExplicitPanic ''(KEYBOARD) Scancode queue is uninitialized.'') \<and>
     (\<exists>s2. start_queue small_env [48] s' = Ok s2 \<and> scancode_queue (irq_kb (k_irq s2)) = Some (aq_new list_queue 100))"
proof -
  have "screen_fits small_env small_info small_fb"
    by (simp add: screen_fits_def small_env_def small_info_def small_fb_def good_fb_def fb_ok_def demo_font_def)
  moreover have "memory_fits small_env small_info 0x10000000000 (\<lambda>m. m) (\<lambda>_ _. True)"
    by (simp add: memory_fits_def small_env_def small_info_def canonical_low demo_addresses_ok demo_map_to_ok demo_ready)
      (simp add: demo_pool length_demo_frames)
  moreover have "firmware_fits small_env small_info 0x10000000000 0xFEE00000 []"
    by (simp add: firmware_fits_def small_env_def small_info_def canonical_low phys_ok_def demo_acpi_env_def usub_def)
  moreover have "tables_fit small_env length"
    using list_gdt_ok by (simp add: tables_fit_def small_env_def STACK_SIZE_def canonical_low)
  moreover have "pci_space (ke_machine small_env) 0 snd (\<lambda>_ v. v)" by (simp add: small_env_def pci_box_space)
  moreover have "k_ecam small_kernel = 0" "k_heap small_kernel = bump_new" "k_io_apic small_kernel = None" "lapic_cell (k_irq small_kernel) = None"
    "scancode_queue (irq_kb (k_irq small_kernel)) = None" "seg_cs (k_cpu small_kernel) = 0x08" "tick_count (k_irq small_kernel) = 0" "ke_queue small_env = list_queue"
    by (simp_all add: small_kernel_def small_env_def boot_cpu_def)
  ultimately obtain devs s' where s': "before_interrupts small_env small_info small_kernel = Ok (0x10000000000, devs, s')"
    "\<And>early. set early \<subseteq> {32..<256} \<Longrightarrow> length early < usize_bound \<Longrightarrow>
      (if 51 \<in> set early then start_queue small_env early s' = Panic (ExplicitPanic ''(KEYBOARD) Scancode queue is uninitialized.'')
       else \<exists>s2. start_queue small_env early s' = Ok s2 \<and> scancode_queue (irq_kb (k_irq s2)) = Some (aq_new list_queue 100))"
    using boot_to_interrupts [of small_env small_info small_fb "0x10000000000" "\<lambda>m. m" "\<lambda>_ _. True" "0xFEE00000" "[]" length snd "\<lambda>_ v. v" small_kernel]
    by (metis add_0)
  show ?thesis using s'(1) s'(2) [of "[48, 51]"] s'(2) [of "[48]"] by simp
qed

end
