(* ===== verification/Spec2Isabelle.thy ===== *)
theory Spec2Isabelle
  imports Bump Linked_List Fixed_Block Paging Ustar Executor Keyboard_Input Tty Console Pci Apic Interrupts Elf Syscall Commandline Ide Rtl8139 Nvme_Io Kernel
begin

text \<open>
  Verification of the kernel of lemoncake, an operating system for x86-64 written in Rust
  (\<open>kernel/src\<close> in the repository).

  Lemoncake is Copyright (c) 2025, SniverDaBest, under the 2-Clause BSD NON-AI License of the
  repository's file \<open>LICENSE\<close>, whose conditions and disclaimer apply to what is derived from its code.

  \<^bold>\<open>The program.\<close> \<open>kernel_main\<close> sets up the framebuffer and the terminal, the frame allocator and the heap,
  scans the PCI bus, loads the interrupt and segment tables, programs the APICs, and then either starts the program
  \<open>init\<close> of the archive in memory as a user process, which calls back through interrupt 0x80, or runs the
  kernel shell as a task of the executor. Keys reach the shell through an interrupt handler, a bounded
  queue and a stream that wakes the task.

  \<^bold>\<open>Conventions.\<close> \<open>Prelude\<close> says how panics, \<open>Result\<close>, integers and loops are rendered: the dev profile of
  Cargo, where arithmetic overflow and indices out of range panic, is modelled, so every such operation is
  a branch. A loop that need not end is a \<open>partial_function (option)\<close>, \<open>None\<close> meaning that it does not
  return; there is no fuel anywhere. Crates and the processor are arguments: records of operations
  (\<open>machine\<close> for ports and memory-mapped registers, \<open>mapper\<close> for page tables, \<open>array_queue\<close> for crossbeam's
  queue), with what is relied on of them as predicates (\<open>io_window\<close>, \<open>array_queue_ok\<close>, \<open>ready_channel\<close>)
  that the witnesses instantiate with concrete machines. The default Cargo features are on.

  \<^bold>\<open>Parts, theories and what is shown.\<close>
  \<^item> Heap. \<open>Global_Alloc\<close> has \<open>align_up\<close> and the contract of \<open>GlobalAlloc\<close> as a locale over clients that
    allocate, write and free; \<open>Bump\<close>, \<open>Linked_List\<close> (with an explicit store of nodes) and \<open>Fixed_Block\<close> (over any
    fallback heap) model \<open>allocator/*.rs\<close> and interpret it: live blocks are aligned, disjoint and inside the
    heap, no operation panics (but for the layouts the linked-list allocator refuses, which its theorem names), the
    loop over free regions refines first fit.
  \<^item> Memory. \<open>Paging\<close> models \<open>memory.rs\<close> and the page functions of \<open>allocator/mod.rs\<close>: every usable frame is
    handed out once, the heap is mapped before the allocator uses it, page runs are fresh.
  \<^item> Archive and programs. \<open>Ustar\<close> (\<open>drivers/ustar.rs\<close>): the readers are total, agree with each other and give
    back what was packed. \<open>Elf\<close> (\<open>elf.rs\<close>): loading copies and zero-fills the segments and writes nothing else. \<open>Rust_Str\<close> has
    UTF-8 and the printing of numbers.
  \<^item> Tasks and keys. \<open>Executor\<close> (\<open>executor.rs\<close>), \<open>Array_Queue\<close>, \<open>Keyboard_Input\<close> (\<open>keyboard.rs\<close>): no wake-up and no
    key is lost, whatever interrupts arrive in between.
  \<^item> Screen. \<open>Framebuffer\<close>, \<open>Font\<close>, \<open>Tty\<close> (\<open>display.rs\<close>, \<open>font.rs\<close>) and \<open>Console\<close> (\<open>logging.rs\<close>, \<open>serial.rs\<close>): drawing
    refines images, printing any text returns and keeps the terminal well formed; \<open>Screen\<close>: printing never
    changes the size of the screen.
  \<^item> Hardware. \<open>Machine\<close>, \<open>Driver\<close> (steps, waits and locks of drivers), \<open>Pci\<close> (\<open>pci.rs\<close>), \<open>Acpi\<close> (\<open>acpi.rs\<close>), \<open>Apic\<close> (\<open>apic.rs\<close>
    and the set-up loops of \<open>main.rs\<close>), \<open>Interrupts\<close> (\<open>interrupts.rs\<close>, \<open>sleep.rs\<close>): what configuration accesses, bus
    scan and redirection entries do exactly, which buses the mapped PCIe window reaches, and when waits end.
  \<^item> Devices. \<open>Rtl8139\<close> (\<open>drivers/rtl8139.rs\<close>): the ring of transmit descriptors and the receive buffer, with the
    panics and the reads out of bounds the card can cause. \<open>Ide\<close> (\<open>drivers/ide.rs\<close>), \<open>Nvme\<close> and \<open>Nvme_Io\<close> (\<open>drivers/nvme.rs\<close>), two drivers that are
    not compiled at this commit: the sector addresses, the accesses that never return, and that no NVMe
    controller is brought up.
  \<^item> Users. \<open>Syscall\<close> (\<open>syscall.rs\<close>): every call but panic and sleep returns and keeps the console and memory
    intact, if its buffer is mapped and not the kernel's own memory, and the heap has room. \<open>Usermode\<close> (\<open>gdt.rs\<close>, \<open>jump_to_usermode\<close>, the gates of \<open>interrupts.rs\<close>): the way into user mode, the only
    gate that \<open>int\<close> passes, and the return from a system call, against the checks of the processor. \<open>Commandline\<close>
    (\<open>commandline.rs\<close>): as long as memory lasts, no typed text but the panic command stops the shell, and a typed command is the one that runs.
  \<^item> Boot. \<open>Boot\<close> (the ramdisk, the start of \<open>init\<close>, the network cards, \<open>png.rs\<close>, the panic handler) and \<open>Kernel\<close>
    (\<open>kernel_main\<close> as a whole, \<open>memory::init\<close>): the ramdisk holds the archive; on a platform with a framebuffer,
    memory, ACPI tables and APICs as the kernel expects them every step up to the enabling of interrupts returns
    with heap, console, gates and handlers in place; and an interrupt that comes before the queue of scancodes
    exists is harmless unless it is a key.
  \<^item> This theory composes the I/O APIC set-up, the interrupt table and the keyboard queue.

  \<^bold>\<open>Interfaces.\<close> The locales are \<open>global_alloc\<close>, the contract of \<open>GlobalAlloc\<close>, interpreted for the bump and the linked-list
  allocator; \<open>fixed_on_heap\<close>, the block allocator over any heap that keeps the contract, a sublocale of it and
  interpreted over the linked-list heap; and \<open>frame_source\<close>, a frame allocator that serves a mapper, interpreted for
  both frame allocators of \<open>memory.rs\<close>. The properties rest on the facts of the interpretations.

  \<^bold>\<open>Memory and undefined behaviour.\<close> Memory is modelled where a component depends on it: the allocators work on their own
  store of bytes, the loader, the ramdisk and the network card on theirs. The system calls use the pointers of the
  program unchecked, so their model is given the set of the kernel's own addresses (\<open>env_kernel\<close>: stack, heap, statics,
  screen), and an access there is \<open>Undefined\<close>, as are the other accesses outside of what Rust defines; no theorem
  concludes from \<open>Undefined\<close> that the program stops. A failed allocation panics the kernel. It is a branch of
  \<open>inttostr\<close>, whose string is taken from the bump heap, and of the shell, where any scancode may meet it (\<open>sh_oom\<close>); the
  other allocations (tasks, queues and wakers, made once at the start, the maps of the executor, the buffer of the terminal
  and the decoded logo) are taken to succeed.

  \<^bold>\<open>Not modelled.\<close> The host program that starts the emulator and the build script (\<open>src/main.rs\<close>, \<open>build.rs\<close>), the list
  of modules \<open>drivers/mod.rs\<close>, the UART behind \<open>serial.rs\<close>, the texts of \<open>Display\<close> for devices and errors, the error
  messages of \<open>read_bar\<close> and \<open>Process::init\<close>, the branch of interrupt handler 10 for a network card that is never there, and
  the insides of crates. Interrupts are delivered at the points the models name: inside the stream of scancodes, in
  the idle step of the executor, and between the enabling of interrupts and the creation of the queue. The boot
  theorem is for firmware without a PCIe window; the window has its own theorem in \<open>Acpi\<close>.
\<close>

section \<open>From the keyboard to the queue\<close>

text \<open>
  C27. Once the I/O APIC is set up, an interrupt on its input 1 is delivered on the vector whose handler
  is the keyboard's: it appends the scancode read from port 0x60 to the queue, signals the end of the
  interrupt and leaves the tick counter alone. If the key arrives before the queue exists, the kernel
  panics.
\<close>

theorem keyboard_interrupt_queues_key:
  fixes s :: "('hw, 'q, 'w) irq_state"
  assumes "io_window H (io_virt io) regs ro" and "vadd (io_virt io) 0x10 = Ok (io_virt io + 0x10)" and "entry_ro ro"
    and "array_queue_ok Q items cap" and "lapic_cell s = Some la" and "la_virt la + 0xB0 < usize_bound"
  shows "\<exists>hw'. route_inputs H vadd io hw = Ok hw' \<and>
    (kb_ready cap (irq_kb s) \<and> length (kb_items items (irq_kb s)) < 100 \<longrightarrow>
       (\<exists>s'. deliver H Q (unat (regs hw' (of_nat (16 + 2 * 1)) AND 0xFF)) s = Ok s' \<and>
          kb_items items (irq_kb s') = kb_items items (irq_kb s) @ [fst (port_in8 H (irq_hw s) 0x60)] \<and>
          irq_hw s' = write_volatile H (snd (port_in8 H (irq_hw s) 0x60)) (la_virt la + 0xB0) 0 \<and>
          tick_count s' = tick_count s)) \<and>
    (scancode_queue (irq_kb s) = None \<longrightarrow>
       (\<exists>e. deliver H Q (unat (regs hw' (of_nat (16 + 2 * 1)) AND 0xFF)) s = Panic e))"
proof -
  obtain hw' where hw'1: "route_inputs H vadd io hw = Ok hw'"
    and regs: "\<forall>i < 24. regs hw' (of_nat (16 + 2 * i)) = (regs hw (of_nat (16 + 2 * i)) AND 0xFF00) OR of_nat (50 + i) \<and>
       regs hw' (of_nat (17 + 2 * i)) = regs hw (of_nat (17 + 2 * i)) AND 0xFF000000"
    using route_inputs_regs [of H io regs ro vadd hw, OF assms(1-3)] by blast
  have "regs hw' (of_nat (16 + 2 * 1)) = (regs hw (of_nat (16 + 2 * 1)) AND 0xFF00) OR of_nat (50 + 1)"
    by (rule regs [THEN spec [of _ 1], THEN mp, THEN conjunct1]) simp
  note hw' = hw'1 this
  have "((w AND 0xFF00) OR of_nat (50 + 1)) AND 0xFF = (51 :: u32)" for w :: u32
    by (simp add: bits_listed bit_simps)
  then have v: "unat (regs hw' (of_nat (16 + 2 * 1)) AND 0xFF) = 50 + 1" unfolding hw'(2) by simp
  let ?in = "port_in8 H (irq_hw s) 0x60"
  have run: "deliver H Q (50 + 1) s = rbind (add_scancode Q (irq_kb s) (fst ?in)) (\<lambda>kb.
      end_of_interrupt H (s\<lparr>irq_kb := kb, irq_hw := snd ?in\<rparr>))"
    using IDT_device [of 1] by (simp add: deliver_def ioapic_handler_def split_beta)
  have "\<exists>s'. deliver H Q (50 + 1) s = Ok s' \<and>
          kb_items items (irq_kb s') = kb_items items (irq_kb s) @ [fst ?in] \<and>
          irq_hw s' = write_volatile H (snd ?in) (la_virt la + 0xB0) 0 \<and> tick_count s' = tick_count s"
    if ready: "kb_ready cap (irq_kb s)" and len: "length (kb_items items (irq_kb s)) < 100"
  proof -
    obtain kb where "add_scancode Q (irq_kb s) (fst ?in) = Ok kb" "kb_items items kb = kb_items items (irq_kb s) @ [fst ?in]"
      using add_scancode_ok [OF assms(4) ready, of "fst ?in"] len by auto
    with assms(5,6) show ?thesis unfolding run by (simp add: end_of_interrupt_def eoi_def la_write_def)
  qed
  moreover have "\<exists>e. deliver H Q (50 + 1) s = Panic e" if "scancode_queue (irq_kb s) = None"
    unfolding run using that by (simp add: add_scancode_def)
  ultimately show ?thesis by (intro exI [of _ hw'] conjI impI hw'(1)) (simp_all only: v)
qed

theorem keyboard_interrupt_queues_key_witness:
  "\<exists>hw' s'. route_inputs (io_box 0xFEC00000) (\<lambda>a n. Ok (a + n)) \<lparr>io_virt = 0xFEC00000, global_system_int = 0, io_id = 0\<rparr>
       (0, \<lambda>r. 0x10000) = Ok hw' \<and>
     deliver (io_box 0xFEC00000) list_queue (unat (snd hw' (of_nat (16 + 2 * 1)) AND 0xFF))
       \<lparr>tick_count = 7, lapic_cell = Some \<lparr>la_virt = 0xFEE00000\<rparr>,
        irq_kb = \<lparr>scancode_queue = Some (100, [0x1E]), kb_waker = None, kb_woken = [] :: nat list\<rparr>, irq_hw = hw'\<rparr> = Ok s' \<and>
     kb_items snd (irq_kb s') = [0x1E, 0]"
proof -
  let ?io = "\<lparr>io_virt = 0xFEC00000, global_system_int = 0, io_id = 0\<rparr>" and ?H = "io_box 0xFEC00000"
  let ?s = "\<lambda>hw. \<lparr>tick_count = 7, lapic_cell = Some \<lparr>la_virt = 0xFEE00000\<rparr>,
        irq_kb = \<lparr>scancode_queue = Some (100 :: usize, [0x1E]), kb_waker = None, kb_woken = [] :: nat list\<rparr>, irq_hw = hw\<rparr>"
  let ?vadd = "\<lambda>a n. Ok (a + n)" and ?la = "\<lparr>la_virt = 0xFEE00000\<rparr>" and ?hw = "(0, \<lambda>r. 0x10000)"
  have hyps: "io_window ?H (io_virt ?io) snd io_box_ro_bits" "?vadd (io_virt ?io) 0x10 = Ok (io_virt ?io + 0x10)"
    "lapic_cell (?s hw) = Some ?la" "la_virt ?la + 0xB0 < usize_bound" for hw
    using io_box_window [where io = ?io and base = "0xFEC00000"] by simp_all
  obtain hw0 where hw0: "route_inputs ?H ?vadd ?io ?hw = Ok hw0"
    using keyboard_interrupt_queues_key [of ?H ?io snd io_box_ro_bits ?vadd list_queue snd fst "?s ?hw" ?la ?hw,
      OF hyps(1,2) io_box_ro list_queue_ok hyps(3,4)] by blast
  have "kb_ready fst (irq_kb (?s hw0)) \<and> length (kb_items snd (irq_kb (?s hw0))) < 100" by (simp add: kb_ready_def kb_items_def)
  with keyboard_interrupt_queues_key [of ?H ?io snd io_box_ro_bits ?vadd list_queue snd fst "?s hw0" ?la ?hw,
      OF hyps(1,2) io_box_ro list_queue_ok hyps(3,4)] hw0
  obtain s' where "deliver ?H list_queue (unat (snd hw0 (of_nat (16 + 2 * 1)) AND 0xFF)) (?s hw0) = Ok s'"
    "kb_items snd (irq_kb s') = kb_items snd (irq_kb (?s hw0)) @ [fst (port_in8 ?H (irq_hw (?s hw0)) 0x60)]" by auto
  with hw0 show ?thesis by (auto simp: kb_items_def io_box_def inert_machine_def)
qed

end
